(* ===== verification/Go_Base.thy ===== *)
theory Go_Base
  imports Complex_Main "HOL-Library.Finite_Map" "HOL-Library.Multiset"
    "HOL-Library.List_Lexorder" "HOL-Library.Char_ord"
begin

text \<open>
  The Go language and standard-library notions every component uses.

  \<^item> \<open>time.Time\<close> is an instant: an \<open>int\<close>, the nanoseconds since the zero time
    (January 1, year 1, UTC), so the zero value of the Go type is \<open>0\<close>. Locations and the
    monotonic reading do not take part in any comparison the program makes (every stored
    instant went through \<open>UTC()\<close>, which drops the monotonic reading).
  \<^item> \<open>time.Duration\<close> is an \<open>int\<close> number of nanoseconds in the 64-bit range;
    subtraction of instants saturates at the ends of that range.
  \<^item> A Go map is a finite map \<open>('k, 'v) fmap\<close>. The order of a \<open>range\<close> loop over a map
    is unspecified in Go: a loop takes a schedule, a list of positions, and visits the
    entries in the permuted order. Every permutation of the entries is the effect of some
    schedule, and no schedule skips or repeats an entry.
  \<^item> \<open>sort.Slice\<close> is not stable: the schedule chooses how equal elements are left, and
    the results over all schedules are exactly the sorted permutations of the input.
  \<^item> An \<open>error\<close> result is an \<open>error option\<close> (\<open>None\<close> is \<open>nil\<close>), a pair of a value and
    an error is \<open>error + 'a\<close>.
\<close>

named_theorems go_defs \<open>definitions of the Go runtime notions\<close>
named_theorems model_defs \<open>definitions of the operations of the program\<close>
named_theorems wf_intros \<open>introduction rules for well-formedness invariants\<close>

type_synonym time = int
type_synonym duration = int
type_synonym sched = "nat list"
type_synonym ('k, 'v) gomap = "('k, 'v) fmap"

section \<open>Errors\<close>

datatype error =
    ErrNotFound
  | ErrDeviceExists
  | ErrDuplicateUser
  | ErrInvalidToken
  | ErrInvalidCredentials
  | ErrWeakPassword
  | ErrOther string

section \<open>Instants and durations\<close>

definition IsZero :: "time \<Rightarrow> bool" where
  [go_defs]: "IsZero t \<longleftrightarrow> t = 0"

definition Before :: "time \<Rightarrow> time \<Rightarrow> bool" where
  [go_defs]: "Before t u \<longleftrightarrow> t < u"

definition After :: "time \<Rightarrow> time \<Rightarrow> bool" where
  [go_defs]: "After t u \<longleftrightarrow> u < t"

definition Equal :: "time \<Rightarrow> time \<Rightarrow> bool" where
  [go_defs]: "Equal t u \<longleftrightarrow> t = u"

definition max_duration :: duration where
  "max_duration = 2 ^ 63 - 1"

definition min_duration :: duration where
  "min_duration = - (2 ^ 63)"

definition Sub :: "time \<Rightarrow> time \<Rightarrow> duration" where
  [go_defs]: "Sub t u = max min_duration (min max_duration (t - u))"

definition Add :: "time \<Rightarrow> duration \<Rightarrow> time" where
  [go_defs]: "Add t d = t + d"

definition neg_duration :: "duration \<Rightarrow> duration" where
  [go_defs]: "neg_duration d = (if d = min_duration then d else - d)"

definition Millisecond :: duration where
  "Millisecond = 1000000"

definition Second :: duration where
  "Second = 1000 * Millisecond"

definition Minute :: duration where
  "Minute = 60 * Second"

definition Hour :: duration where
  "Hour = 60 * Minute"

lemmas duration_units = Millisecond_def Second_def Minute_def Hour_def
  max_duration_def min_duration_def

text \<open>
  Milliseconds since the Unix epoch, which is 62135596800 seconds after the zero time;
  Go keeps the sub-second part non-negative, so the division rounds down.
\<close>

definition UnixMilli :: "time \<Rightarrow> int" where
  "UnixMilli t = t div Millisecond - 62135596800000"

lemma Sub_bounds: "min_duration \<le> Sub t u" "Sub t u \<le> max_duration"
  by (simp_all add: Sub_def min_duration_def max_duration_def)

lemma Sub_gt_iff: "\<lbrakk>0 \<le> d; d < max_duration\<rbrakk> \<Longrightarrow> d < Sub t u \<longleftrightarrow> d < t - u"
  by (auto simp: Sub_def min_duration_def max_duration_def)

lemma UnixMilli_mono: "t \<le> u \<Longrightarrow> UnixMilli t \<le> UnixMilli u"
  by (simp add: UnixMilli_def Millisecond_def zdiv_mono1)

section \<open>Slices\<close>

text \<open>\<open>xs[len(xs)-n:]\<close> for \<open>n \<le> len(xs)\<close>.\<close>

definition slice_tail :: "int \<Rightarrow> 'a list \<Rightarrow> 'a list" where
  "slice_tail n xs = drop (length xs - nat n) xs"

lemma length_slice_tail: "length (slice_tail n xs) = min (length xs) (nat n)"
  by (simp add: slice_tail_def min_def)

lemma set_slice_tail: "set (slice_tail n xs) \<subseteq> set xs"
  by (simp add: slice_tail_def set_drop_subset)

lemma slice_tail_suffix: "xs = take (length xs - nat n) xs @ slice_tail n xs"
  by (simp add: slice_tail_def)

lemma sorted_slice_tail: "sorted (map f xs) \<Longrightarrow> sorted (map f (slice_tail n xs))"
  by (metis drop_map slice_tail_def sorted_wrt_drop)

section \<open>Unspecified orders\<close>

definition permute :: "sched \<Rightarrow> 'a list \<Rightarrow> 'a list" where
  "permute p xs = (if mset p = mset [0..<length xs] then map (nth xs) p else xs)"

lemma mset_permute [simp]: "mset (permute p xs) = mset xs"
proof (cases "mset p = mset [0..<length xs]")
  case True
  then have "mset (map (nth xs) p) = mset (map (nth xs) [0..<length xs])"
    by (metis mset_map)
  with True show ?thesis by (simp add: permute_def map_nth)
qed (simp add: permute_def)

lemma set_permute [simp]: "set (permute p xs) = set xs"
  by (metis mset_permute set_mset_mset)

lemma length_permute [simp]: "length (permute p xs) = length xs"
  by (metis mset_permute size_mset)

lemma distinct_permute [simp]: "distinct (permute p xs) = distinct xs"
  by (metis mset_eq_imp_distinct_iff mset_permute)

lemma mset_map_permute [simp]: "mset (map f (permute p xs)) = mset (map f xs)"
  by simp

lemma distinct_map_permute [simp]: "distinct (map f (permute p xs)) = distinct (map f xs)"
  by (metis mset_eq_imp_distinct_iff mset_map_permute)

lemma permute_Nil [simp]: "permute p [] = []"
  by (simp add: permute_def)

lemma positions_of_permutation:
  "mset ys = mset xs \<Longrightarrow> \<exists>p. mset p = mset [0..<length xs] \<and> map (nth xs) p = ys"
proof (induction xs arbitrary: ys)
  case Nil
  then show ?case by simp
next
  case (Cons x xs)
  then have "x \<in> set ys" by (metis list.set_intros(1) set_mset_mset)
  then obtain us vs where ys: "ys = us @ x # vs" by (meson split_list)
  with Cons.prems have "mset (us @ vs) = mset xs" by simp
  with Cons.IH obtain q where q: "mset q = mset [0..<length xs]" "map (nth xs) q = us @ vs"
    by blast
  define q1 q2 where "q1 = take (length us) q" and "q2 = drop (length us) q"
  have split: "q = q1 @ q2" by (simp add: q1_def q2_def)
  have parts: "map (nth xs) q1 = us" "map (nth xs) q2 = vs"
    using q(2) by (simp_all add: q1_def q2_def take_map [symmetric] drop_map [symmetric])
  let ?p = "map Suc q1 @ 0 # map Suc q2"
  have "mset (map Suc q) = mset (map Suc [0..<length xs])"
    using q(1) by (metis mset_map)
  then have "mset ?p = mset (0 # map Suc [0..<length xs])"
    by (simp add: split)
  also have "0 # map Suc [0..<length xs] = [0..<length (x # xs)]"
    by (metis length_Cons map_Suc_upt upt_conv_Cons zero_less_Suc)
  finally have "mset ?p = mset [0..<length (x # xs)]" .
  moreover have "map (nth (x # xs)) ?p = ys"
    using parts by (simp add: ys comp_def)
  ultimately show ?case by blast
qed

text \<open>Every reordering is the effect of a schedule.\<close>

lemma permute_complete: "mset ys = mset xs \<Longrightarrow> \<exists>p. permute p xs = ys"
  using positions_of_permutation [of ys xs] by (auto simp: permute_def)

text \<open>A loop whose body commutes with itself does not see the order.\<close>

lemma fold_permute:
  assumes "\<And>x y. \<lbrakk>x \<in> set xs; y \<in> set xs; x \<noteq> y\<rbrakk> \<Longrightarrow> f x \<circ> f y = f y \<circ> f x"
  shows "fold f (permute p xs) = fold f xs"
proof (rule fold_multiset_equiv)
  fix x y
  assume "x \<in> set (permute p xs)" "y \<in> set (permute p xs)"
  then show "f x \<circ> f y = f y \<circ> f x" using assms by (cases "x = y") auto
qed simp

section \<open>Range loops over maps\<close>

definition range_map :: "sched \<Rightarrow> ('k::linorder, 'v) gomap \<Rightarrow> ('k \<times> 'v) list" where
  "range_map p m = permute p (sorted_list_of_fmap m)"

definition len_map :: "('k, 'v) gomap \<Rightarrow> nat" where
  "len_map m = fcard (fmdom m)"

lemma keys_sorted_list_of_fmap: "map fst (sorted_list_of_fmap m) = sorted_list_of_fset (fmdom m)"
  by (simp add: sorted_list_of_fmap_def comp_def)

lemma distinct_range_map: "distinct (map fst (range_map p m))"
  by (simp add: range_map_def keys_sorted_list_of_fmap sorted_list_of_fset.rep_eq)

lemma distinct_range_map' [simp]: "distinct (range_map p m)"
  using distinct_range_map distinct_map by blast

lemma in_range_map [simp]: "(k, v) \<in> set (range_map p m) \<longleftrightarrow> fmlookup m k = Some v"
proof -
  have "distinct (map fst (sorted_list_of_fmap m))"
    by (simp add: keys_sorted_list_of_fmap sorted_list_of_fset.rep_eq)
  then show ?thesis
    by (metis map_of_eq_Some_iff map_of_sorted_list range_map_def set_permute)
qed

lemma values_range_map [simp]: "snd ` set (range_map p m) = ran (fmlookup m)"
proof -
  have "v \<in> snd ` set (range_map p m) \<longleftrightarrow> v \<in> ran (fmlookup m)" for v
    unfolding image_iff Bex_def by (simp add: ran_def split_paired_Ex)
  then show ?thesis by blast
qed

lemma map_of_range_map [simp]: "map_of (range_map p m) = fmlookup m"
proof
  fix k
  show "map_of (range_map p m) k = fmlookup m k"
    using distinct_range_map [of p m] in_range_map [of k _ p m]
    by (metis map_of_eq_Some_iff not_Some_eq)
qed

lemma length_range_map [simp]: "length (range_map p m) = len_map m"
proof -
  have "length (map fst (sorted_list_of_fmap m)) = fcard (fmdom m)"
    unfolding keys_sorted_list_of_fmap
    by (simp add: sorted_list_of_fset.rep_eq fcard.rep_eq)
  then show ?thesis by (simp add: range_map_def len_map_def)
qed

lemma mset_range_map: "mset (range_map p m) = mset (sorted_list_of_fmap m)"
  by (simp add: range_map_def)

lemma len_map_0 [simp]: "len_map m = 0 \<longleftrightarrow> m = fmempty"
proof
  assume "len_map m = 0"
  then have "fmdom m = {||}" by (simp add: len_map_def)
  then show "m = fmempty" by (metis fmdom_empty fmrestrict_fset_dom fmrestrict_fset_null)
qed (simp add: len_map_def)

lemma range_map_empty [simp]: "range_map p fmempty = []"
  by (metis len_map_0 length_0_conv length_range_map)

section \<open>sort.Slice\<close>

definition sort_Slice :: "sched \<Rightarrow> ('a \<Rightarrow> 'k::linorder) \<Rightarrow> 'a list \<Rightarrow> 'a list" where
  "sort_Slice p key xs = sort_key key (permute p xs)"

lemma mset_sort_Slice [simp]: "mset (sort_Slice p key xs) = mset xs"
  by (simp add: sort_Slice_def)

lemma set_sort_Slice [simp]: "set (sort_Slice p key xs) = set xs"
  by (metis mset_sort_Slice set_mset_mset)

lemma length_sort_Slice [simp]: "length (sort_Slice p key xs) = length xs"
  by (metis mset_sort_Slice size_mset)

lemma sorted_sort_Slice [simp]: "sorted (map key (sort_Slice p key xs))"
  by (simp add: sort_Slice_def)

lemma distinct_map_sort_Slice [simp]:
  "distinct (map f (sort_Slice p key xs)) = distinct (map f xs)"
  by (metis mset_eq_imp_distinct_iff mset_map mset_sort_Slice)

text \<open>The schedules give exactly the sorted permutations, as the documentation promises.\<close>

lemma sort_Slice_complete:
  assumes "mset ys = mset xs" "sorted (map key ys)"
  shows "\<exists>p. sort_Slice p key xs = ys"
proof -
  from permute_complete [OF assms(1)] obtain p where "permute p xs = ys" by blast
  then have "sort_Slice p key xs = sort_key key ys" by (simp add: sort_Slice_def)
  also have "\<dots> = ys" using assms(2) by (simp add: sort_key_id_if_sorted)
  finally show ?thesis by blast
qed

lemma sort_Slice_results:
  "{sort_Slice p key xs |p. True} = {ys. mset ys = mset xs \<and> sorted (map key ys)}"
  using sort_Slice_complete by fastforce

end
