(* ===== verification/Float64.thy ===== *)
theory Float64
  imports Go_Base "HOL-Library.Log_Nat"
begin

text \<open>
  Go's \<open>float64\<close>: IEEE 754 binary64 with round to nearest, ties to even. A finite number
  is kept as its exact rational value; \<open>Fin 0\<close> is the positive zero. Comparisons are exact,
  an arithmetic operation computes the exact rational result and rounds it to 53 significant
  bits (with gradual underflow below \<open>2^-1022\<close> and overflow to an infinity at \<open>2^1024\<close>).
  The operations are the ones the program uses: the five comparisons, addition, division
  and the conversion from \<open>int\<close>.
\<close>

datatype float64 = NaN | PInf | NInf | NZero | Fin rat

instantiation float64 :: zero
begin

definition zero_float64 :: float64 where
  "zero_float64 = Fin 0"

instance ..

end

section \<open>Comparison\<close>

fun is_nan :: "float64 \<Rightarrow> bool" where
  "is_nan NaN = True"
| "is_nan _ = False"

fun fval :: "float64 \<Rightarrow> rat" where
  "fval (Fin q) = q"
| "fval _ = 0"

fun flt :: "float64 \<Rightarrow> float64 \<Rightarrow> bool" where
  "flt NaN _ = False"
| "flt _ NaN = False"
| "flt x NInf = False"
| "flt NInf _ = True"
| "flt PInf _ = False"
| "flt _ PInf = True"
| "flt x y = (fval x < fval y)"

definition fgt :: "float64 \<Rightarrow> float64 \<Rightarrow> bool" where
  "fgt x y = flt y x"

definition fle :: "float64 \<Rightarrow> float64 \<Rightarrow> bool" where
  "fle x y \<longleftrightarrow> \<not> is_nan x \<and> \<not> is_nan y \<and> \<not> flt y x"

definition fge :: "float64 \<Rightarrow> float64 \<Rightarrow> bool" where
  "fge x y = fle y x"

definition feq :: "float64 \<Rightarrow> float64 \<Rightarrow> bool" where
  "feq x y \<longleftrightarrow> fle x y \<and> fle y x"

lemma flt_nan [simp]: "\<not> flt x NaN" "\<not> flt NaN x"
  by (cases x; simp)+

lemma flt_irrefl [simp]: "\<not> flt x x"
  by (cases x) auto

lemma flt_trans: "\<lbrakk>flt x y; flt y z\<rbrakk> \<Longrightarrow> flt x z"
  by (cases x; cases y; cases z) auto

lemma flt_asym: "flt x y \<Longrightarrow> \<not> flt y x"
  using flt_trans flt_irrefl by blast

lemma fle_refl: "\<not> is_nan x \<Longrightarrow> fle x x"
  by (simp add: fle_def)

lemma fle_trans: "\<lbrakk>fle x y; fle y z\<rbrakk> \<Longrightarrow> fle x z"
  by (cases x; cases y; cases z) (auto simp: fle_def)

lemma fle_total: "\<lbrakk>\<not> is_nan x; \<not> is_nan y\<rbrakk> \<Longrightarrow> fle x y \<or> fle y x"
  using flt_asym by (auto simp: fle_def)

lemma flt_imp_fle: "flt x y \<Longrightarrow> fle x y"
  by (cases x; cases y) (auto simp: fle_def)

lemma not_flt_fle: "\<lbrakk>\<not> is_nan x; \<not> is_nan y; \<not> flt x y\<rbrakk> \<Longrightarrow> fle y x"
  by (simp add: fle_def)

lemma feq_Fin [simp]: "feq (Fin p) (Fin q) \<longleftrightarrow> p = q"
  by (auto simp: feq_def fle_def)

section \<open>Rounding\<close>

definition pow2 :: "int \<Rightarrow> rat" where
  "pow2 e = (if 0 \<le> e then 2 ^ nat e else 1 / 2 ^ nat (- e))"

definition floor_log2 :: "rat \<Rightarrow> int" where
  "floor_log2 q = (let (n, d) = quotient_of q; e = bitlen n - bitlen d
                   in if pow2 e \<le> q then e else e - 1)"

definition round_half_even :: "rat \<Rightarrow> int" where
  "round_half_even q = (let f = \<lfloor>q\<rfloor>; r = q - of_int f
     in if r < 1 / 2 then f else if 1 / 2 < r then f + 1 else if even f then f else f + 1)"

definition signed_zero :: "bool \<Rightarrow> float64" where
  "signed_zero neg = (if neg then NZero else Fin 0)"

definition signed_inf :: "bool \<Rightarrow> float64" where
  "signed_inf neg = (if neg then NInf else PInf)"

text \<open>\<open>rnd q\<close> for a non-zero exact result \<open>q\<close>.\<close>

definition rnd :: "rat \<Rightarrow> float64" where
  "rnd q = (let a = \<bar>q\<bar>; e = max (floor_log2 a - 52) (- 1074);
                m = round_half_even (a / pow2 e); v = of_int m * pow2 e
            in if m = 0 then signed_zero (q < 0)
               else if pow2 1024 \<le> v then signed_inf (q < 0)
               else Fin (if q < 0 then - v else v))"

section \<open>Arithmetic\<close>

fun is_neg :: "float64 \<Rightarrow> bool" where
  "is_neg NInf = True"
| "is_neg NZero = True"
| "is_neg (Fin q) = (q < 0)"
| "is_neg _ = False"

fun fadd :: "float64 \<Rightarrow> float64 \<Rightarrow> float64" where
  "fadd NaN _ = NaN"
| "fadd _ NaN = NaN"
| "fadd PInf NInf = NaN"
| "fadd NInf PInf = NaN"
| "fadd PInf _ = PInf"
| "fadd _ PInf = PInf"
| "fadd NInf _ = NInf"
| "fadd _ NInf = NInf"
| "fadd NZero NZero = NZero"
| "fadd x y = (let s = fval x + fval y in if s = 0 then Fin 0 else rnd s)"

fun fdiv :: "float64 \<Rightarrow> float64 \<Rightarrow> float64" where
  "fdiv NaN _ = NaN"
| "fdiv _ NaN = NaN"
| "fdiv PInf y = (case y of PInf \<Rightarrow> NaN | NInf \<Rightarrow> NaN | _ \<Rightarrow> signed_inf (is_neg y))"
| "fdiv NInf y = (case y of PInf \<Rightarrow> NaN | NInf \<Rightarrow> NaN | _ \<Rightarrow> signed_inf (\<not> is_neg y))"
| "fdiv x PInf = signed_zero (is_neg x)"
| "fdiv x NInf = signed_zero (\<not> is_neg x)"
| "fdiv x y =
     (if fval y = 0
      then if fval x = 0 then NaN else signed_inf (is_neg x \<noteq> is_neg y)
      else if fval x = 0 then signed_zero (is_neg x \<noteq> is_neg y)
      else rnd (fval x / fval y))"

definition float64_of_int :: "int \<Rightarrow> float64" where
  "float64_of_int n = (if n = 0 then Fin 0 else rnd (of_int n))"

section \<open>Integers up to two to the 53 are exact\<close>

lemma pow2_pos: "0 < pow2 e"
  by (simp add: pow2_def)

lemma round_half_even_of_int [simp]: "round_half_even (of_int n) = n"
  by (simp add: round_half_even_def)

lemma bitlen_1: "bitlen 1 = 1"
  by (simp add: bitlen_alt_def)

lemma floor_log2_of_int:
  assumes "0 < n"
  shows "floor_log2 (of_int n) = bitlen n - 1"
proof -
  have "2 ^ nat (bitlen n - 1) \<le> n" using bitlen_bounds [OF assms] by simp
  moreover have "0 \<le> bitlen n - 1" using assms bitlen_nonneg [of n] bitlen_eq_zero_iff [of n] by linarith
  ultimately have "pow2 (bitlen n - 1) \<le> of_int n"
    by (simp add: pow2_def)
  then show ?thesis by (simp add: floor_log2_def bitlen_1)
qed

lemma bitlen_le: "\<lbrakk>0 < n; n < 2 ^ k\<rbrakk> \<Longrightarrow> bitlen n \<le> int k"
proof (rule ccontr)
  assume *: "0 < n" "n < 2 ^ k" "\<not> bitlen n \<le> int k"
  then have "(2::int) ^ k \<le> 2 ^ nat (bitlen n - 1)" by (intro power_increasing) auto
  also have "\<dots> \<le> n" using bitlen_bounds [OF *(1)] by simp
  finally show False using *(2) by simp
qed

lemma rnd_scaled:
  assumes "0 < n" "n < 2 ^ 53"
  shows "rnd (of_int n) = Fin (of_int n)"
proof -
  let ?e = "max (floor_log2 (of_int n) - 52) (- 1074)"
  have fl: "floor_log2 (of_int n) = bitlen n - 1" by (rule floor_log2_of_int [OF assms(1)])
  have "bitlen n \<le> 53" using bitlen_le [OF assms] by simp
  with fl have e: "?e \<le> 0" by simp
  have scaled: "of_int n / pow2 ?e = of_int (n * 2 ^ nat (- ?e))"
    using e by (cases "?e = 0") (simp_all add: pow2_def)
  have unscaled: "of_int (n * 2 ^ nat (- ?e)) * pow2 ?e = (of_int n :: rat)"
    unfolding scaled [symmetric] using pow2_pos [of ?e] by simp
  have "(of_int n :: rat) < of_int (2 ^ 53)" using assms(2) by (simp only: of_int_less_iff)
  also have "of_int (2 ^ 53) \<le> pow2 1024" by (simp add: pow2_def)
  finally have small: "\<not> pow2 1024 \<le> (of_int n :: rat)" by simp
  show ?thesis
    unfolding rnd_def Let_def using assms(1) small
    by (simp only: abs_of_pos of_int_0_less_iff scaled round_half_even_of_int unscaled) simp
qed

lemma rnd_minus: "\<lbrakk>0 < q; rnd q = Fin v; v \<noteq> 0\<rbrakk> \<Longrightarrow> rnd (- q) = Fin (- v)"
  by (auto simp: rnd_def Let_def signed_zero_def signed_inf_def split: if_splits)

lemma rnd_of_int:
  assumes "n \<noteq> 0" "\<bar>n\<bar> < 2 ^ 53"
  shows "rnd (of_int n) = Fin (of_int n)"
proof (cases "0 < n")
  case True
  with assms rnd_scaled show ?thesis by simp
next
  case False
  with assms have "rnd (of_int (- n)) = Fin (of_int (- n))" by (intro rnd_scaled) auto
  with rnd_minus [of "of_int (- n)"] assms(1) False show ?thesis by simp
qed

text \<open>Sums of whole numbers are exact as long as they stay below \<open>2^53\<close> in size.\<close>

lemma fadd_of_int:
  "\<bar>a + b\<bar> < 2 ^ 53 \<Longrightarrow> fadd (Fin (of_int a)) (Fin (of_int b)) = Fin (of_int (a + b))"
  using rnd_of_int [of "a + b"] by (auto simp: Let_def)

lemma float64_of_int_exact: "\<bar>n\<bar> < 2 ^ 53 \<Longrightarrow> float64_of_int n = Fin (of_int n)"
  by (simp add: float64_of_int_def rnd_of_int)

section \<open>Powers of two and overflow\<close>

lemma rnd_pow2:
  assumes "52 \<le> n"
  shows "rnd (2 ^ n) = (if 1024 \<le> n then PInf else Fin (2 ^ n))"
proof -
  have "bitlen (1 * 2 ^ n) = bitlen 1 + int n" by (rule bitlen_pow2) simp
  then have "floor_log2 (of_int (2 ^ n)) = int n"
    by (subst floor_log2_of_int) (simp_all add: bitlen_1)
  with assms have e: "max (floor_log2 (2 ^ n) - 52) (- 1074) = int (n - 52)" by simp
  have scale: "(2::rat) ^ n = 2 ^ 52 * 2 ^ (n - 52)"
    using assms by (simp only: power_add [symmetric]) simp
  have "(2::rat) ^ n / pow2 (int (n - 52)) = of_int (2 ^ 52)"
    unfolding scale by (simp add: pow2_def)
  then have m: "round_half_even ((2::rat) ^ n / pow2 (int (n - 52))) = 2 ^ 52"
    by (simp only: round_half_even_of_int)
  have v: "of_int (2 ^ 52) * pow2 (int (n - 52)) = (2::rat) ^ n"
    unfolding scale by (simp add: pow2_def)
  have big: "pow2 1024 \<le> (2::rat) ^ n \<longleftrightarrow> 1024 \<le> n"
    by (simp add: pow2_def power_increasing_iff del: power_numeral)
  show ?thesis
    unfolding rnd_def Let_def
    by (simp only: abs_of_pos zero_less_power zero_less_numeral e m v big) (simp add: signed_inf_def)
qed

end
