(* ===== verification/Models.thy ===== *)
theory Models
  imports Float64
begin

text \<open>
  The domain entities of \<open>internal/models\<close>. A Go struct is a record whose fields carry a
  short prefix, since several structs share field names; a nil map is the empty map. Struct
  tags decide the JSON form only and are modelled with the HTTP interface; the MongoDB store has
  document structs of its own.
\<close>

type_synonym DeviceStatus = string
type_synonym AlertSeverity = string
type_synonym metadata = "(string, string) gomap"
type_synonym metrics = "(string, float64) gomap"

definition StatusOnline :: DeviceStatus where
  "StatusOnline = ''online''"

definition StatusOffline :: DeviceStatus where
  "StatusOffline = ''offline''"

definition StatusDegraded :: DeviceStatus where
  "StatusDegraded = ''degraded''"

definition StatusUnknown :: DeviceStatus where
  "StatusUnknown = ''unknown''"

lemmas status_defs = StatusOnline_def StatusOffline_def StatusDegraded_def StatusUnknown_def

record Device =
  dev_ID :: string
  dev_Name :: string
  dev_Type :: string
  dev_Location :: string
  dev_Metadata :: metadata
  dev_Status :: DeviceStatus
  dev_RegisteredAt :: time
  dev_LastSeenAt :: time

record RegisterDeviceRequest =
  reg_Name :: string
  reg_Type :: string
  reg_Location :: string
  reg_Metadata :: metadata

record UpdateDeviceRequest =
  upd_Name :: string
  upd_Type :: string
  upd_Location :: string
  upd_Metadata :: metadata

record Telemetry =
  tel_DeviceID :: string
  tel_Timestamp :: time
  tel_Metrics :: metrics

definition SeverityInfo :: AlertSeverity where
  "SeverityInfo = ''info''"

definition SeverityWarning :: AlertSeverity where
  "SeverityWarning = ''warning''"

definition SeverityCritical :: AlertSeverity where
  "SeverityCritical = ''critical''"

record Alert =
  al_ID :: string
  al_DeviceID :: string
  al_Metric :: string
  al_Value :: float64
  al_Threshold :: float64
  al_Severity :: AlertSeverity
  al_Message :: string
  al_CreatedAt :: time

record AlertRule =
  rule_Metric :: string
  rule_Operator :: string
  rule_Threshold :: float64
  rule_Severity :: AlertSeverity

record MetricStats =
  ms_Metric :: string
  ms_Count :: int
  ms_Min :: float64
  ms_Max :: float64
  ms_Avg :: float64
  ms_Sum :: float64
  ms_Last :: float64

text \<open>
  The payload of an event is an \<open>interface{}\<close>; these are the values the program puts there. The
  last case is a payload decoded from JSON, where \<open>encoding/json\<close> builds a generic value.
\<close>

datatype any_value =
    ANil
  | ABool bool
  | AFloat float64
  | AString string
  | ASlice "any_value list"
  | AMap "(string, any_value) gomap"

datatype payload =
    PDevice Device
  | PTelemetry Telemetry
  | PAlert Alert
  | PFields "(string, string) gomap"
  | PAny any_value

record Event =
  ev_Type :: string
  ev_DeviceID :: string
  ev_Payload :: payload
  ev_Timestamp :: time

definition RoleAdmin :: string where
  "RoleAdmin = ''admin''"

definition RoleViewer :: string where
  "RoleViewer = ''viewer''"

record User =
  usr_ID :: string
  usr_Username :: string
  usr_PasswordHash :: string
  usr_Roles :: "string list"
  usr_CreatedAt :: time

record RefreshToken =
  rt_TokenHash :: string
  rt_UserID :: string
  rt_ExpiresAt :: time
  rt_CreatedAt :: time

end
