(* ===== verification/Analytics.thy ===== *)
theory Analytics
  imports Models
begin

text \<open>
  Aggregation over telemetry, \<open>internal/analytics/analytics.go\<close>. The inner loop ranges over
  the metrics map of a point: \<open>sch i\<close> is the iteration order for the \<open>i\<close>-th point and \<open>q\<close>
  the one of the final loop over the accumulator.
\<close>

section \<open>The code\<close>

definition add_value :: "string \<times> float64 \<Rightarrow> (string, MetricStats) gomap \<Rightarrow> (string, MetricStats) gomap" where
  "add_value kv acc = (case kv of (metric, value) \<Rightarrow>
     let s0 = (case fmlookup acc metric of
                 Some s \<Rightarrow> s
               | None \<Rightarrow> \<lparr>ms_Metric = metric, ms_Count = 0, ms_Min = value, ms_Max = value,
                          ms_Avg = 0, ms_Sum = 0, ms_Last = 0\<rparr>);
         s1 = s0\<lparr>ms_Count := ms_Count s0 + 1, ms_Sum := fadd (ms_Sum s0) value,
                ms_Last := value\<rparr>;
         s2 = (if flt value (ms_Min s1) then s1\<lparr>ms_Min := value\<rparr> else s1);
         s3 = (if fgt value (ms_Max s2) then s2\<lparr>ms_Max := value\<rparr> else s2)
     in fmupd metric s3 acc)"

fun aggregate_points :: "(nat \<Rightarrow> sched) \<Rightarrow> nat \<Rightarrow> Telemetry list
    \<Rightarrow> (string, MetricStats) gomap \<Rightarrow> (string, MetricStats) gomap" where
  "aggregate_points sch i [] acc = acc"
| "aggregate_points sch i (p # points) acc =
     aggregate_points sch (Suc i) points (fold add_value (range_map (sch i) (tel_Metrics p)) acc)"

definition set_avg :: "MetricStats \<Rightarrow> MetricStats" where
  "set_avg s = (if 0 < ms_Count s
     then s\<lparr>ms_Avg := fdiv (ms_Sum s) (float64_of_int (ms_Count s))\<rparr> else s)"

definition Aggregate :: "(nat \<Rightarrow> sched) \<Rightarrow> sched \<Rightarrow> Telemetry list \<Rightarrow> (string, MetricStats) gomap" where
  "Aggregate sch q points =
     (let acc = aggregate_points sch 0 points fmempty
      in fold (\<lambda>(metric, s) out. fmupd metric (set_avg s) out) (range_map q acc) fmempty)"

record Point =
  pt_Timestamp :: int
  pt_Value :: float64

definition TimeSeries :: "sched \<Rightarrow> Telemetry list \<Rightarrow> string \<Rightarrow> Point list" where
  "TimeSeries q points metric = sort_Slice q pt_Timestamp
     (List.map_filter (\<lambda>p. case fmlookup (tel_Metrics p) metric of
        Some v \<Rightarrow> Some \<lparr>pt_Timestamp = UnixMilli (tel_Timestamp p), pt_Value = v\<rparr>
      | None \<Rightarrow> None) points)"

section \<open>The reference\<close>

text \<open>The values a metric takes in the window, and their statistics.\<close>

definition metric_values :: "string \<Rightarrow> Telemetry list \<Rightarrow> float64 list" where
  "metric_values m points = List.map_filter (\<lambda>p. fmlookup (tel_Metrics p) m) points"

definition fmin :: "float64 \<Rightarrow> float64 \<Rightarrow> float64" where
  "fmin acc v = (if flt v acc then v else acc)"

definition fmax :: "float64 \<Rightarrow> float64 \<Rightarrow> float64" where
  "fmax acc v = (if flt acc v then v else acc)"

definition stats_of :: "string \<Rightarrow> float64 list \<Rightarrow> MetricStats" where
  "stats_of m vs = \<lparr>ms_Metric = m, ms_Count = int (length vs),
     ms_Min = foldl fmin (hd vs) vs, ms_Max = foldl fmax (hd vs) vs, ms_Avg = 0,
     ms_Sum = foldl fadd 0 vs, ms_Last = last vs\<rparr>"

definition stats_map :: "float64 list \<Rightarrow> string \<Rightarrow> MetricStats option" where
  "stats_map vs m = (if vs = [] then None else Some (stats_of m vs))"

lemma metric_values_Nil [simp]: "metric_values m [] = []"
  by (simp add: metric_values_def)

lemma metric_values_snoc:
  "metric_values m (ps @ [p]) = metric_values m ps @
     (case fmlookup (tel_Metrics p) m of None \<Rightarrow> [] | Some v \<Rightarrow> [v])"
  by (induction ps) (simp_all add: metric_values_def map_filter_simps split: option.splits)

lemma lookup_add_value_other: "m \<noteq> fst kv \<Longrightarrow> fmlookup (add_value kv acc) m = fmlookup acc m"
  by (cases kv) (simp add: add_value_def Let_def)

lemma lookup_add_value_same:
  assumes "fmlookup acc m = stats_map vs m"
  shows "fmlookup (add_value (m, v) acc) m = stats_map (vs @ [v]) m"
proof (cases "vs = []")
  case True
  with assms show ?thesis
    by (simp add: add_value_def stats_map_def stats_of_def fmin_def fmax_def fgt_def Let_def)
next
  case False
  with assms show ?thesis
    by (simp add: add_value_def stats_map_def stats_of_def fmin_def fmax_def fgt_def Let_def)
qed

text \<open>One point adds its value of the metric once, whatever the order of the inner loop.\<close>

lemma lookup_fold_add_value:
  assumes "distinct (map fst kvs)" "fmlookup acc m = stats_map vs m"
  shows "fmlookup (fold add_value kvs acc) m =
    stats_map (vs @ (case map_of kvs m of None \<Rightarrow> [] | Some v \<Rightarrow> [v])) m"
  using assms
proof (induction kvs arbitrary: acc vs)
  case Nil
  then show ?case by simp
next
  case (Cons kv kvs)
  obtain k v where kv: "kv = (k, v)" by (cases kv)
  show ?case
  proof (cases "k = m")
    case True
    with Cons.prems kv have "map_of kvs m = None" by (simp add: map_of_eq_None_iff)
    with Cons.IH [of "add_value kv acc" "vs @ [v]"] Cons.prems True kv lookup_add_value_same
    show ?thesis by simp
  next
    case False
    with Cons.IH [of "add_value kv acc" vs] Cons.prems kv lookup_add_value_other [of m kv acc]
    show ?thesis by simp
  qed
qed

lemma lookup_aggregate_points:
  "fmlookup acc m = stats_map (metric_values m done) m \<Longrightarrow>
   fmlookup (aggregate_points sch i points acc) m = stats_map (metric_values m (done @ points)) m"
proof (induction points arbitrary: i acc "done")
  case Nil
  then show ?case by simp
next
  case (Cons p points)
  from lookup_fold_add_value [OF distinct_range_map Cons.prems]
  have "fmlookup (fold add_value (range_map (sch i) (tel_Metrics p)) acc) m =
      stats_map (metric_values m (done @ [p])) m"
    by (simp add: metric_values_snoc)
  from Cons.IH [OF this] show ?case by simp
qed

lemma fold_fmupd_lookup:
  "distinct (map fst kvs) \<Longrightarrow>
   fmlookup (fold (\<lambda>(k, s) out. fmupd k (f s) out) kvs out) m =
     (case map_of kvs m of Some s \<Rightarrow> Some (f s) | None \<Rightarrow> fmlookup out m)"
  by (induction kvs arbitrary: out) (auto split: option.splits simp: map_of_eq_None_iff rev_image_eqI)

lemma Aggregate_lookup:
  "fmlookup (Aggregate sch q points) m =
     map_option set_avg (stats_map (metric_values m points) m)"
  using lookup_aggregate_points [of fmempty m "[]" sch 0 points]
    fold_fmupd_lookup [OF distinct_range_map, of set_avg q
      "aggregate_points sch 0 points fmempty" fmempty m]
  by (simp add: Aggregate_def stats_map_def split: option.splits)

section \<open>Correctness of Aggregate\<close>

text \<open>
  C23: \<open>Aggregate\<close> computes, for every metric that occurs in the window and for no other, the
  number of its values, their running minimum and maximum, their sum in the order of the
  points, their mean and the last value, whatever order Go's map iteration takes.
\<close>

theorem aggregate_reference:
  "fmlookup (Aggregate sch q points) m =
    (let vs = metric_values m points in
     if vs = [] then None
     else Some \<lparr>ms_Metric = m, ms_Count = int (length vs),
       ms_Min = foldl fmin (hd vs) vs, ms_Max = foldl fmax (hd vs) vs,
       ms_Avg = fdiv (foldl fadd 0 vs) (float64_of_int (int (length vs))),
       ms_Sum = foldl fadd 0 vs, ms_Last = last vs\<rparr>)"
  by (simp add: Aggregate_lookup stats_map_def stats_of_def set_avg_def Let_def)

lemma foldl_fmin_bound:
  "\<lbrakk>\<not> is_nan a; \<forall>v \<in> set vs. \<not> is_nan v\<rbrakk>
    \<Longrightarrow> foldl fmin a vs \<in> insert a (set vs) \<and> (\<forall>v \<in> insert a (set vs). fle (foldl fmin a vs) v)"
proof (induction vs arbitrary: a)
  case Nil
  then show ?case by (simp add: fle_refl)
next
  case (Cons x vs)
  have le: "fle (fmin a x) a \<and> fle (fmin a x) x \<and> fmin a x \<in> {a, x}"
    using Cons.prems flt_imp_fle not_flt_fle fle_refl by (auto simp: fmin_def)
  have nan: "\<not> is_nan (fmin a x)" using Cons.prems by (simp add: fmin_def)
  let ?r = "foldl fmin (fmin a x) vs"
  have r: "?r \<in> insert (fmin a x) (set vs)" "fle ?r (fmin a x)" "\<forall>v \<in> set vs. fle ?r v"
    using Cons.IH [OF nan] Cons.prems(2) by simp_all
  from r(2) le have "fle ?r a" "fle ?r x" by (blast intro: fle_trans)+
  with r le show ?case by auto
qed

lemma foldl_fmax_bound:
  "\<lbrakk>\<not> is_nan a; \<forall>v \<in> set vs. \<not> is_nan v\<rbrakk>
    \<Longrightarrow> foldl fmax a vs \<in> insert a (set vs) \<and> (\<forall>v \<in> insert a (set vs). fle v (foldl fmax a vs))"
proof (induction vs arbitrary: a)
  case Nil
  then show ?case by (simp add: fle_refl)
next
  case (Cons x vs)
  have le: "fle a (fmax a x) \<and> fle x (fmax a x) \<and> fmax a x \<in> {a, x}"
    using Cons.prems flt_imp_fle not_flt_fle fle_refl by (auto simp: fmax_def)
  have nan: "\<not> is_nan (fmax a x)" using Cons.prems by (simp add: fmax_def)
  let ?r = "foldl fmax (fmax a x) vs"
  have r: "?r \<in> insert (fmax a x) (set vs)" "fle (fmax a x) ?r" "\<forall>v \<in> set vs. fle v ?r"
    using Cons.IH [OF nan] Cons.prems(2) by simp_all
  from r(2) le have "fle a ?r" "fle x ?r" by (blast intro: fle_trans)+
  with r le show ?case by auto
qed

text \<open>
  For values none of which is NaN, \<open>Min\<close> and \<open>Max\<close> are values of the metric in the
  window and bound all of them.
\<close>

theorem aggregate_min_max:
  assumes "fmlookup (Aggregate sch q points) m = Some s"
    and "\<forall>v \<in> set (metric_values m points). \<not> is_nan v"
  shows "ms_Min s \<in> set (metric_values m points) \<and> ms_Max s \<in> set (metric_values m points)
    \<and> (\<forall>v \<in> set (metric_values m points). fle (ms_Min s) v \<and> fle v (ms_Max s))"
proof -
  let ?vs = "metric_values m points"
  from assms(1) have ne: "?vs \<noteq> []"
    and s: "ms_Min s = foldl fmin (hd ?vs) ?vs" "ms_Max s = foldl fmax (hd ?vs) ?vs"
    by (auto simp: Aggregate_lookup stats_map_def stats_of_def set_avg_def split: if_splits)
  from ne have hd: "hd ?vs \<in> set ?vs" by simp
  with assms(2) have "\<not> is_nan (hd ?vs)" by blast
  with foldl_fmin_bound [of "hd ?vs" ?vs] foldl_fmax_bound [of "hd ?vs" ?vs] assms(2) hd
  show ?thesis by (auto simp: s insert_absorb)
qed

definition sample_window :: "Telemetry list" where
  "sample_window =
     [\<lparr>tel_DeviceID = ''d1'', tel_Timestamp = 3000000,
       tel_Metrics = fmupd ''battery'' (Fin 42) (fmupd ''temperature'' (Fin 85) fmempty)\<rparr>,
      \<lparr>tel_DeviceID = ''d1'', tel_Timestamp = 2000000,
       tel_Metrics = fmupd ''temperature'' (Fin 75) fmempty\<rparr>]"

lemma sample_window_values: "metric_values ''temperature'' sample_window = [Fin 85, Fin 75]"
  by (simp add: metric_values_def sample_window_def map_filter_simps)

theorem aggregate_min_max_witness:
  "\<exists>s. fmlookup (Aggregate (\<lambda>_. [1, 0]) [] sample_window) ''temperature'' = Some s
     \<and> fle (ms_Min s) (Fin 75) \<and> fle (Fin 85) (ms_Max s)"
proof -
  obtain s where s: "fmlookup (Aggregate (\<lambda>_. [1, 0]) [] sample_window) ''temperature'' = Some s"
    by (auto simp: Aggregate_lookup stats_map_def sample_window_values)
  from aggregate_min_max [OF s] show ?thesis using s by (simp add: sample_window_values)
qed

text \<open>
  C37: Sums of whole-number readings are exact: as long as every running total stays below
  \<open>2^53\<close> in absolute value, the reported sum is the mathematical sum.
\<close>

fun running_below :: "int \<Rightarrow> int list \<Rightarrow> bool" where
  "running_below acc [] = True"
| "running_below acc (n # ns) = (\<bar>acc + n\<bar> < 2 ^ 53 \<and> running_below (acc + n) ns)"

lemma foldl_fadd_exact:
  "running_below acc ns \<Longrightarrow>
   foldl fadd (Fin (of_int acc)) (map (\<lambda>n. Fin (of_int n)) ns) = Fin (of_int (acc + sum_list ns))"
proof (induction ns arbitrary: acc)
  case Nil
  then show ?case by simp
next
  case (Cons n ns)
  then have "fadd (Fin (of_int acc)) (Fin (of_int n)) = Fin (of_int (acc + n))"
    by (intro fadd_of_int) simp
  with Cons show ?case by (simp del: fadd.simps of_int_add add: add.assoc)
qed

theorem aggregate_sum_exact:
  assumes "metric_values m points = map (\<lambda>n. Fin (of_int n)) ns" "ns \<noteq> []" "running_below 0 ns"
  shows "map_option ms_Sum (fmlookup (Aggregate sch q points) m) = Some (Fin (of_int (sum_list ns)))"
  using foldl_fadd_exact [OF assms(3)] assms(1,2)
  by (simp add: Aggregate_lookup stats_map_def stats_of_def set_avg_def zero_float64_def)

theorem aggregate_sum_exact_witness:
  "map_option ms_Sum (fmlookup (Aggregate (\<lambda>_. []) [] sample_window) ''temperature'')
     = Some (Fin 160)"
  using aggregate_sum_exact [of "''temperature''" sample_window "[85, 75]" "\<lambda>_. []" "[]"]
  by (simp add: sample_window_values)

section \<open>Correctness of TimeSeries\<close>

definition series_points :: "Telemetry list \<Rightarrow> string \<Rightarrow> Point list" where
  "series_points points m =
     map (\<lambda>p. \<lparr>pt_Timestamp = UnixMilli (tel_Timestamp p),
               pt_Value = the (fmlookup (tel_Metrics p) m)\<rparr>)
       (filter (\<lambda>p. fmlookup (tel_Metrics p) m \<noteq> None) points)"

lemma TimeSeries_eq: "TimeSeries q points m = sort_Slice q pt_Timestamp (series_points points m)"
proof -
  have "List.map_filter (\<lambda>p. case fmlookup (tel_Metrics p) m of
        Some v \<Rightarrow> Some \<lparr>pt_Timestamp = UnixMilli (tel_Timestamp p), pt_Value = v\<rparr>
      | None \<Rightarrow> None) points = series_points points m"
    by (induction points) (auto simp: series_points_def map_filter_simps split: option.splits)
  then show ?thesis by (simp add: TimeSeries_def)
qed

text \<open>
  The series \<open>TimeSeries\<close> can return are exactly the rearrangements of the metric's
  readings (millisecond timestamp and value, one for each point that carries the metric)
  with ascending timestamps; only readings of the same millisecond may swap.
\<close>

theorem time_series_exact:
  "(\<exists>q. TimeSeries q points m = out) \<longleftrightarrow>
     mset out = mset (series_points points m) \<and> sorted (map pt_Timestamp out)"
proof
  assume "\<exists>q. TimeSeries q points m = out"
  then obtain q where "sort_Slice q pt_Timestamp (series_points points m) = out"
    by (auto simp: TimeSeries_eq)
  then show "mset out = mset (series_points points m) \<and> sorted (map pt_Timestamp out)"
    using mset_sort_Slice sorted_sort_Slice by blast
next
  assume "mset out = mset (series_points points m) \<and> sorted (map pt_Timestamp out)"
  then show "\<exists>q. TimeSeries q points m = out"
    unfolding TimeSeries_eq by (intro sort_Slice_complete) auto
qed

end
