(* ===== verification/Go_Format.thy ===== *)
theory Go_Format
  imports Float64
begin

text \<open>
  The formatting verbs of package \<open>fmt\<close> the program uses: \<open>%.2f\<close> for a \<open>float64\<close> (the
  exact decimal expansion, correctly rounded, ties to even), \<open>%q\<close> for a string and \<open>%s\<close>.
  A Go string is a byte string, here a \<open>string\<close> of 8-bit characters. Which code points above
  ASCII are printable is the content of the Unicode tables in package \<open>strconv\<close>; it is the
  argument \<open>isPrint\<close>.
\<close>

section \<open>Decimal and hexadecimal digits\<close>

definition digit_char :: "nat \<Rightarrow> char" where
  "digit_char n = char_of (48 + n mod 10)"

fun dec_nat :: "nat \<Rightarrow> string" where
  "dec_nat n = (if n < 10 then [digit_char n] else dec_nat (n div 10) @ [digit_char n])"

declare dec_nat.simps [simp del]

definition dec_int :: "int \<Rightarrow> string" where
  "dec_int i = (if i < 0 then ''-'' @ dec_nat (nat (- i)) else dec_nat (nat i))"

definition hex_char :: "nat \<Rightarrow> char" where
  "hex_char n = (if n mod 16 < 10 then char_of (48 + n mod 16) else char_of (87 + n mod 16))"

fun hex_digits :: "nat \<Rightarrow> nat \<Rightarrow> string" where
  "hex_digits 0 n = ''''"
| "hex_digits (Suc k) n = hex_digits k (n div 16) @ [hex_char n]"

lemma length_hex_digits [simp]: "length (hex_digits k n) = k"
  by (induction k arbitrary: n) auto

section \<open>Floating point with two decimals\<close>

definition fmt_cents :: "rat \<Rightarrow> string" where
  "fmt_cents q = (let n = nat (round_half_even (q * 100))
     in dec_nat (n div 100) @ ''.'' @ [digit_char (n div 10), digit_char n])"

fun fmt_2f :: "float64 \<Rightarrow> string" where
  "fmt_2f NaN = ''NaN''"
| "fmt_2f PInf = ''+Inf''"
| "fmt_2f NInf = ''-Inf''"
| "fmt_2f NZero = ''-0.00''"
| "fmt_2f (Fin q) = (if q < 0 then ''-'' @ fmt_cents (- q) else fmt_cents q)"

section \<open>UTF-8 and quoting\<close>

abbreviation byte :: "char \<Rightarrow> nat" where
  "byte c \<equiv> of_char c"

definition cont :: "nat \<Rightarrow> nat \<Rightarrow> char \<Rightarrow> bool" where
  "cont lo hi c \<longleftrightarrow> lo \<le> byte c \<and> byte c \<le> hi"

text \<open>
  \<open>utf8.DecodeRuneInString\<close> on a string that starts with a byte of \<open>0x80\<close> or more: the rune
  and its width, or \<open>None\<close> for an invalid encoding (width 1).
\<close>

definition decode_multibyte :: "string \<Rightarrow> (nat \<times> nat) option" where
  "decode_multibyte s = (case s of
     a # b # rest \<Rightarrow>
       (let x = byte a; lo = (if x = 224 then 160 else if x = 240 then 144 else 128);
            hi = (if x = 237 then 159 else if x = 244 then 143 else 191)
        in if 194 \<le> x \<and> x \<le> 223 \<and> cont lo hi b
           then Some ((x mod 32) * 64 + byte b mod 64, 2)
           else if 224 \<le> x \<and> x \<le> 239 \<and> cont lo hi b
           then (case rest of c # _ \<Rightarrow>
                   if cont 128 191 c
                   then Some (((x mod 16) * 64 + byte b mod 64) * 64 + byte c mod 64, 3) else None
                 | [] \<Rightarrow> None)
           else if 240 \<le> x \<and> x \<le> 244 \<and> cont lo hi b
           then (case rest of c # d # _ \<Rightarrow>
                   if cont 128 191 c \<and> cont 128 191 d
                   then Some ((((x mod 8) * 64 + byte b mod 64) * 64 + byte c mod 64) * 64
                              + byte d mod 64, 4) else None
                 | _ \<Rightarrow> None)
           else None)
   | _ \<Rightarrow> None)"

definition escape_ascii :: "char \<Rightarrow> string" where
  "escape_ascii c = (let x = byte c in
     if x = 34 \<or> x = 92 then [char_of (92::nat), c]
     else if 32 \<le> x \<and> x \<le> 126 then [c]
     else if x = 7 then [char_of (92::nat), CHR ''a'']
     else if x = 8 then [char_of (92::nat), CHR ''b'']
     else if x = 12 then [char_of (92::nat), CHR ''f'']
     else if x = 10 then [char_of (92::nat), CHR ''n'']
     else if x = 13 then [char_of (92::nat), CHR ''r'']
     else if x = 9 then [char_of (92::nat), CHR ''t'']
     else if x = 11 then [char_of (92::nat), CHR ''v'']
     else [char_of (92::nat), CHR ''x''] @ hex_digits 2 x)"

lemma decode_multibyte_width: "decode_multibyte s = Some (r, w) \<Longrightarrow> 2 \<le> w \<and> w \<le> length s"
  by (auto simp: decode_multibyte_def Let_def split: list.splits if_splits)

fun quote_body :: "(nat \<Rightarrow> bool) \<Rightarrow> string \<Rightarrow> string" where
  "quote_body isPrint [] = []"
| "quote_body isPrint (c # cs) =
     (if byte c < 128 then escape_ascii c @ quote_body isPrint cs
      else case decode_multibyte (c # cs) of
        None \<Rightarrow> [char_of (92::nat), CHR ''x''] @ hex_digits 2 (byte c) @ quote_body isPrint cs
      | Some (r, w) \<Rightarrow>
          (if isPrint r then take w (c # cs)
           else if r < 65536 then [char_of (92::nat), CHR ''u''] @ hex_digits 4 r
           else [char_of (92::nat), CHR ''U''] @ hex_digits 8 r)
          @ quote_body isPrint (drop (w - 1) cs))"

definition fmt_q :: "(nat \<Rightarrow> bool) \<Rightarrow> string \<Rightarrow> string" where
  "fmt_q isPrint s = [char_of (34::nat)] @ quote_body isPrint s @ [char_of (34::nat)]"

end
