(* ===== verification/Tokens.thy ===== *)
theory Tokens
  imports Go_Format "HOL-Library.Word"
begin

unbundle bit_operations_syntax

text \<open>
  The opaque refresh tokens of \<open>internal/auth/service.go\<close>: \<open>newOpaqueToken\<close>, 32 random bytes
  in unpadded URL-safe base64, and \<open>hashToken\<close>, the hexadecimal SHA-256 of a token, with the
  parts of \<open>crypto/sha256\<close>, \<open>encoding/hex\<close> and \<open>encoding/base64\<close> they use. The bytes the
  random generator returns are an argument.
\<close>

section \<open>SHA-256\<close>

type_synonym word32 = "32 word"

text \<open>
  The round constants, in decimal: the first 32 bits of the fractional parts of the cube roots
  of the first 64 primes.
\<close>

definition sha_K :: "word32 list" where
  "sha_K = [
    1116352408, 1899447441, 3049323471, 3921009573, 961987163, 1508970993,
    2453635748, 2870763221, 3624381080, 310598401, 607225278, 1426881987,
    1925078388, 2162078206, 2614888103, 3248222580, 3835390401, 4022224774,
    264347078, 604807628, 770255983, 1249150122, 1555081692, 1996064986,
    2554220882, 2821834349, 2952996808, 3210313671, 3336571891, 3584528711,
    113926993, 338241895, 666307205, 773529912, 1294757372, 1396182291,
    1695183700, 1986661051, 2177026350, 2456956037, 2730485921, 2820302411,
    3259730800, 3345764771, 3516065817, 3600352804, 4094571909, 275423344,
    430227734, 506948616, 659060556, 883997877, 958139571, 1322822218,
    1537002063, 1747873779, 1955562222, 2024104815, 2227730452, 2361852424,
    2428436474, 2756734187, 3204031479, 3329325298]"

definition sha_H0 :: "word32 list" where
  "sha_H0 = [0x6a09e667, 0xbb67ae85, 0x3c6ef372, 0xa54ff53a,
             0x510e527f, 0x9b05688c, 0x1f83d9ab, 0x5be0cd19]"

definition rotr :: "nat \<Rightarrow> word32 \<Rightarrow> word32" where
  "rotr n x = (drop_bit n x) OR (push_bit (32 - n) x)"

text \<open>
  The message is followed by a one bit, zero bits up to 56 bytes modulo 64, and its length in
  bits as a big-endian 64-bit number.
\<close>

definition sha_pad :: "nat list \<Rightarrow> nat list" where
  "sha_pad m = m @ [128] @ replicate ((119 - length m mod 64) mod 64) 0
     @ map (\<lambda>i. (8 * length m) div 256 ^ (7 - i) mod 256) [0..<8]"

fun be_word :: "nat list \<Rightarrow> word32" where
  "be_word bs = word_of_nat (foldl (\<lambda>acc b. acc * 256 + b) 0 bs)"

fun chunks :: "nat \<Rightarrow> 'a list \<Rightarrow> 'a list list" where
  "chunks n xs = (if n = 0 \<or> xs = [] then [] else take n xs # chunks n (drop n xs))"

declare chunks.simps [simp del]

text \<open>The message schedule, newest word first.\<close>

fun sha_extend :: "nat \<Rightarrow> word32 list \<Rightarrow> word32 list" where
  "sha_extend 0 w = w"
| "sha_extend (Suc k) w =
     (let x15 = w ! 14; x2 = w ! 1;
          s0 = rotr 7 x15 XOR rotr 18 x15 XOR drop_bit 3 x15;
          s1 = rotr 17 x2 XOR rotr 19 x2 XOR drop_bit 10 x2
      in sha_extend k ((s1 + w ! 6 + s0 + w ! 15) # w))"

definition sha_schedule :: "nat list \<Rightarrow> word32 list" where
  "sha_schedule block = rev (sha_extend 48 (rev (map be_word (chunks 4 block))))"

type_synonym sha_state = "word32 \<times> word32 \<times> word32 \<times> word32 \<times> word32 \<times> word32 \<times> word32 \<times> word32"

fun sha_round :: "word32 \<times> word32 \<Rightarrow> sha_state \<Rightarrow> sha_state" where
  "sha_round (k, w) (a, b, c, d, e, f, g, h) =
     (let t1 = h + (rotr 6 e XOR rotr 11 e XOR rotr 25 e) + ((e AND f) XOR (NOT e AND g)) + k + w;
          t2 = (rotr 2 a XOR rotr 13 a XOR rotr 22 a) + ((a AND b) XOR (a AND c) XOR (b AND c))
      in (t1 + t2, a, b, c, d + t1, e, f, g))"

fun state_list :: "sha_state \<Rightarrow> word32 list" where
  "state_list (a, b, c, d, e, f, g, h) = [a, b, c, d, e, f, g, h]"

fun list_state :: "word32 list \<Rightarrow> sha_state" where
  "list_state [a, b, c, d, e, f, g, h] = (a, b, c, d, e, f, g, h)"
| "list_state _ = (0, 0, 0, 0, 0, 0, 0, 0)"

definition sha_block :: "word32 list \<Rightarrow> nat list \<Rightarrow> word32 list" where
  "sha_block hs block = map2 (+) hs
     (state_list (fold sha_round (zip sha_K (sha_schedule block)) (list_state hs)))"

definition word_bytes :: "word32 \<Rightarrow> nat list" where
  "word_bytes w = map (\<lambda>i. unat w div 256 ^ (3 - i) mod 256) [0..<4]"

definition Sum256 :: "string \<Rightarrow> nat list" where
  "Sum256 s = concat (map word_bytes (foldl sha_block sha_H0 (chunks 64 (sha_pad (map byte s)))))"

section \<open>hex and base64\<close>

definition hex_EncodeToString :: "nat list \<Rightarrow> string" where
  "hex_EncodeToString bs = concat (map (\<lambda>b. [hex_char (b div 16), hex_char b]) bs)"

definition url_alphabet :: string where
  "url_alphabet = ''ABCDEFGHIJKLMNOPQRSTUVWXYZabcdefghijklmnopqrstuvwxyz0123456789-_''"

definition url_char :: "nat \<Rightarrow> char" where
  "url_char n = url_alphabet ! (n mod 64)"

fun RawURLEncoding :: "nat list \<Rightarrow> string" where
  "RawURLEncoding (a # b # c # rest) =
     (let v = (a * 256 + b) * 256 + c
      in url_char (v div 262144) # url_char (v div 4096) # url_char (v div 64) # url_char v
           # RawURLEncoding rest)"
| "RawURLEncoding [a, b] =
     (let v = (a * 256 + b) * 256
      in [url_char (v div 262144), url_char (v div 4096), url_char (v div 64)])"
| "RawURLEncoding [a] = (let v = a * 65536 in [url_char (v div 262144), url_char (v div 4096)])"
| "RawURLEncoding [] = ''''"

section \<open>The code\<close>

text \<open>\<open>rand.Read\<close> fills the 32 bytes or fails.\<close>

definition newOpaqueToken :: "error + nat list \<Rightarrow> error + string" where
  "newOpaqueToken random = (case random of Inl err \<Rightarrow> Inl err | Inr b \<Rightarrow> Inr (RawURLEncoding b))"

definition hashToken :: "string \<Rightarrow> string" where
  "hashToken token = hex_EncodeToString (Sum256 token)"

section \<open>The stored hash\<close>

lemma length_state_list [simp]: "length (state_list st) = 8"
  by (cases st rule: state_list.cases) simp

lemma length_sha_blocks: "length hs = 8 \<Longrightarrow> length (foldl sha_block hs bs) = 8"
  by (induction bs arbitrary: hs) (simp_all add: sha_block_def)

lemma length_concat_const: "\<forall>x \<in> set xs. length x = n \<Longrightarrow> length (concat xs) = n * length xs"
  by (induction xs) auto

lemma length_Sum256: "length (Sum256 s) = 32"
proof -
  let ?hs = "foldl sha_block sha_H0 (chunks 64 (sha_pad (map byte s)))"
  have "length (concat (map word_bytes ?hs)) = 4 * length (map word_bytes ?hs)"
    by (rule length_concat_const) (simp add: word_bytes_def)
  then show ?thesis using length_sha_blocks [of sha_H0] by (simp add: Sum256_def sha_H0_def)
qed

definition lower_hex :: "char \<Rightarrow> bool" where
  "lower_hex c \<longleftrightarrow> c \<in> set ''0123456789abcdef''"

lemma lower_hex_char: "lower_hex (hex_char n)"
proof -
  have "\<forall>i \<in> {0..<16}. lower_hex (hex_char i)"
    unfolding set_upt [symmetric] by (simp add: upt_rec hex_char_def lower_hex_def char_of_def bit_simps)
  moreover have "hex_char n = hex_char (n mod 16)" by (simp add: hex_char_def)
  ultimately show ?thesis by simp
qed

text \<open>
  Whatever the client presents, \<open>hashToken\<close> gives exactly 64 lowercase hexadecimal digits,
  so a stored key never depends on the length or the bytes of the token.
\<close>

theorem hash_token_shape:
  "length (hashToken token) = 64 \<and> list_all (\<lambda>c. c \<in> set ''0123456789abcdef'') (hashToken token)"
proof
  have "length (concat (map (\<lambda>b. [hex_char (b div 16), hex_char b]) (Sum256 token)))
      = 2 * length (map (\<lambda>b. [hex_char (b div 16), hex_char b]) (Sum256 token))"
    by (rule length_concat_const) simp
  then show "length (hashToken token) = 64"
    by (simp add: hashToken_def hex_EncodeToString_def length_Sum256)
  show "list_all (\<lambda>c. c \<in> set ''0123456789abcdef'') (hashToken token)"
    using lower_hex_char unfolding lower_hex_def
    by (auto simp: hashToken_def hex_EncodeToString_def list_all_iff)
qed

section \<open>The token handed out\<close>

definition url_index :: "char \<Rightarrow> nat" where
  "url_index c = length (takeWhile (\<lambda>x. x \<noteq> c) url_alphabet)"

fun url_decode :: "string \<Rightarrow> nat list" where
  "url_decode (w # x # y # z # rest) =
     (let v = ((url_index w * 64 + url_index x) * 64 + url_index y) * 64 + url_index z
      in v div 65536 # v div 256 mod 256 # v mod 256 # url_decode rest)"
| "url_decode [w, x, y] =
     (let v = ((url_index w * 64 + url_index x) * 64 + url_index y) * 64
      in [v div 65536, v div 256 mod 256])"
| "url_decode [w, x] = (let v = (url_index w * 64 + url_index x) * 4096 in [v div 65536])"
| "url_decode _ = []"

lemma distinct_url_alphabet: "distinct url_alphabet"
  by (simp add: url_alphabet_def)

lemma length_url_alphabet [simp]: "length url_alphabet = 64"
  by (simp add: url_alphabet_def)

lemma index_takeWhile:
  "\<lbrakk>distinct xs; i < length xs\<rbrakk> \<Longrightarrow> length (takeWhile (\<lambda>x. x \<noteq> xs ! i) xs) = i"
proof (induction xs arbitrary: i)
  case (Cons a xs)
  then show ?case by (cases i) auto
qed simp

lemma url_index_char [simp]: "url_index (url_char n) = n mod 64"
  unfolding url_index_def url_char_def by (rule index_takeWhile) (simp_all add: distinct_url_alphabet)

lemma sextets:
  assumes "v < 16777216"
  shows "((v div 262144 mod 64 * 64 + v div 4096 mod 64) * 64 + v div 64 mod 64) * 64 + v mod 64
    = (v :: nat)"
proof -
  have s: "k div 64 * 64 + k mod 64 = k" for k :: nat by simp
  have d: "v div 4096 = v div 64 div 64" "v div 262144 = v div 64 div 64 div 64"
    by (simp_all add: div_mult2_eq [symmetric])
  have "v div 262144 < 64" using assms by (simp add: less_mult_imp_div_less)
  then have "v div 262144 mod 64 = v div 64 div 64 div 64" by (simp add: d(2))
  then show ?thesis by (simp only: d(1) s)
qed

lemma octets:
  assumes "a < 256" "b < 256" "c < (256::nat)"
  shows "((a * 256 + b) * 256 + c) div 65536 = a" "((a * 256 + b) * 256 + c) div 256 mod 256 = b"
    "((a * 256 + b) * 256 + c) mod 256 = c" "(a * 256 + b) * 256 + c < 16777216"
proof -
  have q: "(x * 256 + y) div 256 = x" "(x * 256 + y) mod 256 = y" if "y < 256" for x y :: nat
    using that by simp_all
  have "((a * 256 + b) * 256 + c) div 65536 = ((a * 256 + b) * 256 + c) div 256 div 256"
    by (simp only: div_mult2_eq [symmetric]) simp
  also have "\<dots> = a" by (simp only: q assms)
  finally show "((a * 256 + b) * 256 + c) div 65536 = a" .
  show "((a * 256 + b) * 256 + c) div 256 mod 256 = b" "((a * 256 + b) * 256 + c) mod 256 = c"
    by (simp_all only: q assms)
  have "65536 * a + 256 * b + c < 16777216" using assms by linarith
  then show "(a * 256 + b) * 256 + c < 16777216" by simp
qed

lemma url_decode_encode: "list_all (\<lambda>b. b < 256) bs \<Longrightarrow> url_decode (RawURLEncoding bs) = bs"
proof (induction bs rule: RawURLEncoding.induct)
  case (1 a b c rest)
  then have lt: "a < 256" "b < 256" "c < 256" by simp_all
  have "url_decode (RawURLEncoding (a # b # c # rest)) = a # b # c # url_decode (RawURLEncoding rest)"
    by (simp only: RawURLEncoding.simps Let_def url_decode.simps url_index_char
        sextets [OF octets(4) [OF lt]] octets [OF lt])
  with 1 show ?case by simp
next
  case (2 a b)
  then have lt: "a < 256" "b < 256" "(0::nat) < 256" by simp_all
  have z: "(a * 256 + b) * 256 mod 64 = 0" by presburger
  note v = sextets [OF octets(4) [OF lt]] octets [OF lt]
  show ?case
    using v(1-3) by (simp only: RawURLEncoding.simps Let_def url_decode.simps url_index_char
        z add_0_right)
next
  case (3 a)
  then have lt: "a < 256" "(0::nat) < 256" "(0::nat) < 256" by simp_all
  have e: "(a * 256 + 0) * 256 + 0 = a * 65536" by simp
  have f: "a * 65536 = (a * 16 * 64) * 64" by simp
  have z: "a * 65536 mod 64 = 0" "a * 65536 div 64 mod 64 = 0"
    unfolding f by (simp_all only: mod_mult_self2_is_0 nonzero_mult_div_cancel_right)
  note v = sextets [OF octets(4) [OF lt]] octets [OF lt]
  have "(a * 65536 div 262144 mod 64 * 64 + a * 65536 div 4096 mod 64) * 4096 = a * 65536"
    using v(1) unfolding e z by (simp only: add_0_right mult.assoc)
  with v(2) show ?case unfolding e
    by (simp only: RawURLEncoding.simps Let_def url_decode.simps url_index_char)
qed simp

lemma length_RawURLEncoding: "length (RawURLEncoding bs) = (4 * length bs + 2) div 3"
  by (induction bs rule: RawURLEncoding.induct) (simp_all add: Let_def)

lemma set_RawURLEncoding: "set (RawURLEncoding bs) \<subseteq> set url_alphabet"
  by (induction bs rule: RawURLEncoding.induct) (auto simp: Let_def url_char_def)

text \<open>
  A new refresh token is 43 characters of the URL-safe alphabet, and no two different
  readings of the random generator give the same token.
\<close>

lemma opaque_token_injective:
  assumes "length b = 32" "list_all (\<lambda>x. x < 256) b"
    and "length b' = 32" "list_all (\<lambda>x. x < 256) b'"
  shows "(newOpaqueToken (Inr b) = newOpaqueToken (Inr b') \<longleftrightarrow> b = b')
    \<and> (\<exists>t. newOpaqueToken (Inr b) = Inr t \<and> length t = 43 \<and> set t \<subseteq> set url_alphabet)"
proof
  show "newOpaqueToken (Inr b) = newOpaqueToken (Inr b') \<longleftrightarrow> b = b'"
    using url_decode_encode [OF assms(2)] url_decode_encode [OF assms(4)]
    unfolding newOpaqueToken_def sum.case by (metis sum.inject(2))
  show "\<exists>t. newOpaqueToken (Inr b) = Inr t \<and> length t = 43 \<and> set t \<subseteq> set url_alphabet"
    unfolding newOpaqueToken_def sum.case
    by (intro exI conjI, rule refl, simp add: length_RawURLEncoding assms(1), rule set_RawURLEncoding)
qed

lemma opaque_token_injective_witness:
  "newOpaqueToken (Inr (replicate 32 0)) \<noteq> newOpaqueToken (Inr (replicate 31 0 @ [1]))"
proof -
  have "last (replicate 32 (0::nat)) \<noteq> last (replicate 31 0 @ [1])" by simp
  then have "replicate 32 (0::nat) \<noteq> replicate 31 0 @ [1]" by metis
  moreover have "length (replicate 32 (0::nat)) = 32" "list_all (\<lambda>x. x < 256) (replicate 32 (0::nat))"
    "length (replicate 31 (0::nat) @ [1]) = 32" "list_all (\<lambda>x. x < 256) (replicate 31 (0::nat) @ [1])"
    by (simp_all add: list_all_iff)
  ultimately show ?thesis
    using opaque_token_injective [of "replicate 32 0" "replicate 31 0 @ [1]"] by blast
qed

section \<open>Evaluating the hash\<close>

text \<open>
  The same computation with every intermediate word reduced, so that the simplifier can run
  it on numerals, for messages that fit one block.
\<close>

lemma word32_take: "take_bit 32 (x :: word32) = x"
  by (rule take_bit_word_eq_self) simp

lemma rotr_numeral:
  "rotr n (numeral x) = take_bit 32 (drop_bit n (numeral x) OR push_bit (32 - n) (numeral x))"
  "rotr n 0 = 0" "rotr n 1 = take_bit 32 (drop_bit n 1 OR push_bit (32 - n) 1)"
  unfolding word32_take rotr_def by simp_all

lemma not_word32: "NOT (x :: word32) = x XOR 0xffffffff"
proof -
  have m: "(0xffffffff :: word32) = - 1" by simp
  show ?thesis unfolding m by simp
qed

definition round_t1 :: "word32 \<Rightarrow> word32 \<Rightarrow> word32 \<Rightarrow> word32 \<Rightarrow> word32 \<Rightarrow> word32 \<Rightarrow> word32" where
  "round_t1 h e f g k w = take_bit 32 (h + (rotr 6 e XOR rotr 11 e XOR rotr 25 e)
     + ((e AND f) XOR ((e XOR 0xffffffff) AND g)) + k + w)"

definition round_t2 :: "word32 \<Rightarrow> word32 \<Rightarrow> word32 \<Rightarrow> word32" where
  "round_t2 a b c = take_bit 32 ((rotr 2 a XOR rotr 13 a XOR rotr 22 a)
     + ((a AND b) XOR (a AND c) XOR (b AND c)))"

definition round_out :: "word32 \<Rightarrow> word32 \<Rightarrow> word32 \<Rightarrow> word32 \<Rightarrow> word32 \<Rightarrow> word32 \<Rightarrow> word32
    \<Rightarrow> word32 \<Rightarrow> word32 \<Rightarrow> sha_state" where
  "round_out t1 t2 a b c d e f g = (take_bit 32 (t1 + t2), a, b, c, take_bit 32 (d + t1), e, f, g)"

lemma sha_round_staged:
  "sha_round (k, w) (a, b, c, d, e, f, g, h) =
     round_out (round_t1 h e f g k w) (round_t2 a b c) a b c d e f g"
  unfolding round_t1_def round_t2_def round_out_def word32_take
  by (simp only: sha_round.simps not_word32 Let_def)

definition next_word :: "word32 \<Rightarrow> word32 \<Rightarrow> word32 \<Rightarrow> word32 \<Rightarrow> word32" where
  "next_word x15 x2 x7 x16 = take_bit 32 ((rotr 17 x2 XOR rotr 19 x2 XOR drop_bit 10 x2) + x7
     + (rotr 7 x15 XOR rotr 18 x15 XOR drop_bit 3 x15) + x16)"

lemma sha_extend_numeral:
  "sha_extend (numeral n) w =
     sha_extend (pred_numeral n) (next_word (w ! 14) (w ! 1) (w ! 6) (w ! 15) # w)"
  unfolding next_word_def word32_take by (simp only: numeral_eq_Suc sha_extend.simps Let_def)

lemma replicate_numeral: "replicate (numeral n) x = x # replicate (pred_numeral n) x"
  by (simp add: numeral_eq_Suc)

lemma chunks_single: "\<lbrakk>0 < n; length xs = n\<rbrakk> \<Longrightarrow> chunks n xs = [xs]"
  by (subst chunks.simps, subst chunks.simps) auto

lemma chunks_four: "chunks 4 (a # b # c # d # xs) = [a, b, c, d] # chunks 4 xs" "chunks 4 [] = []"
  by (simp_all add: chunks.simps)

lemma one_block:
  assumes "length m < 56"
  shows "chunks 64 (sha_pad m) = [m @ [128] @ replicate (55 - length m) 0
    @ map (\<lambda>i. (8 * length m) div 256 ^ (7 - i) mod 256) [0..<8]]"
proof -
  have "119 - length m mod 64 = (55 - length m) + 64" using assms by simp
  then have "(119 - length m mod 64) mod 64 = 55 - length m"
    using assms by (simp only: mod_add_self2) simp
  then show ?thesis using assms by (subst chunks_single) (simp_all add: sha_pad_def)
qed

lemmas one_block_eval = one_block replicate_numeral chunks_four upt_rec
lemmas sha_eval = sha_extend_numeral next_word_def rotr_numeral sha_round_staged round_t1_def
  round_t2_def round_out_def

lemma hash_short:
  assumes "length s < 56" "sha_schedule (hd (chunks 64 (sha_pad (map byte s)))) = ws"
    and "map2 (+) sha_H0 (state_list (fold sha_round (zip sha_K ws) (list_state sha_H0))) = hs"
  shows "hashToken s = hex_EncodeToString (concat (map word_bytes hs))"
proof -
  obtain b where b: "chunks 64 (sha_pad (map byte s)) = [b]"
    using one_block [of "map byte s"] assms(1) by simp
  then have "sha_schedule b = ws" using assms(2) by simp
  with assms(3) have "foldl sha_block sha_H0 (chunks 64 (sha_pad (map byte s))) = hs"
    unfolding b by (simp add: sha_block_def)
  then show ?thesis by (simp add: hashToken_def Sum256_def)
qed

lemma hash_abc: "hashToken ''abc'' = hex_EncodeToString (concat (map word_bytes
    [0xba7816bf, 0x8f01cfea, 0x414140de, 0x5dae2223, 0xb00361a3, 0x96177a9c, 0xb410ff61, 0xf20015ad]))"
  by (rule hash_short [OF _ refl])
    (simp_all add: sha_schedule_def one_block_eval sha_eval sha_K_def sha_H0_def del: sha_round.simps)

text \<open>
  On the message \<open>abc\<close> the hash is the digest published with the standard.
\<close>

theorem hash_token_vector:
  "hashToken ''abc'' = ''ba7816bf8f01cfea414140de5dae2223b00361a396177a9cb410ff61f20015ad''"
  unfolding hash_abc
  by (simp add: hex_EncodeToString_def word_bytes_def upt_rec hex_char_def char_of_def bit_simps)


section \<open>Two tokens for examples\<close>

definition token_one :: string where
  "token_one = RawURLEncoding (replicate 32 0)"

definition token_two :: string where
  "token_two = RawURLEncoding (replicate 31 0 @ [1])"

lemma tokens_spelled:
  "token_one = ''AAAAAAAAAAAAAAAAAAAAAAAAAAAAAAAAAAAAAAAAAAA''"
  "token_two = ''AAAAAAAAAAAAAAAAAAAAAAAAAAAAAAAAAAAAAAAAAAE''"
  by (simp_all add: token_one_def token_two_def replicate_numeral url_char_def url_alphabet_def Let_def)

lemma hash_token_one: "hashToken token_one = hex_EncodeToString (concat (map word_bytes
    [0x0f007385, 0xb6f9d4b7, 0xeeb27486, 0x05afe1a9, 0x84a0a3bf, 0xa3f014d0, 0x9e2a784c, 0xe9e5cd1a]))"
  by (rule hash_short [OF _ refl])
    (simp_all add: tokens_spelled sha_schedule_def one_block_eval sha_eval sha_K_def sha_H0_def
      del: sha_round.simps)

lemma hash_token_two: "hashToken token_two = hex_EncodeToString (concat (map word_bytes
    [0x1aeb305e, 0xae63ed6e, 0xac9ab26d, 0x46ef146a, 0xd48f5ae5, 0x9c608cd4, 0x1115ec4b, 0x19b5cd72]))"
  by (rule hash_short [OF _ refl])
    (simp_all add: tokens_spelled sha_schedule_def one_block_eval sha_eval sha_K_def sha_H0_def
      del: sha_round.simps)

lemma sample_hashes_distinct:
  "hashToken token_one \<noteq> hashToken ''abc''" "hashToken token_two \<noteq> hashToken ''abc''"
  "hashToken token_one \<noteq> hashToken token_two"
  unfolding hash_token_one hash_token_two hash_abc
  by (simp_all add: hex_EncodeToString_def word_bytes_def upt_rec hex_char_def char_of_def bit_simps)

end
