(* ===== verification/Memory_Store.thy ===== *)
theory Memory_Store
  imports Models
begin

text \<open>
  The persistence contract and its in-memory implementation: \<open>internal/store/store.go\<close>,
  \<open>users.go\<close> and \<open>memory_users.go\<close>.

  Every method of \<open>MemoryStore\<close> holds the store's mutex from its first statement to its
  return, so one method call is one atomic step: it is a function from the store to a
  result and a new store, and concurrent callers are sequences of such steps. A Go interface
  value is a record of functions over the state of the implementation behind it.
\<close>

section \<open>The interfaces\<close>

record 's Store =
  CreateDevice :: "'s \<Rightarrow> Device \<Rightarrow> error option \<times> 's"
  GetDevice :: "'s \<Rightarrow> string \<Rightarrow> error + Device"
  ListDevices :: "sched \<Rightarrow> sched \<Rightarrow> 's \<Rightarrow> Device list"
  UpdateDevice :: "'s \<Rightarrow> string \<Rightarrow> string \<Rightarrow> string \<Rightarrow> string \<Rightarrow> metadata \<Rightarrow> error option \<times> 's"
  UpdateDeviceStatus :: "'s \<Rightarrow> string \<Rightarrow> DeviceStatus \<Rightarrow> time \<Rightarrow> error option \<times> 's"
  DeleteDevice :: "'s \<Rightarrow> string \<Rightarrow> error option \<times> 's"
  AddTelemetry :: "'s \<Rightarrow> Telemetry \<Rightarrow> error option \<times> 's"
  GetTelemetry :: "'s \<Rightarrow> string \<Rightarrow> time \<Rightarrow> int \<Rightarrow> Telemetry list"
  AddAlert :: "'s \<Rightarrow> Alert \<Rightarrow> error option \<times> 's"
  ListAlerts :: "sched \<Rightarrow> sched \<Rightarrow> 's \<Rightarrow> string \<Rightarrow> Alert list"

record 's UserStore =
  CreateUser :: "sched \<Rightarrow> 's \<Rightarrow> User \<Rightarrow> error option \<times> 's"
  GetUserByUsername :: "sched \<Rightarrow> 's \<Rightarrow> string \<Rightarrow> error + User"
  GetUserByID :: "'s \<Rightarrow> string \<Rightarrow> error + User"
  ListUsers :: "sched \<Rightarrow> sched \<Rightarrow> 's \<Rightarrow> User list"
  UpdateUser :: "'s \<Rightarrow> User \<Rightarrow> error option \<times> 's"
  DeleteUser :: "sched \<Rightarrow> 's \<Rightarrow> string \<Rightarrow> error option \<times> 's"
  StoreRefreshToken :: "'s \<Rightarrow> RefreshToken \<Rightarrow> error option \<times> 's"
  GetRefreshToken :: "time \<Rightarrow> 's \<Rightarrow> string \<Rightarrow> error + RefreshToken"
  DeleteRefreshToken :: "'s \<Rightarrow> string \<Rightarrow> error option \<times> 's"
  DeleteUserRefreshTokens :: "sched \<Rightarrow> 's \<Rightarrow> string \<Rightarrow> error option \<times> 's"

section \<open>MemoryStore: devices, telemetry and alerts\<close>

record MemoryStore =
  ms_devices :: "(string, Device) gomap"
  ms_telemetry :: "(string, Telemetry list) gomap"
  ms_alerts :: "(string, Alert list) gomap"
  ms_users :: "(string, User) gomap"
  ms_refresh :: "(string, RefreshToken) gomap"
  ms_maxHistory :: int

definition NewMemoryStore :: "int \<Rightarrow> MemoryStore" where
  "NewMemoryStore maxHistory =
     \<lparr>ms_devices = fmempty, ms_telemetry = fmempty, ms_alerts = fmempty,
      ms_users = fmempty, ms_refresh = fmempty, ms_maxHistory = maxHistory\<rparr>"

text \<open>Reading a missing key of a map of slices gives the nil slice.\<close>

definition series_of :: "(string, 'a list) gomap \<Rightarrow> string \<Rightarrow> 'a list" where
  "series_of m k = (case fmlookup m k of None \<Rightarrow> [] | Some xs \<Rightarrow> xs)"

definition mem_CreateDevice :: "MemoryStore \<Rightarrow> Device \<Rightarrow> error option \<times> MemoryStore" where
  [model_defs]: "mem_CreateDevice s d =
     (case fmlookup (ms_devices s) (dev_ID d) of
        Some _ \<Rightarrow> (Some ErrDeviceExists, s)
      | None \<Rightarrow> (None, s\<lparr>ms_devices := fmupd (dev_ID d) d (ms_devices s)\<rparr>))"

definition mem_GetDevice :: "MemoryStore \<Rightarrow> string \<Rightarrow> error + Device" where
  [model_defs]: "mem_GetDevice s i =
     (case fmlookup (ms_devices s) i of None \<Rightarrow> Inl ErrNotFound | Some d \<Rightarrow> Inr d)"

definition mem_ListDevices :: "sched \<Rightarrow> sched \<Rightarrow> MemoryStore \<Rightarrow> Device list" where
  [model_defs]: "mem_ListDevices p q s =
     sort_Slice q dev_RegisteredAt (map snd (range_map p (ms_devices s)))"

definition mem_UpdateDevice ::
  "MemoryStore \<Rightarrow> string \<Rightarrow> string \<Rightarrow> string \<Rightarrow> string \<Rightarrow> metadata \<Rightarrow> error option \<times> MemoryStore" where
  [model_defs]: "mem_UpdateDevice s i name deviceType location metadata =
     (case fmlookup (ms_devices s) i of
        None \<Rightarrow> (Some ErrNotFound, s)
      | Some d \<Rightarrow>
          (None, s\<lparr>ms_devices := fmupd i
             (d\<lparr>dev_Name := name, dev_Type := deviceType, dev_Location := location,
                dev_Metadata := metadata\<rparr>) (ms_devices s)\<rparr>))"

definition mem_UpdateDeviceStatus ::
  "MemoryStore \<Rightarrow> string \<Rightarrow> DeviceStatus \<Rightarrow> time \<Rightarrow> error option \<times> MemoryStore" where
  [model_defs]: "mem_UpdateDeviceStatus s i status seen =
     (case fmlookup (ms_devices s) i of
        None \<Rightarrow> (Some ErrNotFound, s)
      | Some d \<Rightarrow>
          (let d1 = d\<lparr>dev_Status := status\<rparr>;
               d2 = (if \<not> IsZero seen then d1\<lparr>dev_LastSeenAt := seen\<rparr> else d1)
           in (None, s\<lparr>ms_devices := fmupd i d2 (ms_devices s)\<rparr>)))"

definition mem_DeleteDevice :: "MemoryStore \<Rightarrow> string \<Rightarrow> error option \<times> MemoryStore" where
  [model_defs]: "mem_DeleteDevice s i =
     (case fmlookup (ms_devices s) i of
        None \<Rightarrow> (Some ErrNotFound, s)
      | Some _ \<Rightarrow>
          (None, s\<lparr>ms_devices := fmdrop i (ms_devices s),
                   ms_telemetry := fmdrop i (ms_telemetry s),
                   ms_alerts := fmdrop i (ms_alerts s)\<rparr>))"

definition mem_AddTelemetry :: "MemoryStore \<Rightarrow> Telemetry \<Rightarrow> error option \<times> MemoryStore" where
  [model_defs]: "mem_AddTelemetry s t =
     (case fmlookup (ms_devices s) (tel_DeviceID t) of
        None \<Rightarrow> (Some ErrNotFound, s)
      | Some _ \<Rightarrow>
          (let series = series_of (ms_telemetry s) (tel_DeviceID t) @ [t];
               series' = (if 0 < ms_maxHistory s \<and> ms_maxHistory s < int (length series)
                          then slice_tail (ms_maxHistory s) series else series)
           in (None, s\<lparr>ms_telemetry := fmupd (tel_DeviceID t) series' (ms_telemetry s)\<rparr>)))"

definition mem_GetTelemetry :: "MemoryStore \<Rightarrow> string \<Rightarrow> time \<Rightarrow> int \<Rightarrow> Telemetry list" where
  [model_defs]: "mem_GetTelemetry s deviceID since limit =
     (let series = series_of (ms_telemetry s) deviceID;
          out = filter (\<lambda>t. IsZero since \<or> After (tel_Timestamp t) since
                            \<or> Equal (tel_Timestamp t) since) series
      in if 0 < limit \<and> limit < int (length out) then slice_tail limit out else out)"

definition mem_AddAlert :: "MemoryStore \<Rightarrow> Alert \<Rightarrow> error option \<times> MemoryStore" where
  [model_defs]: "mem_AddAlert s a =
     (None, s\<lparr>ms_alerts := fmupd (al_DeviceID a)
        (series_of (ms_alerts s) (al_DeviceID a) @ [a]) (ms_alerts s)\<rparr>)"

definition mem_ListAlerts :: "sched \<Rightarrow> sched \<Rightarrow> MemoryStore \<Rightarrow> string \<Rightarrow> Alert list" where
  [model_defs]: "mem_ListAlerts p q s deviceID =
     (if deviceID \<noteq> '''' then series_of (ms_alerts s) deviceID
      else sort_Slice q al_CreatedAt (concat (map snd (range_map p (ms_alerts s)))))"

definition mem_store :: "MemoryStore Store" where
  "mem_store =
     \<lparr>CreateDevice = mem_CreateDevice, GetDevice = mem_GetDevice,
      ListDevices = mem_ListDevices, UpdateDevice = mem_UpdateDevice,
      UpdateDeviceStatus = mem_UpdateDeviceStatus, DeleteDevice = mem_DeleteDevice,
      AddTelemetry = mem_AddTelemetry, GetTelemetry = mem_GetTelemetry,
      AddAlert = mem_AddAlert, ListAlerts = mem_ListAlerts\<rparr>"

section \<open>MemoryStore: users and refresh tokens\<close>

definition mem_CreateUser :: "sched \<Rightarrow> MemoryStore \<Rightarrow> User \<Rightarrow> error option \<times> MemoryStore" where
  [model_defs]: "mem_CreateUser p s u =
     (case find (\<lambda>(_, existing). usr_Username existing = usr_Username u)
             (range_map p (ms_users s)) of
        Some _ \<Rightarrow> (Some ErrDuplicateUser, s)
      | None \<Rightarrow> (None, s\<lparr>ms_users := fmupd (usr_ID u) u (ms_users s)\<rparr>))"

definition mem_GetUserByUsername :: "sched \<Rightarrow> MemoryStore \<Rightarrow> string \<Rightarrow> error + User" where
  [model_defs]: "mem_GetUserByUsername p s username =
     (case find (\<lambda>(_, u). usr_Username u = username) (range_map p (ms_users s)) of
        Some (_, u) \<Rightarrow> Inr u
      | None \<Rightarrow> Inl ErrNotFound)"

definition mem_GetUserByID :: "MemoryStore \<Rightarrow> string \<Rightarrow> error + User" where
  [model_defs]: "mem_GetUserByID s i =
     (case fmlookup (ms_users s) i of None \<Rightarrow> Inl ErrNotFound | Some u \<Rightarrow> Inr u)"

definition mem_ListUsers :: "sched \<Rightarrow> sched \<Rightarrow> MemoryStore \<Rightarrow> User list" where
  [model_defs]: "mem_ListUsers p q s =
     sort_Slice q usr_CreatedAt (map snd (range_map p (ms_users s)))"

definition mem_UpdateUser :: "MemoryStore \<Rightarrow> User \<Rightarrow> error option \<times> MemoryStore" where
  [model_defs]: "mem_UpdateUser s u =
     (case fmlookup (ms_users s) (usr_ID u) of
        None \<Rightarrow> (Some ErrNotFound, s)
      | Some _ \<Rightarrow> (None, s\<lparr>ms_users := fmupd (usr_ID u) u (ms_users s)\<rparr>))"

text \<open>The loop \<open>for hash, rt := range s.refresh\<close> that deletes the tokens of a user.\<close>

definition drop_tokens_of :: "sched \<Rightarrow> string \<Rightarrow> (string, RefreshToken) gomap
    \<Rightarrow> (string, RefreshToken) gomap" where
  "drop_tokens_of p userID m =
     fold (\<lambda>(hash, rt) acc. if rt_UserID rt = userID then fmdrop hash acc else acc)
       (range_map p m) m"

definition mem_DeleteUser :: "sched \<Rightarrow> MemoryStore \<Rightarrow> string \<Rightarrow> error option \<times> MemoryStore" where
  [model_defs]: "mem_DeleteUser p s i =
     (case fmlookup (ms_users s) i of
        None \<Rightarrow> (Some ErrNotFound, s)
      | Some _ \<Rightarrow>
          (None, s\<lparr>ms_users := fmdrop i (ms_users s),
                   ms_refresh := drop_tokens_of p i (ms_refresh s)\<rparr>))"

definition mem_StoreRefreshToken :: "MemoryStore \<Rightarrow> RefreshToken \<Rightarrow> error option \<times> MemoryStore" where
  [model_defs]: "mem_StoreRefreshToken s rt =
     (None, s\<lparr>ms_refresh := fmupd (rt_TokenHash rt) rt (ms_refresh s)\<rparr>)"

definition mem_GetRefreshToken :: "time \<Rightarrow> MemoryStore \<Rightarrow> string \<Rightarrow> error + RefreshToken" where
  [model_defs]: "mem_GetRefreshToken now s tokenHash =
     (case fmlookup (ms_refresh s) tokenHash of
        None \<Rightarrow> Inl ErrNotFound
      | Some rt \<Rightarrow> if \<not> IsZero (rt_ExpiresAt rt) \<and> After now (rt_ExpiresAt rt)
                   then Inl ErrNotFound else Inr rt)"

definition mem_DeleteRefreshToken :: "MemoryStore \<Rightarrow> string \<Rightarrow> error option \<times> MemoryStore" where
  [model_defs]: "mem_DeleteRefreshToken s tokenHash =
     (None, s\<lparr>ms_refresh := fmdrop tokenHash (ms_refresh s)\<rparr>)"

definition mem_DeleteUserRefreshTokens ::
  "sched \<Rightarrow> MemoryStore \<Rightarrow> string \<Rightarrow> error option \<times> MemoryStore" where
  [model_defs]: "mem_DeleteUserRefreshTokens p s userID =
     (None, s\<lparr>ms_refresh := drop_tokens_of p userID (ms_refresh s)\<rparr>)"

definition mem_user_store :: "MemoryStore UserStore" where
  "mem_user_store =
     \<lparr>CreateUser = mem_CreateUser, GetUserByUsername = mem_GetUserByUsername,
      GetUserByID = mem_GetUserByID, ListUsers = mem_ListUsers,
      UpdateUser = mem_UpdateUser, DeleteUser = mem_DeleteUser,
      StoreRefreshToken = mem_StoreRefreshToken, GetRefreshToken = mem_GetRefreshToken,
      DeleteRefreshToken = mem_DeleteRefreshToken,
      DeleteUserRefreshTokens = mem_DeleteUserRefreshTokens\<rparr>"

end
