(* ===== verification/Mongo.thy ===== *)
theory Mongo
  imports Memory_Store "HOL-Library.Monad_Syntax"
begin

text \<open>
  The MongoDB store: \<open>internal/store/mongo.go\<close>, \<open>mongo_users.go\<close> and \<open>mongo_mapping.go\<close>.

  The driver and the server behind it are not part of the repository. They are the argument
  \<open>M\<close>, a record of the driver calls the code makes over a state \<open>'db\<close> of the database; a call
  may fail, and what the documentation promises of calls that reach the database is the
  hypothesis \<open>mongo_ok\<close> of theory \<open>Mongo_Driver\<close>. What the code hands to the driver (names of
  collections and fields, filters, updates, sort orders) is written out here, the fields through
  the \<open>bson\<close> tags of the document structs. \<open>mongo_Date\<close> is what is left of a \<open>time.Time\<close> in a
  BSON date. Each call runs under its own timeout, whose expiry is one of its failures.
\<close>

section \<open>Documents and driver calls\<close>

datatype bson =
    BStr string
  | BDbl float64
  | BTime time
  | BStrs "string list"
  | BStrMap metadata
  | BDblMap metrics
  | BId nat
  | BNull

type_synonym bdoc = "(string, bson) fmap"

text \<open>A condition of a filter: equality, \<open>$gte\<close> or \<open>$in\<close>.\<close>

datatype bcond = CEq bson | CGte bson | CIn "bson list"

type_synonym bfilter = "(string \<times> bcond) list"

datatype mongo_error = ErrNoDocuments | DuplicateKey string | MongoFailure string

record 'db mongo =
  mongo_Date :: "time \<Rightarrow> time"
  mongo_Connect :: "string \<Rightarrow> string \<Rightarrow> mongo_error + 'db"
  mongo_Ping :: "'db \<Rightarrow> mongo_error option"
  mongo_CreateIndexes :: "string \<Rightarrow> (string list \<times> bool) list \<Rightarrow> 'db \<Rightarrow> mongo_error option \<times> 'db"
  mongo_InsertOne :: "string \<Rightarrow> bdoc \<Rightarrow> 'db \<Rightarrow> mongo_error option \<times> 'db"
  mongo_FindOne :: "string \<Rightarrow> bfilter \<Rightarrow> 'db \<Rightarrow> mongo_error + bdoc"
  mongo_Find :: "string \<Rightarrow> bfilter \<Rightarrow> (string \<times> int) list \<Rightarrow> int \<Rightarrow> 'db \<Rightarrow> mongo_error + bdoc list"
  mongo_UpdateOne :: "string \<Rightarrow> bfilter \<Rightarrow> (string \<times> bson) list \<Rightarrow> 'db \<Rightarrow> (mongo_error + nat) \<times> 'db"
  mongo_DeleteOne :: "string \<Rightarrow> bfilter \<Rightarrow> 'db \<Rightarrow> (mongo_error + nat) \<times> 'db"
  mongo_DeleteMany :: "string \<Rightarrow> bfilter \<Rightarrow> 'db \<Rightarrow> (mongo_error + nat) \<times> 'db"
  mongo_CountDocuments :: "string \<Rightarrow> bfilter \<Rightarrow> 'db \<Rightarrow> mongo_error + nat"

fun go_error :: "mongo_error \<Rightarrow> error" where
  "go_error ErrNoDocuments = ErrOther ''mongo: no documents in result''"
| "go_error (DuplicateKey s) = ErrOther s"
| "go_error (MongoFailure s) = ErrOther s"

text \<open>
  Unmarshalling by tags: a missing or null field keeps the zero value, a value of another type
  is an error.
\<close>

definition get_str :: "string \<Rightarrow> bdoc \<Rightarrow> string option" where
  "get_str k d = (case fmlookup d k of
     None \<Rightarrow> Some '''' | Some BNull \<Rightarrow> Some '''' | Some (BStr s) \<Rightarrow> Some s | _ \<Rightarrow> None)"

definition get_dbl :: "string \<Rightarrow> bdoc \<Rightarrow> float64 option" where
  "get_dbl k d = (case fmlookup d k of
     None \<Rightarrow> Some 0 | Some BNull \<Rightarrow> Some 0 | Some (BDbl x) \<Rightarrow> Some x | _ \<Rightarrow> None)"

definition get_time :: "string \<Rightarrow> bdoc \<Rightarrow> time option" where
  "get_time k d = (case fmlookup d k of
     None \<Rightarrow> Some 0 | Some BNull \<Rightarrow> Some 0 | Some (BTime t) \<Rightarrow> Some t | _ \<Rightarrow> None)"

definition get_strs :: "string \<Rightarrow> bdoc \<Rightarrow> string list option" where
  "get_strs k d = (case fmlookup d k of
     None \<Rightarrow> Some [] | Some BNull \<Rightarrow> Some [] | Some (BStrs xs) \<Rightarrow> Some xs | _ \<Rightarrow> None)"

definition get_strmap :: "string \<Rightarrow> bdoc \<Rightarrow> metadata option" where
  "get_strmap k d = (case fmlookup d k of
     None \<Rightarrow> Some fmempty | Some BNull \<Rightarrow> Some fmempty | Some (BStrMap m) \<Rightarrow> Some m | _ \<Rightarrow> None)"

definition get_dblmap :: "string \<Rightarrow> bdoc \<Rightarrow> metrics option" where
  "get_dblmap k d = (case fmlookup d k of
     None \<Rightarrow> Some fmempty | Some BNull \<Rightarrow> Some fmempty | Some (BDblMap m) \<Rightarrow> Some m | _ \<Rightarrow> None)"

lemmas get_defs = get_str_def get_dbl_def get_time_def get_strs_def get_strmap_def get_dblmap_def

section \<open>The mapping\<close>

record deviceDoc =
  dd_ID :: string
  dd_Name :: string
  dd_Type :: string
  dd_Location :: string
  dd_Metadata :: metadata
  dd_Status :: string
  dd_RegisteredAt :: time
  dd_LastSeenAt :: time

definition deviceToDoc :: "Device \<Rightarrow> deviceDoc" where
  "deviceToDoc d = \<lparr>dd_ID = dev_ID d, dd_Name = dev_Name d, dd_Type = dev_Type d,
     dd_Location = dev_Location d, dd_Metadata = dev_Metadata d, dd_Status = dev_Status d,
     dd_RegisteredAt = dev_RegisteredAt d, dd_LastSeenAt = dev_LastSeenAt d\<rparr>"

definition docToDevice :: "deviceDoc \<Rightarrow> Device" where
  "docToDevice doc = \<lparr>dev_ID = dd_ID doc, dev_Name = dd_Name doc, dev_Type = dd_Type doc,
     dev_Location = dd_Location doc, dev_Metadata = dd_Metadata doc, dev_Status = dd_Status doc,
     dev_RegisteredAt = dd_RegisteredAt doc, dev_LastSeenAt = dd_LastSeenAt doc\<rparr>"

definition marshal_device :: "'db mongo \<Rightarrow> deviceDoc \<Rightarrow> bdoc" where
  "marshal_device M doc = fmap_of_list
     ([(''id'', BStr (dd_ID doc)), (''name'', BStr (dd_Name doc)), (''type'', BStr (dd_Type doc)),
       (''location'', BStr (dd_Location doc))]
      @ (if dd_Metadata doc = fmempty then [] else [(''metadata'', BStrMap (dd_Metadata doc))])
      @ [(''status'', BStr (dd_Status doc)),
         (''registered_at'', BTime (mongo_Date M (dd_RegisteredAt doc))),
         (''last_seen_at'', BTime (mongo_Date M (dd_LastSeenAt doc)))])"

definition unmarshal_device :: "bdoc \<Rightarrow> deviceDoc option" where
  "unmarshal_device d = do {
     i \<leftarrow> get_str ''id'' d; n \<leftarrow> get_str ''name'' d; t \<leftarrow> get_str ''type'' d;
     l \<leftarrow> get_str ''location'' d; m \<leftarrow> get_strmap ''metadata'' d; st \<leftarrow> get_str ''status'' d;
     r \<leftarrow> get_time ''registered_at'' d; s \<leftarrow> get_time ''last_seen_at'' d;
     Some \<lparr>dd_ID = i, dd_Name = n, dd_Type = t, dd_Location = l, dd_Metadata = m, dd_Status = st,
           dd_RegisteredAt = r, dd_LastSeenAt = s\<rparr> }"

record telemetryDoc =
  td_DeviceID :: string
  td_Timestamp :: time
  td_Metrics :: metrics

definition marshal_telemetry :: "'db mongo \<Rightarrow> telemetryDoc \<Rightarrow> bdoc" where
  "marshal_telemetry M doc = fmap_of_list
     [(''device_id'', BStr (td_DeviceID doc)), (''timestamp'', BTime (mongo_Date M (td_Timestamp doc))),
      (''metrics'', BDblMap (td_Metrics doc))]"

definition unmarshal_telemetry :: "bdoc \<Rightarrow> telemetryDoc option" where
  "unmarshal_telemetry d = do {
     i \<leftarrow> get_str ''device_id'' d; t \<leftarrow> get_time ''timestamp'' d; m \<leftarrow> get_dblmap ''metrics'' d;
     Some \<lparr>td_DeviceID = i, td_Timestamp = t, td_Metrics = m\<rparr> }"

definition docToTelemetry :: "telemetryDoc \<Rightarrow> Telemetry" where
  "docToTelemetry doc = \<lparr>tel_DeviceID = td_DeviceID doc, tel_Timestamp = td_Timestamp doc,
     tel_Metrics = td_Metrics doc\<rparr>"

record alertDoc =
  ad_ID :: string
  ad_DeviceID :: string
  ad_Metric :: string
  ad_Value :: float64
  ad_Threshold :: float64
  ad_Severity :: string
  ad_Message :: string
  ad_CreatedAt :: time

definition alertToDoc :: "Alert \<Rightarrow> alertDoc" where
  "alertToDoc a = \<lparr>ad_ID = al_ID a, ad_DeviceID = al_DeviceID a, ad_Metric = al_Metric a,
     ad_Value = al_Value a, ad_Threshold = al_Threshold a, ad_Severity = al_Severity a,
     ad_Message = al_Message a, ad_CreatedAt = al_CreatedAt a\<rparr>"

definition docToAlert :: "alertDoc \<Rightarrow> Alert" where
  "docToAlert doc = \<lparr>al_ID = ad_ID doc, al_DeviceID = ad_DeviceID doc, al_Metric = ad_Metric doc,
     al_Value = ad_Value doc, al_Threshold = ad_Threshold doc, al_Severity = ad_Severity doc,
     al_Message = ad_Message doc, al_CreatedAt = ad_CreatedAt doc\<rparr>"

definition marshal_alert :: "'db mongo \<Rightarrow> alertDoc \<Rightarrow> bdoc" where
  "marshal_alert M doc = fmap_of_list
     [(''id'', BStr (ad_ID doc)), (''device_id'', BStr (ad_DeviceID doc)),
      (''metric'', BStr (ad_Metric doc)), (''value'', BDbl (ad_Value doc)),
      (''threshold'', BDbl (ad_Threshold doc)), (''severity'', BStr (ad_Severity doc)),
      (''message'', BStr (ad_Message doc)), (''created_at'', BTime (mongo_Date M (ad_CreatedAt doc)))]"

definition unmarshal_alert :: "bdoc \<Rightarrow> alertDoc option" where
  "unmarshal_alert d = do {
     i \<leftarrow> get_str ''id'' d; dv \<leftarrow> get_str ''device_id'' d; m \<leftarrow> get_str ''metric'' d;
     v \<leftarrow> get_dbl ''value'' d; th \<leftarrow> get_dbl ''threshold'' d; sv \<leftarrow> get_str ''severity'' d;
     ms \<leftarrow> get_str ''message'' d; t \<leftarrow> get_time ''created_at'' d;
     Some \<lparr>ad_ID = i, ad_DeviceID = dv, ad_Metric = m, ad_Value = v, ad_Threshold = th,
           ad_Severity = sv, ad_Message = ms, ad_CreatedAt = t\<rparr> }"

record userDoc =
  ud_ID :: string
  ud_Username :: string
  ud_PasswordHash :: string
  ud_Roles :: "string list"
  ud_CreatedAt :: time

definition userToDoc :: "User \<Rightarrow> userDoc" where
  "userToDoc u = \<lparr>ud_ID = usr_ID u, ud_Username = usr_Username u, ud_PasswordHash = usr_PasswordHash u,
     ud_Roles = usr_Roles u, ud_CreatedAt = usr_CreatedAt u\<rparr>"

definition docToUser :: "userDoc \<Rightarrow> User" where
  "docToUser d = \<lparr>usr_ID = ud_ID d, usr_Username = ud_Username d, usr_PasswordHash = ud_PasswordHash d,
     usr_Roles = ud_Roles d, usr_CreatedAt = ud_CreatedAt d\<rparr>"

definition marshal_user :: "'db mongo \<Rightarrow> userDoc \<Rightarrow> bdoc" where
  "marshal_user M doc = fmap_of_list
     [(''id'', BStr (ud_ID doc)), (''username'', BStr (ud_Username doc)),
      (''password_hash'', BStr (ud_PasswordHash doc)), (''roles'', BStrs (ud_Roles doc)),
      (''created_at'', BTime (mongo_Date M (ud_CreatedAt doc)))]"

definition unmarshal_user :: "bdoc \<Rightarrow> userDoc option" where
  "unmarshal_user d = do {
     i \<leftarrow> get_str ''id'' d; n \<leftarrow> get_str ''username'' d; h \<leftarrow> get_str ''password_hash'' d;
     rs \<leftarrow> get_strs ''roles'' d; t \<leftarrow> get_time ''created_at'' d;
     Some \<lparr>ud_ID = i, ud_Username = n, ud_PasswordHash = h, ud_Roles = rs, ud_CreatedAt = t\<rparr> }"

record refreshDoc =
  rd_TokenHash :: string
  rd_UserID :: string
  rd_ExpiresAt :: time
  rd_CreatedAt :: time

definition marshal_refresh :: "'db mongo \<Rightarrow> refreshDoc \<Rightarrow> bdoc" where
  "marshal_refresh M doc = fmap_of_list
     [(''token_hash'', BStr (rd_TokenHash doc)), (''user_id'', BStr (rd_UserID doc)),
      (''expires_at'', BTime (mongo_Date M (rd_ExpiresAt doc))),
      (''created_at'', BTime (mongo_Date M (rd_CreatedAt doc)))]"

definition unmarshal_refresh :: "bdoc \<Rightarrow> refreshDoc option" where
  "unmarshal_refresh d = do {
     h \<leftarrow> get_str ''token_hash'' d; u \<leftarrow> get_str ''user_id'' d;
     e \<leftarrow> get_time ''expires_at'' d; c \<leftarrow> get_time ''created_at'' d;
     Some \<lparr>rd_TokenHash = h, rd_UserID = u, rd_ExpiresAt = e, rd_CreatedAt = c\<rparr> }"

lemmas marshal_defs = marshal_device_def marshal_telemetry_def marshal_alert_def marshal_user_def
  marshal_refresh_def
lemmas unmarshal_defs = unmarshal_device_def unmarshal_telemetry_def unmarshal_alert_def
  unmarshal_user_def unmarshal_refresh_def

section \<open>Devices, telemetry and alerts\<close>

record 'db MongoStore =
  mgs_db :: 'db
  mgs_maxHistory :: int
  mgs_timeout :: duration

record MongoConfig =
  mc_URI :: string
  mc_Database :: string
  mc_MaxHistory :: int
  mc_Timeout :: duration

fun create_all :: "'db mongo \<Rightarrow> (string \<times> (string list \<times> bool) list) list \<Rightarrow> 'db
    \<Rightarrow> mongo_error option \<times> 'db" where
  "create_all M [] db = (None, db)"
| "create_all M ((c, ixs) # rest) db =
     (case mongo_CreateIndexes M c ixs db of
        (Some err, db') \<Rightarrow> (Some err, db')
      | (None, db') \<Rightarrow> create_all M rest db')"

definition ensureIndexes :: "'db mongo \<Rightarrow> 'db \<Rightarrow> mongo_error option \<times> 'db" where
  "ensureIndexes M db = create_all M
     [(''devices'', [([''id''], True)]),
      (''telemetry'', [([''device_id'', ''timestamp''], False)]),
      (''alerts'', [([''device_id'', ''created_at''], False)]),
      (''users'', [([''id''], True), ([''username''], True)]),
      (''refresh_tokens'', [([''token_hash''], True)])] db"

definition NewMongoStore :: "'db mongo \<Rightarrow> MongoConfig \<Rightarrow> error + 'db MongoStore" where
  "NewMongoStore M cfg =
     (let database = (if mc_Database cfg = '''' then ''iot'' else mc_Database cfg);
          timeout = (if mc_Timeout cfg \<le> 0 then 5 * Second else mc_Timeout cfg)
      in case mongo_Connect M (mc_URI cfg) database of
           Inl err \<Rightarrow> Inl (go_error err)
         | Inr db \<Rightarrow>
             (case mongo_Ping M db of
                Some err \<Rightarrow> Inl (go_error err)
              | None \<Rightarrow>
                  (case ensureIndexes M db of
                     (Some err, _) \<Rightarrow> Inl (go_error err)
                   | (None, db') \<Rightarrow> Inr \<lparr>mgs_db = db', mgs_maxHistory = mc_MaxHistory cfg,
                                         mgs_timeout = timeout\<rparr>)))"

definition mgo_CreateDevice :: "'db mongo \<Rightarrow> 'db MongoStore \<Rightarrow> Device \<Rightarrow> error option \<times> 'db MongoStore" where
  "mgo_CreateDevice M s d =
     (case mongo_InsertOne M ''devices'' (marshal_device M (deviceToDoc d)) (mgs_db s) of
        (err, db) \<Rightarrow> (case err of
                        None \<Rightarrow> None
                      | Some (DuplicateKey _) \<Rightarrow> Some ErrDeviceExists
                      | Some e \<Rightarrow> Some (go_error e), s\<lparr>mgs_db := db\<rparr>))"

text \<open>\<open>FindOne(...).Decode(&doc)\<close>: the error of the query, or of decoding its document.\<close>

definition find_decode :: "'db mongo \<Rightarrow> string \<Rightarrow> bfilter \<Rightarrow> (bdoc \<Rightarrow> 'd option) \<Rightarrow> 'db
    \<Rightarrow> mongo_error + 'd" where
  "find_decode M c f dec db =
     (case mongo_FindOne M c f db of
        Inl err \<Rightarrow> Inl err
      | Inr d \<Rightarrow> (case dec d of None \<Rightarrow> Inl (MongoFailure ''error decoding'') | Some x \<Rightarrow> Inr x))"

definition mgo_GetDevice :: "'db mongo \<Rightarrow> 'db MongoStore \<Rightarrow> string \<Rightarrow> error + Device" where
  "mgo_GetDevice M s i =
     (case find_decode M ''devices'' [(''id'', CEq (BStr i))] unmarshal_device (mgs_db s) of
        Inl ErrNoDocuments \<Rightarrow> Inl ErrNotFound
      | Inl err \<Rightarrow> Inl (go_error err)
      | Inr doc \<Rightarrow> Inr (docToDevice doc))"

text \<open>The cursor loop of the list methods: a document that does not decode is skipped.\<close>

definition read_all :: "(bdoc \<Rightarrow> 'd option) \<Rightarrow> ('d \<Rightarrow> 'x) \<Rightarrow> mongo_error + bdoc list \<Rightarrow> 'x list" where
  "read_all dec conv res =
     (case res of Inl _ \<Rightarrow> [] | Inr ds \<Rightarrow> map conv (List.map_filter dec ds))"

definition mgo_ListDevices :: "'db mongo \<Rightarrow> 'db MongoStore \<Rightarrow> Device list" where
  "mgo_ListDevices M s = read_all unmarshal_device docToDevice
     (mongo_Find M ''devices'' [] [(''registered_at'', 1)] 0 (mgs_db s))"

text \<open>\<open>UpdateOne\<close> and the reading of its result.\<close>

definition update_one :: "'db mongo \<Rightarrow> string \<Rightarrow> bfilter \<Rightarrow> (string \<times> bson) list \<Rightarrow> 'db MongoStore
    \<Rightarrow> error option \<times> 'db MongoStore" where
  "update_one M c f upds s =
     (case mongo_UpdateOne M c f upds (mgs_db s) of
        (Inl err, db) \<Rightarrow> (Some (go_error err), s\<lparr>mgs_db := db\<rparr>)
      | (Inr matched, db) \<Rightarrow> (if matched = 0 then Some ErrNotFound else None, s\<lparr>mgs_db := db\<rparr>))"

definition mgo_UpdateDevice :: "'db mongo \<Rightarrow> 'db MongoStore \<Rightarrow> string \<Rightarrow> string \<Rightarrow> string \<Rightarrow> string
    \<Rightarrow> metadata \<Rightarrow> error option \<times> 'db MongoStore" where
  "mgo_UpdateDevice M s i name deviceType location metadata =
     update_one M ''devices'' [(''id'', CEq (BStr i))]
       [(''name'', BStr name), (''type'', BStr deviceType), (''location'', BStr location),
        (''metadata'', BStrMap metadata)] s"

definition mgo_UpdateDeviceStatus :: "'db mongo \<Rightarrow> 'db MongoStore \<Rightarrow> string \<Rightarrow> DeviceStatus \<Rightarrow> time
    \<Rightarrow> error option \<times> 'db MongoStore" where
  "mgo_UpdateDeviceStatus M s i status seen =
     update_one M ''devices'' [(''id'', CEq (BStr i))]
       ([(''status'', BStr status)]
        @ (if \<not> IsZero seen then [(''last_seen_at'', BTime (mongo_Date M seen))] else [])) s"

definition mgo_DeleteDevice :: "'db mongo \<Rightarrow> 'db MongoStore \<Rightarrow> string \<Rightarrow> error option \<times> 'db MongoStore" where
  "mgo_DeleteDevice M s i =
     (case mongo_DeleteOne M ''devices'' [(''id'', CEq (BStr i))] (mgs_db s) of
        (Inl err, db) \<Rightarrow> (Some (go_error err), s\<lparr>mgs_db := db\<rparr>)
      | (Inr deleted, db) \<Rightarrow>
          if deleted = 0 then (Some ErrNotFound, s\<lparr>mgs_db := db\<rparr>)
          else let db1 = snd (mongo_DeleteMany M ''telemetry'' [(''device_id'', CEq (BStr i))] db);
                   db2 = snd (mongo_DeleteMany M ''alerts'' [(''device_id'', CEq (BStr i))] db1)
               in (None, s\<lparr>mgs_db := db2\<rparr>))"

definition doc_id :: "bdoc \<Rightarrow> bson" where
  "doc_id d = (case fmlookup d ''_id'' of Some v \<Rightarrow> v | None \<Rightarrow> BNull)"

definition trimHistory :: "'db mongo \<Rightarrow> int \<Rightarrow> string \<Rightarrow> 'db \<Rightarrow> 'db" where
  "trimHistory M maxHistory deviceID db =
     (if maxHistory \<le> 0 then db
      else case mongo_CountDocuments M ''telemetry'' [(''device_id'', CEq (BStr deviceID))] db of
             Inl _ \<Rightarrow> db
           | Inr n \<Rightarrow>
               if int n \<le> maxHistory then db
               else let excess = int n - maxHistory
                    in case mongo_Find M ''telemetry'' [(''device_id'', CEq (BStr deviceID))]
                              [(''timestamp'', 1)] excess db of
                         Inl _ \<Rightarrow> db
                       | Inr ds \<Rightarrow>
                           (let ids = map doc_id ds
                            in if 0 < length ids
                               then snd (mongo_DeleteMany M ''telemetry'' [(''_id'', CIn ids)] db)
                               else db))"

definition mgo_AddTelemetry :: "'db mongo \<Rightarrow> 'db MongoStore \<Rightarrow> Telemetry \<Rightarrow> error option \<times> 'db MongoStore" where
  "mgo_AddTelemetry M s t =
     (case mongo_FindOne M ''devices'' [(''id'', CEq (BStr (tel_DeviceID t)))] (mgs_db s) of
        Inl ErrNoDocuments \<Rightarrow> (Some ErrNotFound, s)
      | Inl err \<Rightarrow> (Some (go_error err), s)
      | Inr _ \<Rightarrow>
          (case mongo_InsertOne M ''telemetry'' (marshal_telemetry M \<lparr>td_DeviceID = tel_DeviceID t,
                  td_Timestamp = tel_Timestamp t, td_Metrics = tel_Metrics t\<rparr>) (mgs_db s) of
             (Some err, db) \<Rightarrow> (Some (go_error err), s\<lparr>mgs_db := db\<rparr>)
           | (None, db) \<Rightarrow>
               (None, s\<lparr>mgs_db := trimHistory M (mgs_maxHistory s) (tel_DeviceID t) db\<rparr>)))"

definition mgo_GetTelemetry :: "'db mongo \<Rightarrow> 'db MongoStore \<Rightarrow> string \<Rightarrow> time \<Rightarrow> int \<Rightarrow> Telemetry list" where
  "mgo_GetTelemetry M s deviceID since limit =
     (let filt = [(''device_id'', CEq (BStr deviceID))]
            @ (if \<not> IsZero since then [(''timestamp'', CGte (BTime (mongo_Date M since)))] else []);
          out = read_all unmarshal_telemetry docToTelemetry
            (if 0 < limit then mongo_Find M ''telemetry'' filt [(''timestamp'', -1)] limit (mgs_db s)
             else mongo_Find M ''telemetry'' filt [(''timestamp'', 1)] 0 (mgs_db s))
      in if 0 < limit then rev out else out)"

definition mgo_AddAlert :: "'db mongo \<Rightarrow> 'db MongoStore \<Rightarrow> Alert \<Rightarrow> error option \<times> 'db MongoStore" where
  "mgo_AddAlert M s a =
     (case mongo_InsertOne M ''alerts'' (marshal_alert M (alertToDoc a)) (mgs_db s) of
        (err, db) \<Rightarrow> (map_option go_error err, s\<lparr>mgs_db := db\<rparr>))"

definition mgo_ListAlerts :: "'db mongo \<Rightarrow> 'db MongoStore \<Rightarrow> string \<Rightarrow> Alert list" where
  "mgo_ListAlerts M s deviceID = read_all unmarshal_alert docToAlert
     (mongo_Find M ''alerts'' (if deviceID \<noteq> '''' then [(''device_id'', CEq (BStr deviceID))] else [])
        [(''created_at'', 1)] 0 (mgs_db s))"

definition mongo_store :: "'db mongo \<Rightarrow> 'db MongoStore Store" where
  "mongo_store M =
     \<lparr>CreateDevice = mgo_CreateDevice M, GetDevice = mgo_GetDevice M,
      ListDevices = (\<lambda>_ _. mgo_ListDevices M), UpdateDevice = mgo_UpdateDevice M,
      UpdateDeviceStatus = mgo_UpdateDeviceStatus M, DeleteDevice = mgo_DeleteDevice M,
      AddTelemetry = mgo_AddTelemetry M, GetTelemetry = mgo_GetTelemetry M,
      AddAlert = mgo_AddAlert M, ListAlerts = (\<lambda>_ _. mgo_ListAlerts M)\<rparr>"

section \<open>Users and refresh tokens\<close>

definition mgo_CreateUser :: "'db mongo \<Rightarrow> 'db MongoStore \<Rightarrow> User \<Rightarrow> error option \<times> 'db MongoStore" where
  "mgo_CreateUser M s u =
     (case mongo_InsertOne M ''users'' (marshal_user M (userToDoc u)) (mgs_db s) of
        (err, db) \<Rightarrow> (case err of
                        None \<Rightarrow> None
                      | Some (DuplicateKey _) \<Rightarrow> Some ErrDuplicateUser
                      | Some e \<Rightarrow> Some (go_error e), s\<lparr>mgs_db := db\<rparr>))"

definition findUser :: "'db mongo \<Rightarrow> 'db MongoStore \<Rightarrow> bfilter \<Rightarrow> error + User" where
  "findUser M s f =
     (case find_decode M ''users'' f unmarshal_user (mgs_db s) of
        Inl ErrNoDocuments \<Rightarrow> Inl ErrNotFound
      | Inl err \<Rightarrow> Inl (go_error err)
      | Inr doc \<Rightarrow> Inr (docToUser doc))"

definition mgo_GetUserByUsername :: "'db mongo \<Rightarrow> 'db MongoStore \<Rightarrow> string \<Rightarrow> error + User" where
  "mgo_GetUserByUsername M s username = findUser M s [(''username'', CEq (BStr username))]"

definition mgo_GetUserByID :: "'db mongo \<Rightarrow> 'db MongoStore \<Rightarrow> string \<Rightarrow> error + User" where
  "mgo_GetUserByID M s i = findUser M s [(''id'', CEq (BStr i))]"

definition mgo_ListUsers :: "'db mongo \<Rightarrow> 'db MongoStore \<Rightarrow> User list" where
  "mgo_ListUsers M s = read_all unmarshal_user docToUser
     (mongo_Find M ''users'' [] [(''created_at'', 1)] 0 (mgs_db s))"

definition mgo_UpdateUser :: "'db mongo \<Rightarrow> 'db MongoStore \<Rightarrow> User \<Rightarrow> error option \<times> 'db MongoStore" where
  "mgo_UpdateUser M s u =
     update_one M ''users'' [(''id'', CEq (BStr (usr_ID u)))]
       [(''roles'', BStrs (usr_Roles u)), (''password_hash'', BStr (usr_PasswordHash u))] s"

definition mgo_DeleteUser :: "'db mongo \<Rightarrow> 'db MongoStore \<Rightarrow> string \<Rightarrow> error option \<times> 'db MongoStore" where
  "mgo_DeleteUser M s i =
     (case mongo_DeleteOne M ''users'' [(''id'', CEq (BStr i))] (mgs_db s) of
        (Inl err, db) \<Rightarrow> (Some (go_error err), s\<lparr>mgs_db := db\<rparr>)
      | (Inr deleted, db) \<Rightarrow>
          if deleted = 0 then (Some ErrNotFound, s\<lparr>mgs_db := db\<rparr>)
          else (None, s\<lparr>mgs_db :=
            snd (mongo_DeleteMany M ''refresh_tokens'' [(''user_id'', CEq (BStr i))] db)\<rparr>))"

definition mgo_StoreRefreshToken :: "'db mongo \<Rightarrow> 'db MongoStore \<Rightarrow> RefreshToken
    \<Rightarrow> error option \<times> 'db MongoStore" where
  "mgo_StoreRefreshToken M s rt =
     (case mongo_InsertOne M ''refresh_tokens'' (marshal_refresh M \<lparr>rd_TokenHash = rt_TokenHash rt,
             rd_UserID = rt_UserID rt, rd_ExpiresAt = rt_ExpiresAt rt, rd_CreatedAt = rt_CreatedAt rt\<rparr>)
             (mgs_db s) of
        (err, db) \<Rightarrow> (map_option go_error err, s\<lparr>mgs_db := db\<rparr>))"

definition docToToken :: "refreshDoc \<Rightarrow> RefreshToken" where
  "docToToken doc = \<lparr>rt_TokenHash = rd_TokenHash doc, rt_UserID = rd_UserID doc,
     rt_ExpiresAt = rd_ExpiresAt doc, rt_CreatedAt = rd_CreatedAt doc\<rparr>"

definition mgo_GetRefreshToken :: "'db mongo \<Rightarrow> time \<Rightarrow> 'db MongoStore \<Rightarrow> string \<Rightarrow> error + RefreshToken" where
  "mgo_GetRefreshToken M now s tokenHash =
     (case find_decode M ''refresh_tokens'' [(''token_hash'', CEq (BStr tokenHash))] unmarshal_refresh
             (mgs_db s) of
        Inl ErrNoDocuments \<Rightarrow> Inl ErrNotFound
      | Inl err \<Rightarrow> Inl (go_error err)
      | Inr doc \<Rightarrow> if \<not> IsZero (rd_ExpiresAt doc) \<and> After now (rd_ExpiresAt doc) then Inl ErrNotFound
                   else Inr (docToToken doc))"

definition mgo_DeleteRefreshToken :: "'db mongo \<Rightarrow> 'db MongoStore \<Rightarrow> string
    \<Rightarrow> error option \<times> 'db MongoStore" where
  "mgo_DeleteRefreshToken M s tokenHash =
     (case mongo_DeleteOne M ''refresh_tokens'' [(''token_hash'', CEq (BStr tokenHash))] (mgs_db s) of
        (res, db) \<Rightarrow> (case res of Inl err \<Rightarrow> Some (go_error err) | Inr _ \<Rightarrow> None, s\<lparr>mgs_db := db\<rparr>))"

definition mgo_DeleteUserRefreshTokens :: "'db mongo \<Rightarrow> 'db MongoStore \<Rightarrow> string
    \<Rightarrow> error option \<times> 'db MongoStore" where
  "mgo_DeleteUserRefreshTokens M s userID =
     (case mongo_DeleteMany M ''refresh_tokens'' [(''user_id'', CEq (BStr userID))] (mgs_db s) of
        (res, db) \<Rightarrow> (case res of Inl err \<Rightarrow> Some (go_error err) | Inr _ \<Rightarrow> None, s\<lparr>mgs_db := db\<rparr>))"

definition mongo_user_store :: "'db mongo \<Rightarrow> 'db MongoStore UserStore" where
  "mongo_user_store M =
     \<lparr>CreateUser = (\<lambda>_. mgo_CreateUser M), GetUserByUsername = (\<lambda>_. mgo_GetUserByUsername M),
      GetUserByID = mgo_GetUserByID M, ListUsers = (\<lambda>_ _. mgo_ListUsers M),
      UpdateUser = mgo_UpdateUser M, DeleteUser = (\<lambda>_. mgo_DeleteUser M),
      StoreRefreshToken = mgo_StoreRefreshToken M, GetRefreshToken = mgo_GetRefreshToken M,
      DeleteRefreshToken = mgo_DeleteRefreshToken M,
      DeleteUserRefreshTokens = (\<lambda>_. mgo_DeleteUserRefreshTokens M)\<rparr>"

end
