(* ===== verification/Mongo_Driver.thy ===== *)
theory Mongo_Driver
  imports Mongo "HOL-Library.Multiset"
begin

text \<open>
  What the MongoDB documentation promises of the driver calls, as the hypothesis \<open>mongo_ok\<close> on
  the driver \<open>M\<close>. It is stated over three views of the database: \<open>docs db c\<close>, the documents of
  the collection \<open>c\<close> in some order, \<open>uniq db c\<close>, the fields with a unique index, and \<open>up db\<close>,
  that calls reach the database. A reference database of document lists satisfies it.
\<close>

section \<open>Filters and updates\<close>

fun cond_holds :: "bcond \<Rightarrow> bson option \<Rightarrow> bool" where
  "cond_holds (CEq v) x \<longleftrightarrow> x = Some v"
| "cond_holds (CGte v) x \<longleftrightarrow> (case (v, x) of (BTime a, Some (BTime b)) \<Rightarrow> a \<le> b | _ \<Rightarrow> False)"
| "cond_holds (CIn vs) x \<longleftrightarrow> list_ex (\<lambda>v. x = Some v) vs"

definition matches :: "bfilter \<Rightarrow> bdoc \<Rightarrow> bool" where
  "matches f d \<longleftrightarrow> list_all (\<lambda>(k, c). cond_holds c (fmlookup d k)) f"

lemma matches_simps [simp]:
  "matches [] d" "matches ((k, c) # f) d \<longleftrightarrow> cond_holds c (fmlookup d k) \<and> matches f d"
  by (simp_all add: matches_def)

definition set_fields :: "(string \<times> bson) list \<Rightarrow> bdoc \<Rightarrow> bdoc" where
  "set_fields kvs d = fold (\<lambda>(k, v). fmupd k v) kvs d"

lemma set_fields_simps [simp]:
  "set_fields [] d = d" "set_fields ((k, v) # kvs) d = set_fields kvs (fmupd k v d)"
  by (simp_all add: set_fields_def)

definition date_of :: "string \<Rightarrow> bdoc \<Rightarrow> time" where
  "date_of k d = (case fmlookup d k of Some (BTime t) \<Rightarrow> t | _ \<Rightarrow> 0)"

definition clash :: "string set \<Rightarrow> bdoc list \<Rightarrow> bdoc \<Rightarrow> bool" where
  "clash ks ds d \<longleftrightarrow> (\<exists>k \<in> ks. \<exists>e \<in> set ds. fmlookup e k = fmlookup d k)"

section \<open>The documented behaviour\<close>

type_synonym 'db docs_view = "'db \<Rightarrow> string \<Rightarrow> bdoc list"
type_synonym 'db uniq_view = "'db \<Rightarrow> string \<Rightarrow> string set"

text \<open>A call that leaves \<open>ds\<close> in collection \<open>c\<close> and everything else as it was.\<close>

definition becomes :: "'db docs_view \<Rightarrow> 'db uniq_view \<Rightarrow> ('db \<Rightarrow> bool) \<Rightarrow> 'db \<Rightarrow> string \<Rightarrow> bdoc list
    \<Rightarrow> 'db \<Rightarrow> bool" where
  "becomes docs uniq up db c ds db' \<longleftrightarrow> up db' \<and> uniq db' = uniq db \<and> docs db' = (docs db)(c := ds)"

definition date_spec :: "'db mongo \<Rightarrow> bool" where
  "date_spec M \<longleftrightarrow> mono (mongo_Date M) \<and> (\<forall>t. mongo_Date M (mongo_Date M t) = mongo_Date M t)"

text \<open>An insert fails on a duplicate key and otherwise adds the document with a new \<open>_id\<close>.\<close>

definition insert_spec :: "'db mongo \<Rightarrow> 'db docs_view \<Rightarrow> 'db uniq_view \<Rightarrow> ('db \<Rightarrow> bool) \<Rightarrow> bool" where
  "insert_spec M docs uniq up \<longleftrightarrow> (\<forall>db c d. up db \<longrightarrow> fmlookup d ''_id'' = None \<longrightarrow>
     (if clash (uniq db c) (docs db c) d
      then \<exists>msg. mongo_InsertOne M c d db = (Some (DuplicateKey msg), db)
      else \<exists>i db'. mongo_InsertOne M c d db = (None, db')
        \<and> Some (BId i) \<notin> (\<lambda>e. fmlookup e ''_id'') ` set (docs db c)
        \<and> becomes docs uniq up db c (docs db c @ [fmupd ''_id'' (BId i) d]) db'))"

definition find_one_spec :: "'db mongo \<Rightarrow> 'db docs_view \<Rightarrow> ('db \<Rightarrow> bool) \<Rightarrow> bool" where
  "find_one_spec M docs up \<longleftrightarrow> (\<forall>db c f. up db \<longrightarrow>
     (case mongo_FindOne M c f db of
        Inl err \<Rightarrow> err = ErrNoDocuments \<and> (\<forall>d \<in> set (docs db c). \<not> matches f d)
      | Inr d \<Rightarrow> d \<in> set (docs db c) \<and> matches f d))"

text \<open>
  A query returns the matching documents in the order of the sort field, if they all hold a date
  there; with a limit, the first of them.
\<close>

definition find_spec :: "'db mongo \<Rightarrow> 'db docs_view \<Rightarrow> ('db \<Rightarrow> bool) \<Rightarrow> bool" where
  "find_spec M docs up \<longleftrightarrow> (\<forall>db c f k dir limit. up db \<longrightarrow> dir \<in> {1, -1} \<longrightarrow> 0 \<le> limit \<longrightarrow>
     (\<forall>d \<in> set (docs db c). matches f d \<longrightarrow> (\<exists>t. fmlookup d k = Some (BTime t))) \<longrightarrow>
     (\<exists>ds. mset ds = mset (filter (matches f) (docs db c)) \<and> sorted (map (\<lambda>d. dir * date_of k d) ds)
        \<and> mongo_Find M c f [(k, dir)] limit db
            = Inr (if limit = 0 then ds else take (nat limit) ds)))"

definition update_spec :: "'db mongo \<Rightarrow> 'db docs_view \<Rightarrow> 'db uniq_view \<Rightarrow> ('db \<Rightarrow> bool) \<Rightarrow> bool" where
  "update_spec M docs uniq up \<longleftrightarrow> (\<forall>db c f upds. up db \<longrightarrow>
     fst ` set upds \<inter> insert ''_id'' (uniq db c) = {} \<longrightarrow>
     (if \<exists>d \<in> set (docs db c). matches f d
      then \<exists>xs d ys db'. docs db c = xs @ d # ys \<and> matches f d
        \<and> mongo_UpdateOne M c f upds db = (Inr 1, db')
        \<and> becomes docs uniq up db c (xs @ set_fields upds d # ys) db'
      else mongo_UpdateOne M c f upds db = (Inr 0, db)))"

definition delete_one_spec :: "'db mongo \<Rightarrow> 'db docs_view \<Rightarrow> 'db uniq_view \<Rightarrow> ('db \<Rightarrow> bool) \<Rightarrow> bool" where
  "delete_one_spec M docs uniq up \<longleftrightarrow> (\<forall>db c f. up db \<longrightarrow>
     (if \<exists>d \<in> set (docs db c). matches f d
      then \<exists>xs d ys db'. docs db c = xs @ d # ys \<and> matches f d
        \<and> mongo_DeleteOne M c f db = (Inr 1, db') \<and> becomes docs uniq up db c (xs @ ys) db'
      else mongo_DeleteOne M c f db = (Inr 0, db)))"

definition delete_many_spec :: "'db mongo \<Rightarrow> 'db docs_view \<Rightarrow> 'db uniq_view \<Rightarrow> ('db \<Rightarrow> bool) \<Rightarrow> bool" where
  "delete_many_spec M docs uniq up \<longleftrightarrow> (\<forall>db c f. up db \<longrightarrow>
     (\<exists>n db'. mongo_DeleteMany M c f db = (Inr n, db')
        \<and> becomes docs uniq up db c (filter (\<lambda>d. \<not> matches f d) (docs db c)) db'))"

definition count_spec :: "'db mongo \<Rightarrow> 'db docs_view \<Rightarrow> ('db \<Rightarrow> bool) \<Rightarrow> bool" where
  "count_spec M docs up \<longleftrightarrow> (\<forall>db c f. up db \<longrightarrow>
     mongo_CountDocuments M c f db = Inr (length (filter (matches f) (docs db c))))"

text \<open>
  Creating indexes succeeds if no unique one is violated by the documents already there. A unique
  index over one field is a unique field.
\<close>

definition index_spec :: "'db mongo \<Rightarrow> 'db docs_view \<Rightarrow> 'db uniq_view \<Rightarrow> ('db \<Rightarrow> bool) \<Rightarrow> bool" where
  "index_spec M docs uniq up \<longleftrightarrow> (\<forall>db c ixs. up db \<longrightarrow>
     (\<forall>(ks, u) \<in> set ixs. u \<longrightarrow> length ks = 1 \<and> distinct (map (\<lambda>d. fmlookup d (hd ks)) (docs db c))) \<longrightarrow>
     (\<exists>db'. mongo_CreateIndexes M c ixs db = (None, db') \<and> up db' \<and> docs db' = docs db
        \<and> uniq db' = (uniq db)(c := uniq db c \<union> {k. ([k], True) \<in> set ixs})))"

definition mongo_ok :: "'db mongo \<Rightarrow> 'db docs_view \<Rightarrow> 'db uniq_view \<Rightarrow> ('db \<Rightarrow> bool) \<Rightarrow> bool" where
  "mongo_ok M docs uniq up \<longleftrightarrow> date_spec M \<and> insert_spec M docs uniq up \<and> find_one_spec M docs up
     \<and> find_spec M docs up \<and> update_spec M docs uniq up \<and> delete_one_spec M docs uniq up
     \<and> delete_many_spec M docs uniq up \<and> count_spec M docs up \<and> index_spec M docs uniq up"

lemma mongo_okD:
  assumes "mongo_ok M docs uniq up"
  shows "date_spec M" "insert_spec M docs uniq up" "find_one_spec M docs up" "find_spec M docs up"
    "update_spec M docs uniq up" "delete_one_spec M docs uniq up" "delete_many_spec M docs uniq up"
    "count_spec M docs up" "index_spec M docs uniq up"
  using assms by (simp_all add: mongo_ok_def)

lemma update_match:
  assumes "mongo_ok M docs uniq up" "up db" "fst ` set upds \<inter> insert ''_id'' (uniq db c) = {}"
    and "\<exists>d \<in> set (docs db c). matches f d"
  shows "\<exists>xs d ys db'. docs db c = xs @ d # ys \<and> matches f d
        \<and> mongo_UpdateOne M c f upds db = (Inr 1, db')
        \<and> becomes docs uniq up db c (xs @ set_fields upds d # ys) db'"
  using mongo_okD(5) [OF assms(1), unfolded update_spec_def, rule_format, OF assms(2,3), of f]
  by (simp only: assms(4) if_True)

lemma update_no_match:
  assumes "mongo_ok M docs uniq up" "up db" "fst ` set upds \<inter> insert ''_id'' (uniq db c) = {}"
    and "\<not> (\<exists>d \<in> set (docs db c). matches f d)"
  shows "mongo_UpdateOne M c f upds db = (Inr 0, db)"
  using mongo_okD(5) [OF assms(1), unfolded update_spec_def, rule_format, OF assms(2,3), of f]
  by (simp only: assms(4) if_False)

lemma delete_match:
  assumes "mongo_ok M docs uniq up" "up db" "\<exists>d \<in> set (docs db c). matches f d"
  shows "\<exists>xs d ys db'. docs db c = xs @ d # ys \<and> matches f d
        \<and> mongo_DeleteOne M c f db = (Inr 1, db') \<and> becomes docs uniq up db c (xs @ ys) db'"
  using mongo_okD(6) [OF assms(1), unfolded delete_one_spec_def, rule_format, OF assms(2), where c = c and f = f]
  by (simp only: assms(3) if_True)

lemma delete_no_match:
  assumes "mongo_ok M docs uniq up" "up db" "\<not> (\<exists>d \<in> set (docs db c). matches f d)"
  shows "mongo_DeleteOne M c f db = (Inr 0, db)"
  using mongo_okD(6) [OF assms(1), unfolded delete_one_spec_def, rule_format, OF assms(2), where c = c and f = f]
  by (simp only: assms(3) if_False)

lemma insert_new:
  assumes "mongo_ok M docs uniq up" "up db" "fmlookup d ''_id'' = None" "\<not> clash (uniq db c) (docs db c) d"
  shows "\<exists>i db'. mongo_InsertOne M c d db = (None, db')
        \<and> Some (BId i) \<notin> (\<lambda>e. fmlookup e ''_id'') ` set (docs db c)
        \<and> becomes docs uniq up db c (docs db c @ [fmupd ''_id'' (BId i) d]) db'"
  using mongo_okD(2) [OF assms(1), unfolded insert_spec_def, rule_format, OF assms(2,3), of c]
  by (simp only: assms(4) if_False)

lemma insert_clash:
  assumes "mongo_ok M docs uniq up" "up db" "fmlookup d ''_id'' = None" "clash (uniq db c) (docs db c) d"
  shows "\<exists>msg. mongo_InsertOne M c d db = (Some (DuplicateKey msg), db)"
  using mongo_okD(2) [OF assms(1), unfolded insert_spec_def, rule_format, OF assms(2,3), of c]
  by (simp only: assms(4) if_True)

lemma delete_all:
  assumes "mongo_ok M docs uniq up" "up db"
  shows "\<exists>n db'. mongo_DeleteMany M c f db = (Inr n, db')
        \<and> becomes docs uniq up db c (filter (\<lambda>d. \<not> matches f d) (docs db c)) db'"
  using mongo_okD(7) [OF assms(1)] assms(2) unfolding delete_many_spec_def by blast

lemma find_sorted:
  assumes "mongo_ok M docs uniq up" "up db" "dir \<in> {1, -1}" "0 \<le> limit"
    and "\<And>d. \<lbrakk>d \<in> set (docs db c); matches f d\<rbrakk> \<Longrightarrow> \<exists>t. fmlookup d k = Some (BTime t)"
  obtains ds where "mset ds = mset (filter (matches f) (docs db c))"
    "sorted (map (\<lambda>d. dir * date_of k d) ds)"
    "mongo_Find M c f [(k, dir)] limit db = Inr (if limit = 0 then ds else take (nat limit) ds)"
  using mongo_okD(4) [OF assms(1), unfolded find_spec_def, rule_format, OF assms(2-4), of c f k] assms(5)
  by blast

section \<open>A reference database\<close>

text \<open>
  Collections as lists, dates with the precision of a millisecond, identifiers counted up. It
  shows that the hypothesis can hold.
\<close>

record listdb =
  ld_docs :: "string \<Rightarrow> bdoc list"
  ld_uniq :: "string \<Rightarrow> string set"
  ld_next :: nat

definition ld_put :: "string \<Rightarrow> bdoc list \<Rightarrow> listdb \<Rightarrow> listdb" where
  "ld_put c ds db = db\<lparr>ld_docs := (ld_docs db)(c := ds)\<rparr>"

definition ld_sort :: "string \<Rightarrow> int \<Rightarrow> bdoc list \<Rightarrow> bdoc list" where
  "ld_sort k dir ds = sort_key (\<lambda>d. dir * date_of k d) ds"

fun update_first :: "(bdoc \<Rightarrow> bool) \<Rightarrow> (bdoc \<Rightarrow> bdoc list) \<Rightarrow> bdoc list \<Rightarrow> bdoc list" where
  "update_first P g [] = []"
| "update_first P g (d # ds) = (if P d then g d @ ds else d # update_first P g ds)"

definition list_mongo :: "listdb mongo" where
  "list_mongo = \<lparr>
     mongo_Date = (\<lambda>t. t div Millisecond * Millisecond),
     mongo_Connect = (\<lambda>_ _. Inr \<lparr>ld_docs = (\<lambda>_. []), ld_uniq = (\<lambda>_. {}), ld_next = 0\<rparr>),
     mongo_Ping = (\<lambda>_. None),
     mongo_CreateIndexes = (\<lambda>c ixs db. (None, db\<lparr>ld_uniq := (ld_uniq db)(c := ld_uniq db c
        \<union> {k. ([k], True) \<in> set ixs})\<rparr>)),
     mongo_InsertOne = (\<lambda>c d db. if clash (ld_uniq db c) (ld_docs db c) d
        then (Some (DuplicateKey ''E11000''), db)
        else (None, (ld_put c (ld_docs db c @ [fmupd ''_id'' (BId (ld_next db)) d]) db)
               \<lparr>ld_next := Suc (ld_next db)\<rparr>)),
     mongo_FindOne = (\<lambda>c f db. case find (matches f) (ld_docs db c) of
        None \<Rightarrow> Inl ErrNoDocuments | Some d \<Rightarrow> Inr d),
     mongo_Find = (\<lambda>c f srt limit db.
        let ds = fold (\<lambda>(k, dir). ld_sort k dir) (rev srt) (filter (matches f) (ld_docs db c))
        in Inr (if limit = 0 then ds else take (nat limit) ds)),
     mongo_UpdateOne = (\<lambda>c f upds db. if list_ex (matches f) (ld_docs db c)
        then (Inr 1, ld_put c (update_first (matches f) (\<lambda>d. [set_fields upds d]) (ld_docs db c)) db)
        else (Inr 0, db)),
     mongo_DeleteOne = (\<lambda>c f db. if list_ex (matches f) (ld_docs db c)
        then (Inr 1, ld_put c (update_first (matches f) (\<lambda>_. []) (ld_docs db c)) db)
        else (Inr 0, db)),
     mongo_DeleteMany = (\<lambda>c f db. (Inr (length (filter (matches f) (ld_docs db c))),
        ld_put c (filter (\<lambda>d. \<not> matches f d) (ld_docs db c)) db)),
     mongo_CountDocuments = (\<lambda>c f db. Inr (length (filter (matches f) (ld_docs db c))))\<rparr>"

definition ld_ids :: "nat \<Rightarrow> bdoc \<Rightarrow> bool" where
  "ld_ids n d \<longleftrightarrow> (\<exists>i<n. fmlookup d ''_id'' = Some (BId i))"

definition ld_ok :: "listdb \<Rightarrow> bool" where
  "ld_ok db \<longleftrightarrow> (\<forall>c. \<forall>d \<in> set (ld_docs db c). ld_ids (ld_next db) d)"

lemma update_first_split:
  assumes "list_ex P ds"
  obtains xs d ys where "ds = xs @ d # ys" "P d" "\<And>g. update_first P g ds = xs @ g d @ ys"
proof -
  have "\<exists>xs d ys. ds = xs @ d # ys \<and> P d \<and> (\<forall>g. update_first P g ds = xs @ g d @ ys)"
    using assms
  proof (induction ds)
    case (Cons e ds)
    show ?case
    proof (cases "P e")
      case True
      then show ?thesis by (intro exI [of _ "[]"]) simp
    next
      case False
      with Cons obtain xs d ys where "ds = xs @ d # ys" "P d"
        "\<forall>g. update_first P g ds = xs @ g d @ ys" by auto
      with False show ?thesis by (intro exI [of _ "e # xs"]) auto
    qed
  qed simp
  then show thesis using that by blast
qed

lemma set_fields_id:
  "''_id'' \<notin> fst ` set upds \<Longrightarrow> fmlookup (set_fields upds d) ''_id'' = fmlookup d ''_id''"
  by (induction upds arbitrary: d) auto

lemma ld_ids_mono: "\<lbrakk>ld_ids n d; n \<le> m\<rbrakk> \<Longrightarrow> ld_ids m d"
  by (meson ld_ids_def less_le_trans)

lemma ld_okD: "\<lbrakk>ld_ok db; d \<in> set (ld_docs db c)\<rbrakk> \<Longrightarrow> ld_ids (ld_next db) d"
  by (auto simp: ld_ok_def)

lemma ld_ok_put: "\<lbrakk>ld_ok db; \<forall>d \<in> set ds. ld_ids (ld_next db) d\<rbrakk> \<Longrightarrow> ld_ok (ld_put c ds db)"
  by (simp add: ld_ok_def ld_put_def)

lemma list_mongo_ok: "mongo_ok list_mongo ld_docs ld_uniq ld_ok"
proof -
  have "date_spec list_mongo"
    by (auto simp: date_spec_def list_mongo_def mono_def Millisecond_def intro!: mult_right_mono zdiv_mono1)
  moreover have "insert_spec list_mongo ld_docs ld_uniq ld_ok"
  proof -
    have "Some (BId (ld_next db)) \<notin> (\<lambda>e. fmlookup e ''_id'') ` set (ld_docs db c)"
      if "ld_ok db" for db c
      using that by (fastforce simp: ld_ok_def ld_ids_def)
    moreover have "ld_ok ((ld_put c (ld_docs db c @ [fmupd ''_id'' (BId (ld_next db)) d]) db)
               \<lparr>ld_next := Suc (ld_next db)\<rparr>)" if "ld_ok db" for db c d
      using that ld_ids_mono [OF _ le_SucI [OF order_refl]]
      by (auto simp: ld_ok_def ld_put_def) (simp add: ld_ids_def)
    ultimately show ?thesis
      by (auto simp: insert_spec_def becomes_def list_mongo_def ld_put_def)
  qed
  moreover have "find_one_spec list_mongo ld_docs ld_ok"
    by (auto simp: find_one_spec_def list_mongo_def find_Some_iff find_None_iff split: option.splits)
  moreover have "find_spec list_mongo ld_docs ld_ok"
    by (auto simp: find_spec_def list_mongo_def ld_sort_def Let_def
        intro!: exI [where P = "\<lambda>ds. mset ds = _ ds \<and> _ ds"])
  moreover have "update_spec list_mongo ld_docs ld_uniq ld_ok"
  proof -
    have "\<exists>xs d ys db'. ld_docs db c = xs @ d # ys \<and> matches f d
        \<and> mongo_UpdateOne list_mongo c f upds db = (Inr 1, db')
        \<and> becomes ld_docs ld_uniq ld_ok db c (xs @ set_fields upds d # ys) db'"
      if db: "ld_ok db" "''_id'' \<notin> fst ` set upds" "list_ex (matches f) (ld_docs db c)" for db c f upds
    proof -
      from update_first_split [OF db(3)] obtain xs d ys where *: "ld_docs db c = xs @ d # ys"
        "matches f d" "\<And>g. update_first (matches f) g (ld_docs db c) = xs @ g d @ ys" by blast
      have all: "\<forall>e \<in> set (xs @ d # ys). ld_ids (ld_next db) e" using ld_okD [OF db(1)] *(1) by metis
      then have "ld_ids (ld_next db) (set_fields upds d)" using db(2) by (simp add: ld_ids_def set_fields_id)
      with all have "ld_ok (ld_put c (xs @ set_fields upds d # ys) db)"
        by (intro ld_ok_put [OF db(1)]) simp
      with * db(3) show ?thesis
        by (intro exI [of _ xs] exI [of _ d] exI [of _ ys])
          (simp add: list_mongo_def becomes_def ld_put_def)
    qed
    then show ?thesis by (auto simp: update_spec_def list_ex_iff list_mongo_def)
  qed
  moreover have "delete_one_spec list_mongo ld_docs ld_uniq ld_ok"
  proof -
    have "\<exists>xs d ys db'. ld_docs db c = xs @ d # ys \<and> matches f d
        \<and> mongo_DeleteOne list_mongo c f db = (Inr 1, db')
        \<and> becomes ld_docs ld_uniq ld_ok db c (xs @ ys) db'"
      if db: "ld_ok db" "list_ex (matches f) (ld_docs db c)" for db c f
    proof -
      from update_first_split [OF db(2)] obtain xs d ys where *: "ld_docs db c = xs @ d # ys"
        "matches f d" "\<And>g. update_first (matches f) g (ld_docs db c) = xs @ g d @ ys" by blast
      have "\<forall>e \<in> set (xs @ d # ys). ld_ids (ld_next db) e" using ld_okD [OF db(1)] *(1) by metis
      then have "ld_ok (ld_put c (xs @ ys) db)" by (intro ld_ok_put [OF db(1)]) simp
      with * db(2) show ?thesis
        by (intro exI [of _ xs] exI [of _ d] exI [of _ ys])
          (simp add: list_mongo_def becomes_def ld_put_def)
    qed
    then show ?thesis by (auto simp: delete_one_spec_def list_ex_iff list_mongo_def)
  qed
  moreover have "delete_many_spec list_mongo ld_docs ld_uniq ld_ok"
    by (auto simp: delete_many_spec_def list_mongo_def becomes_def ld_put_def ld_ok_def)
  moreover have "count_spec list_mongo ld_docs ld_ok"
    by (simp add: count_spec_def list_mongo_def)
  moreover have "index_spec list_mongo ld_docs ld_uniq ld_ok"
    by (auto simp: index_spec_def list_mongo_def ld_ok_def)
  ultimately show ?thesis by (simp add: mongo_ok_def)
qed

end
