(* ===== verification/Store_Contract.thy ===== *)
theory Store_Contract
  imports Memory_Store
begin

text \<open>
  What the clients of the store rely on. \<open>store_contract\<close> is the contract of the \<open>Store\<close>
  interface over three abstract views of the state: the registered devices as a map, and
  the telemetry and the alerts kept for a device as multisets, since an implementation is
  free to keep them in any order and to choose which points it drops beyond its cap. A database
  may keep a time at a lower precision than Go's clock: \<open>keep\<close> is what it keeps of a time.
  \<open>user_contract\<close> is the contract of \<open>UserStore\<close>: users by identifier with unique
  usernames, and refresh tokens by hash. The clients' lemmas are proved once, from the
  laws alone.
\<close>

definition kept_device :: "(time \<Rightarrow> time) \<Rightarrow> Device \<Rightarrow> Device" where
  "kept_device keep d = d\<lparr>dev_RegisteredAt := keep (dev_RegisteredAt d),
     dev_LastSeenAt := keep (dev_LastSeenAt d)\<rparr>"

definition kept_telemetry :: "(time \<Rightarrow> time) \<Rightarrow> Telemetry \<Rightarrow> Telemetry" where
  "kept_telemetry keep t = t\<lparr>tel_Timestamp := keep (tel_Timestamp t)\<rparr>"

definition kept_alert :: "(time \<Rightarrow> time) \<Rightarrow> Alert \<Rightarrow> Alert" where
  "kept_alert keep a = a\<lparr>al_CreatedAt := keep (al_CreatedAt a)\<rparr>"

definition kept_user :: "(time \<Rightarrow> time) \<Rightarrow> User \<Rightarrow> User" where
  "kept_user keep u = u\<lparr>usr_CreatedAt := keep (usr_CreatedAt u)\<rparr>"

definition kept_token :: "(time \<Rightarrow> time) \<Rightarrow> RefreshToken \<Rightarrow> RefreshToken" where
  "kept_token keep r = r\<lparr>rt_ExpiresAt := keep (rt_ExpiresAt r), rt_CreatedAt := keep (rt_CreatedAt r)\<rparr>"

lemmas kept_defs = kept_device_def kept_telemetry_def kept_alert_def kept_user_def kept_token_def

lemma kept_id [simp]:
  "kept_device id d = d" "kept_telemetry id t = t" "kept_alert id a = a" "kept_user id u = u"
  "kept_token id r = r" "kept_alert id = id"
  by (simp_all add: kept_defs fun_eq_iff)

lemma kept_keys [simp]:
  "dev_ID (kept_device keep d) = dev_ID d" "tel_DeviceID (kept_telemetry keep t) = tel_DeviceID t"
  "al_DeviceID (kept_alert keep a) = al_DeviceID a" "usr_ID (kept_user keep u) = usr_ID u"
  "usr_Username (kept_user keep u) = usr_Username u" "rt_TokenHash (kept_token keep r) = rt_TokenHash r"
  "rt_UserID (kept_token keep r) = rt_UserID r"
  by (simp_all add: kept_defs)

locale device_contract =
  fixes ops :: "'s Store"
    and keep :: "time \<Rightarrow> time"
    and inv :: "'s \<Rightarrow> bool"
    and dev :: "'s \<Rightarrow> string \<rightharpoonup> Device"
  assumes get_device: "inv s \<Longrightarrow>
      GetDevice ops s i = (case dev s i of None \<Rightarrow> Inl ErrNotFound | Some d \<Rightarrow> Inr d)"
    and dev_keyed: "\<lbrakk>inv s; dev s i = Some d\<rbrakk> \<Longrightarrow> dev_ID d = i"
    and list_set: "inv s \<Longrightarrow> set (ListDevices ops p q s) = ran (dev s)"
    and list_distinct: "inv s \<Longrightarrow> distinct (map dev_ID (ListDevices ops p q s))"
    and list_sorted: "inv s \<Longrightarrow> sorted (map dev_RegisteredAt (ListDevices ops p q s))"
    and create_fresh: "\<lbrakk>inv s; dev s (dev_ID d) = None; CreateDevice ops s d = (e, s')\<rbrakk>
      \<Longrightarrow> e = None \<and> inv s' \<and> dev s' = (dev s)(dev_ID d \<mapsto> kept_device keep d)"
    and create_taken: "\<lbrakk>inv s; dev s (dev_ID d) \<noteq> None\<rbrakk>
      \<Longrightarrow> CreateDevice ops s d = (Some ErrDeviceExists, s)"
    and update_known: "\<lbrakk>inv s; dev s i = Some d; UpdateDevice ops s i n t l m = (e, s')\<rbrakk>
      \<Longrightarrow> e = None \<and> inv s' \<and> dev s' = (dev s)(i \<mapsto>
            d\<lparr>dev_Name := n, dev_Type := t, dev_Location := l, dev_Metadata := m\<rparr>)"
    and update_unknown: "\<lbrakk>inv s; dev s i = None\<rbrakk>
      \<Longrightarrow> UpdateDevice ops s i n t l m = (Some ErrNotFound, s)"
    and status_known: "\<lbrakk>inv s; dev s i = Some d; UpdateDeviceStatus ops s i st seen = (e, s')\<rbrakk>
      \<Longrightarrow> e = None \<and> inv s' \<and> dev s' = (dev s)(i \<mapsto>
            d\<lparr>dev_Status := st,
              dev_LastSeenAt := (if IsZero seen then dev_LastSeenAt d else keep seen)\<rparr>)"
    and status_unknown: "\<lbrakk>inv s; dev s i = None\<rbrakk>
      \<Longrightarrow> UpdateDeviceStatus ops s i st seen = (Some ErrNotFound, s)"
    and delete_known: "\<lbrakk>inv s; dev s i = Some d; DeleteDevice ops s i = (e, s')\<rbrakk>
      \<Longrightarrow> e = None \<and> inv s' \<and> dev s' = (dev s)(i := None)"
    and delete_unknown: "\<lbrakk>inv s; dev s i = None\<rbrakk> \<Longrightarrow> DeleteDevice ops s i = (Some ErrNotFound, s)"
begin

lemma get_after_create:
  "\<lbrakk>inv s; CreateDevice ops s d = (None, s')\<rbrakk> \<Longrightarrow> GetDevice ops s' (dev_ID d) = Inr (kept_device keep d)"
  using create_fresh [of s d None s'] create_taken [of s d] get_device [of s' "dev_ID d"]
  by (cases "dev s (dev_ID d)") auto

lemma get_after_delete:
  "\<lbrakk>inv s; DeleteDevice ops s i = (None, s')\<rbrakk> \<Longrightarrow> GetDevice ops s' i = Inl ErrNotFound"
  using delete_known [of s i _ None s'] delete_unknown [of s i] get_device [of s' i]
  by (cases "dev s i") auto

lemma delete_frame:
  "\<lbrakk>inv s; DeleteDevice ops s i = (e, s'); j \<noteq> i\<rbrakk> \<Longrightarrow> GetDevice ops s' j = GetDevice ops s j"
  using delete_known [of s i _ e s'] delete_unknown [of s i] get_device [of s' j] get_device [of s j]
  by (cases "dev s i") auto

lemma status_inv: "\<lbrakk>inv s; UpdateDeviceStatus ops s i st seen = (e, s')\<rbrakk> \<Longrightarrow> inv s'"
  using status_known [of s i _ st seen e s'] status_unknown [of s i st seen]
  by (cases "dev s i") auto

lemma status_dom:
  "\<lbrakk>inv s; UpdateDeviceStatus ops s i st seen = (e, s')\<rbrakk> \<Longrightarrow> dom (dev s') = dom (dev s)"
  using status_known [of s i _ st seen e s'] status_unknown [of s i st seen]
  by (cases "dev s i") auto

lemma list_lookup: "\<lbrakk>inv s; d \<in> set (ListDevices ops p q s)\<rbrakk> \<Longrightarrow> dev s (dev_ID d) = Some d"
  using list_set [of s p q] dev_keyed by (auto simp: ran_def)

end

locale store_contract = device_contract ops keep inv dev
  for ops :: "'s Store" and keep :: "time \<Rightarrow> time" and inv :: "'s \<Rightarrow> bool"
    and dev :: "'s \<Rightarrow> string \<rightharpoonup> Device" +
  fixes tel :: "'s \<Rightarrow> string \<Rightarrow> Telemetry multiset"
    and alr :: "'s \<Rightarrow> string \<Rightarrow> Alert multiset"
    and cap :: "'s \<Rightarrow> int"
  assumes tel_known: "\<lbrakk>inv s; dev s (tel_DeviceID t) = Some d; AddTelemetry ops s t = (e, s')\<rbrakk>
      \<Longrightarrow> e = None \<and> inv s' \<and> dev s' = dev s \<and> alr s' = alr s \<and> cap s' = cap s
        \<and> (\<forall>k. k \<noteq> tel_DeviceID t \<longrightarrow> tel s' k = tel s k)
        \<and> tel s' (tel_DeviceID t) \<subseteq># add_mset (kept_telemetry keep t) (tel s (tel_DeviceID t))
        \<and> int (size (tel s' (tel_DeviceID t))) =
            (if 0 < cap s then min (cap s) (int (size (tel s (tel_DeviceID t))) + 1)
             else int (size (tel s (tel_DeviceID t))) + 1)"
    and tel_unknown: "\<lbrakk>inv s; dev s (tel_DeviceID t) = None\<rbrakk>
      \<Longrightarrow> AddTelemetry ops s t = (Some ErrNotFound, s)"
    and tel_cap: "\<lbrakk>inv s; 0 < cap s\<rbrakk> \<Longrightarrow> int (size (tel s k)) \<le> cap s"
    and tel_orphan_free: "\<lbrakk>inv s; dev s k = None\<rbrakk> \<Longrightarrow> tel s k = {#}"
    and status_frame: "\<lbrakk>inv s; UpdateDeviceStatus ops s i st seen = (e, s')\<rbrakk>
      \<Longrightarrow> tel s' = tel s \<and> alr s' = alr s \<and> cap s' = cap s"
    and create_frame: "\<lbrakk>inv s; CreateDevice ops s d = (e, s')\<rbrakk>
      \<Longrightarrow> tel s' = tel s \<and> alr s' = alr s \<and> cap s' = cap s"
    and delete_data: "\<lbrakk>inv s; DeleteDevice ops s i = (None, s')\<rbrakk>
      \<Longrightarrow> tel s' = (tel s)(i := {#}) \<and> alr s' = (alr s)(i := {#}) \<and> cap s' = cap s"
    and add_alert: "\<lbrakk>inv s; AddAlert ops s a = (e, s')\<rbrakk>
      \<Longrightarrow> e = None \<and> inv s' \<and> dev s' = dev s \<and> tel s' = tel s \<and> cap s' = cap s
        \<and> alr s' = (alr s)(al_DeviceID a := add_mset (kept_alert keep a) (alr s (al_DeviceID a)))"
    and list_alerts: "\<lbrakk>inv s; i \<noteq> ''''\<rbrakk> \<Longrightarrow> mset (ListAlerts ops p q s i) = alr s i"
begin

lemma tel_inv: "\<lbrakk>inv s; AddTelemetry ops s t = (e, s')\<rbrakk> \<Longrightarrow> inv s'"
  using tel_known [of s t _ e s'] tel_unknown [of s t]
  by (cases "dev s (tel_DeviceID t)") auto

lemma tel_dev: "\<lbrakk>inv s; AddTelemetry ops s t = (e, s')\<rbrakk> \<Longrightarrow> dev s' = dev s"
  using tel_known [of s t _ e s'] tel_unknown [of s t]
  by (cases "dev s (tel_DeviceID t)") auto

lemma deleted_device_has_no_data:
  assumes "inv s" "DeleteDevice ops s i = (None, s')" "i \<noteq> ''''"
  shows "GetDevice ops s' i = Inl ErrNotFound \<and> tel s' i = {#} \<and> ListAlerts ops p q s' i = []"
proof -
  from assms have inv': "inv s'"
    using delete_known [of s i _ None s'] delete_unknown [of s i] by (cases "dev s i") auto
  from delete_data [OF assms(1,2)] have none: "tel s' i = {#}" "alr s' i = {#}" by simp_all
  with list_alerts [OF inv' assms(3), of p q] have "ListAlerts ops p q s' i = []" by simp
  with none get_after_delete [OF assms(1,2)] show ?thesis by simp
qed

end

locale user_contract =
  fixes uops :: "'s UserStore"
    and keep :: "time \<Rightarrow> time"
    and inv :: "'s \<Rightarrow> bool"
    and usr :: "'s \<Rightarrow> string \<rightharpoonup> User"
    and tok :: "'s \<Rightarrow> string \<rightharpoonup> RefreshToken"
  assumes usr_keyed: "\<lbrakk>inv s; usr s i = Some u\<rbrakk> \<Longrightarrow> usr_ID u = i"
    and usr_unique: "\<lbrakk>inv s; usr s i = Some u; usr s j = Some v; usr_Username u = usr_Username v\<rbrakk>
      \<Longrightarrow> i = j"
    and tok_keyed: "\<lbrakk>inv s; tok s h = Some r\<rbrakk> \<Longrightarrow> rt_TokenHash r = h"
    and by_id: "inv s \<Longrightarrow>
      GetUserByID uops s i = (case usr s i of None \<Rightarrow> Inl ErrNotFound | Some u \<Rightarrow> Inr u)"
    and by_name_found: "inv s \<Longrightarrow>
      GetUserByUsername uops p s n = Inr u \<longleftrightarrow> usr s (usr_ID u) = Some u \<and> usr_Username u = n"
    and by_name_error: "inv s \<Longrightarrow> GetUserByUsername uops p s n = Inl err \<Longrightarrow> err = ErrNotFound"
    and create_user: "\<lbrakk>inv s; usr s (usr_ID u) = None;
        \<forall>i v. usr s i = Some v \<longrightarrow> usr_Username v \<noteq> usr_Username u; CreateUser uops p s u = (e, s')\<rbrakk>
      \<Longrightarrow> e = None \<and> inv s' \<and> usr s' = (usr s)(usr_ID u \<mapsto> kept_user keep u) \<and> tok s' = tok s"
    and create_duplicate: "\<lbrakk>inv s; usr s i = Some v; usr_Username v = usr_Username u\<rbrakk>
      \<Longrightarrow> CreateUser uops p s u = (Some ErrDuplicateUser, s)"
    and update_user: "\<lbrakk>inv s; usr s (usr_ID u) = Some v; usr_Username v = usr_Username u;
        usr_CreatedAt v = usr_CreatedAt u; UpdateUser uops s u = (e, s')\<rbrakk>
      \<Longrightarrow> e = None \<and> inv s' \<and> usr s' = (usr s)(usr_ID u \<mapsto> u) \<and> tok s' = tok s"
    and update_missing: "\<lbrakk>inv s; usr s (usr_ID u) = None\<rbrakk>
      \<Longrightarrow> UpdateUser uops s u = (Some ErrNotFound, s)"
    and delete_user: "\<lbrakk>inv s; usr s i = Some v; DeleteUser uops p s i = (e, s')\<rbrakk>
      \<Longrightarrow> e = None \<and> inv s' \<and> usr s' = (usr s)(i := None)
        \<and> tok s' = (\<lambda>h. case tok s h of None \<Rightarrow> None
                       | Some r \<Rightarrow> if rt_UserID r = i then None else Some r)"
    and delete_missing: "\<lbrakk>inv s; usr s i = None\<rbrakk>
      \<Longrightarrow> DeleteUser uops p s i = (Some ErrNotFound, s)"
    and put_token: "\<lbrakk>inv s; tok s (rt_TokenHash r) = None; StoreRefreshToken uops s r = (e, s')\<rbrakk>
      \<Longrightarrow> e = None \<and> inv s' \<and> usr s' = usr s \<and> tok s' = (tok s)(rt_TokenHash r \<mapsto> kept_token keep r)"
    and get_token: "inv s \<Longrightarrow> GetRefreshToken uops now s h =
        (case tok s h of None \<Rightarrow> Inl ErrNotFound
         | Some r \<Rightarrow> if \<not> IsZero (rt_ExpiresAt r) \<and> After now (rt_ExpiresAt r)
                     then Inl ErrNotFound else Inr r)"
    and drop_token: "\<lbrakk>inv s; DeleteRefreshToken uops s h = (e, s')\<rbrakk>
      \<Longrightarrow> e = None \<and> inv s' \<and> usr s' = usr s \<and> tok s' = (tok s)(h := None)"
    and drop_user_tokens: "\<lbrakk>inv s; DeleteUserRefreshTokens uops p s i = (e, s')\<rbrakk>
      \<Longrightarrow> e = None \<and> inv s' \<and> usr s' = usr s
        \<and> tok s' = (\<lambda>h. case tok s h of None \<Rightarrow> None
                       | Some r \<Rightarrow> if rt_UserID r = i then None else Some r)"
begin

lemma by_name_missing:
  assumes "inv s" "\<forall>i v. usr s i = Some v \<longrightarrow> usr_Username v \<noteq> n"
  shows "GetUserByUsername uops p s n = Inl ErrNotFound"
  using by_name_found [OF assms(1), of p n] by_name_error [OF assms(1), of p n] assms(2)
  by (cases "GetUserByUsername uops p s n") auto

lemma by_name_known:
  assumes "inv s" "usr s i = Some u"
  shows "GetUserByUsername uops p s (usr_Username u) = Inr u"
  using by_name_found [OF assms(1), of p "usr_Username u" u] usr_keyed [OF assms] assms(2)
  by simp

lemma create_error:
  assumes "inv s" "usr s (usr_ID u) = None" "CreateUser uops p s u = (Some err, s')"
  shows "err = ErrDuplicateUser \<and> s' = s"
proof (cases "\<exists>i v. usr s i = Some v \<and> usr_Username v = usr_Username u")
  case True
  then show ?thesis using create_duplicate assms(1,3) by fastforce
next
  case False
  then show ?thesis using create_user [OF assms(1,2) _ assms(3)] by blast
qed

lemma create_inv:
  assumes "inv s" "usr s (usr_ID u) = None" "CreateUser uops p s u = (e, s')"
  shows "inv s'"
proof (cases "\<exists>i v. usr s i = Some v \<and> usr_Username v = usr_Username u")
  case True
  then show ?thesis using create_duplicate assms(1,3) by fastforce
next
  case False
  then show ?thesis using create_user [OF assms(1,2) _ assms(3)] by blast
qed

end

end
