(* ===== verification/Mongo_Docs.thy ===== *)
theory Mongo_Docs
  imports Mongo_Driver Store_Contract
begin

text \<open>
  Collections of documents as their clients see them. The locale \<open>keyed_docs\<close> is what a
  collection with a unique string field offers on every driver with the documented behaviour;
  devices, users (by identifier and by name) and refresh tokens are such collections. The
  invariant of the MongoDB store and the views of its contents follow.
\<close>

section \<open>Lists with a key\<close>

definition keyed :: "('x \<Rightarrow> string) \<Rightarrow> 'x list \<Rightarrow> string \<rightharpoonup> 'x" where
  "keyed key xs = map_of (map (\<lambda>x. (key x, x)) xs)"

lemma keyed_Nil [simp]: "keyed key [] = Map.empty"
  by (simp add: keyed_def)

lemma keyed_Some: "keyed key xs i = Some x \<Longrightarrow> x \<in> set xs \<and> key x = i"
  by (auto simp: keyed_def dest: map_of_SomeD)

lemma keyed_None: "keyed key xs i = None \<longleftrightarrow> i \<notin> key ` set xs"
  by (force simp: keyed_def map_of_eq_None_iff)

lemma keyed_mem: "\<lbrakk>distinct (map key xs); x \<in> set xs\<rbrakk> \<Longrightarrow> keyed key xs (key x) = Some x"
  by (auto simp: keyed_def comp_def intro!: map_of_is_SomeI)

lemma ran_keyed: "distinct (map key xs) \<Longrightarrow> ran (keyed key xs) = set xs"
  using keyed_mem [of key xs] keyed_Some [of key xs] by (fastforce simp: ran_def)

lemma keyed_split:
  assumes "distinct (map key (xs @ x # ys))"
  shows "keyed key (xs @ ys) = (keyed key (xs @ x # ys))(key x := None)"
    and "key y = key x \<Longrightarrow> keyed key (xs @ y # ys) = (keyed key (xs @ x # ys))(key x \<mapsto> y)"
    and "keyed key (xs @ x # ys) (key x) = Some x"
proof -
  have "key x \<notin> key ` set xs" "key x \<notin> key ` set ys" using assms by auto
  then have none: "keyed key xs (key x) = None" "keyed key ys (key x) = None"
    by (simp_all add: keyed_None)
  have app: "keyed key (us @ vs) = keyed key vs ++ keyed key us" for us vs
    by (simp add: keyed_def)
  have cons: "keyed key (v # vs) = (keyed key vs)(key v \<mapsto> v)" for v vs
    by (simp add: keyed_def)
  show "keyed key (xs @ ys) = (keyed key (xs @ x # ys))(key x := None)"
    using none by (auto simp: app cons map_add_def fun_eq_iff split: option.splits)
  show "keyed key (xs @ y # ys) = (keyed key (xs @ x # ys))(key x \<mapsto> y)" if "key y = key x"
    using none that by (auto simp: app cons map_add_def fun_eq_iff split: option.splits)
  show "keyed key (xs @ x # ys) (key x) = Some x"
    using none by (simp add: app cons map_add_def)
qed

lemma keyed_snoc:
  assumes "key x \<notin> key ` set xs"
  shows "keyed key (xs @ [x]) = (keyed key xs)(key x \<mapsto> x)"
proof -
  have "keyed key xs (key x) = None" using assms by (simp add: keyed_None)
  then show ?thesis by (auto simp: keyed_def map_add_def fun_eq_iff split: option.splits)
qed

lemma keyed_filter:
  assumes "distinct (map key xs)"
  shows "keyed key (filter P xs) = (\<lambda>i. case keyed key xs i of
    None \<Rightarrow> None | Some x \<Rightarrow> if P x then Some x else None)"
  using assms
proof (induction xs)
  case (Cons x xs)
  have "keyed key xs (key x) = None" using Cons.prems by (simp add: keyed_None)
  with Cons show ?case by (auto simp: keyed_def fun_eq_iff split: option.splits)
qed simp

section \<open>Collections of documents\<close>

definition val :: "(bdoc \<Rightarrow> 'd option) \<Rightarrow> ('d \<Rightarrow> 'x) \<Rightarrow> bdoc \<Rightarrow> 'x" where
  "val dec conv d = conv (the (dec d))"

lemma read_all_map:
  assumes "\<forall>d \<in> set ds. dec d \<noteq> None"
  shows "read_all dec conv (Inr ds) = map (val dec conv) ds"
  using assms by (induction ds) (auto simp: read_all_def val_def map_filter_simps)

locale keyed_docs =
  fixes coll field :: string
    and dec :: "bdoc \<Rightarrow> 'd option"
    and conv :: "'d \<Rightarrow> 'x"
    and key :: "'x \<Rightarrow> string"
    and ok :: "bdoc \<Rightarrow> bool"
  assumes ok_dec: "ok d \<Longrightarrow> \<exists>y. dec d = Some y \<and> fmlookup d field = Some (BStr (key (conv y)))"
begin

lemma field_val: "ok d \<Longrightarrow> fmlookup d field = Some (BStr (key (val dec conv d)))"
  using ok_dec [of d] by (auto simp: val_def)

lemma matches_key: "ok d \<Longrightarrow> matches [(field, CEq (BStr i))] d \<longleftrightarrow> key (val dec conv d) = i"
  using field_val [of d] by auto

lemma clash_key:
  assumes "\<forall>e \<in> set ds. ok e" "fmlookup d field = Some (BStr i)"
  shows "clash {field} ds d \<longleftrightarrow> i \<in> key ` set (map (val dec conv) ds)"
  using assms field_val by (auto simp: clash_def)

lemma distinct_field:
  assumes "\<forall>d \<in> set ds. ok d"
  shows "distinct (map (\<lambda>d. fmlookup d field) ds) \<longleftrightarrow> distinct (map key (map (val dec conv) ds))"
proof -
  have "map (\<lambda>d. fmlookup d field) ds = map (\<lambda>i. Some (BStr i)) (map key (map (val dec conv) ds))"
    using assms field_val by simp
  then show ?thesis by (simp only: distinct_map) (auto simp: inj_on_def distinct_map)
qed

lemma find_key:
  assumes "mongo_ok M docs uniq up" "up db" "\<forall>d \<in> set (docs db coll). ok d"
    and "distinct (map key (map (val dec conv) (docs db coll)))"
  shows "case find_decode M coll [(field, CEq (BStr i))] dec db of
      Inl err \<Rightarrow> err = ErrNoDocuments \<and> keyed key (map (val dec conv) (docs db coll)) i = None
    | Inr y \<Rightarrow> keyed key (map (val dec conv) (docs db coll)) i = Some (conv y)"
proof -
  have spec: "case mongo_FindOne M coll [(field, CEq (BStr i))] db of
      Inl err \<Rightarrow> err = ErrNoDocuments \<and> (\<forall>d \<in> set (docs db coll). \<not> matches [(field, CEq (BStr i))] d)
    | Inr d \<Rightarrow> d \<in> set (docs db coll) \<and> matches [(field, CEq (BStr i))] d"
    using assms(1,2) unfolding mongo_ok_def find_one_spec_def by blast
  show ?thesis
  proof (cases "mongo_FindOne M coll [(field, CEq (BStr i))] db")
    case (Inl err)
    with spec assms(3) show ?thesis by (auto simp: find_decode_def keyed_None field_val)
  next
    case (Inr d)
    with spec have d: "d \<in> set (docs db coll)" "matches [(field, CEq (BStr i))] d" by auto
    with assms(3) obtain y where y: "dec d = Some y" using ok_dec by blast
    have "keyed key (map (val dec conv) (docs db coll)) (key (val dec conv d)) = Some (val dec conv d)"
      using keyed_mem [OF assms(4)] d(1) by simp
    moreover have "key (val dec conv d) = i" using matches_key d assms(3) by blast
    ultimately show ?thesis using Inr y by (simp add: find_decode_def val_def)
  qed
qed

text \<open>The filter on the key selects exactly the document of a known key.\<close>

lemma some_match:
  assumes "\<forall>d \<in> set ds. ok d"
  shows "(\<exists>d \<in> set ds. matches [(field, CEq (BStr i))] d)
    \<longleftrightarrow> keyed key (map (val dec conv) ds) i \<noteq> None"
  using assms matches_key keyed_None [of key "map (val dec conv) ds" i] by auto

lemma update_key:
  assumes "mongo_ok M docs uniq up" "up db" "\<forall>d \<in> set (docs db coll). ok d"
    and "distinct (map key (map (val dec conv) (docs db coll)))"
    and "fst ` set upds \<inter> insert ''_id'' (uniq db coll) = {}"
    and "keyed key (map (val dec conv) (docs db coll)) i = Some x"
    and "\<And>d. \<lbrakk>ok d; val dec conv d = x\<rbrakk>
           \<Longrightarrow> ok (set_fields upds d) \<and> val dec conv (set_fields upds d) = x'" "key x' = key x"
  shows "\<exists>ds db'. mongo_UpdateOne M coll [(field, CEq (BStr i))] upds db = (Inr 1, db')
    \<and> becomes docs uniq up db coll ds db' \<and> (\<forall>d \<in> set ds. ok d)
    \<and> map key (map (val dec conv) ds) = map key (map (val dec conv) (docs db coll))
    \<and> keyed key (map (val dec conv) ds) = (keyed key (map (val dec conv) (docs db coll)))(i \<mapsto> x')
    \<and> (\<exists>us vs. map (val dec conv) (docs db coll) = us @ x # vs \<and> map (val dec conv) ds = us @ x' # vs)"
proof -
  have "\<exists>d \<in> set (docs db coll). matches [(field, CEq (BStr i))] d"
    using some_match [OF assms(3)] assms(6) by blast
  from update_match [OF assms(1,2,5) this]
  obtain us d vs db' where split: "docs db coll = us @ d # vs"
    "matches [(field, CEq (BStr i))] d"
    "mongo_UpdateOne M coll [(field, CEq (BStr i))] upds db = (Inr 1, db')"
    "becomes docs uniq up db coll (us @ set_fields upds d # vs) db'"
    by blast
  have okd: "ok d" using assms(3) split(1) by simp
  then have key: "key (val dec conv d) = i" using matches_key split(2) by blast
  let ?v = "val dec conv"
  have dist: "distinct (map key (map ?v us @ ?v d # map ?v vs))" using assms(4) split(1) by simp
  have vx: "?v d = x" using keyed_split(3) [OF dist] assms(6) split(1) key by simp
  note new = assms(7) [OF okd vx]
  have "keyed key (map ?v (us @ set_fields upds d # vs)) = (keyed key (map ?v (docs db coll)))(i \<mapsto> x')"
    using keyed_split(2) [OF dist, of x'] new vx key assms(8) split(1) by simp
  moreover have "\<forall>e \<in> set (us @ set_fields upds d # vs). ok e" using assms(3) split(1) new by simp
  moreover have "map key (map ?v (us @ set_fields upds d # vs)) = map key (map ?v (docs db coll))"
    using new vx split(1) assms(8) by simp
  moreover have "\<exists>ps qs. map ?v (docs db coll) = ps @ x # qs
      \<and> map ?v (us @ set_fields upds d # vs) = ps @ x' # qs"
    using new vx split(1) by auto
  ultimately show ?thesis using split(3,4) by blast
qed

lemma update_missing:
  assumes "mongo_ok M docs uniq up" "up db" "\<forall>d \<in> set (docs db coll). ok d"
    and "fst ` set upds \<inter> insert ''_id'' (uniq db coll) = {}"
    and "keyed key (map (val dec conv) (docs db coll)) i = None"
  shows "mongo_UpdateOne M coll [(field, CEq (BStr i))] upds db = (Inr 0, db)"
  by (rule update_no_match [OF assms(1,2,4)]) (use assms(5) some_match [OF assms(3), of i] in blast)

lemma delete_key:
  assumes "mongo_ok M docs uniq up" "up db" "\<forall>d \<in> set (docs db coll). ok d"
    and "distinct (map key (map (val dec conv) (docs db coll)))"
    and "keyed key (map (val dec conv) (docs db coll)) i = Some x"
  shows "\<exists>ds db'. mongo_DeleteOne M coll [(field, CEq (BStr i))] db = (Inr 1, db')
    \<and> becomes docs uniq up db coll ds db' \<and> (\<forall>d \<in> set ds. ok d)
    \<and> (\<exists>us vs. map (val dec conv) (docs db coll) = us @ x # vs \<and> map (val dec conv) ds = us @ vs)
    \<and> keyed key (map (val dec conv) ds) = (keyed key (map (val dec conv) (docs db coll)))(i := None)"
proof -
  have "\<exists>d \<in> set (docs db coll). matches [(field, CEq (BStr i))] d"
    using some_match [OF assms(3)] assms(5) by blast
  from delete_match [OF assms(1,2) this]
  obtain us d vs db' where split: "docs db coll = us @ d # vs"
    "matches [(field, CEq (BStr i))] d"
    "mongo_DeleteOne M coll [(field, CEq (BStr i))] db = (Inr 1, db')"
    "becomes docs uniq up db coll (us @ vs) db'"
    by blast
  let ?v = "val dec conv"
  have key: "key (?v d) = i" using matches_key split(1,2) assms(3) by simp
  have dist: "distinct (map key (map ?v us @ ?v d # map ?v vs))" using assms(4) split(1) by simp
  have vx: "?v d = x" using keyed_split(3) [OF dist] assms(5) split(1) key by simp
  have "keyed key (map ?v (us @ vs)) = (keyed key (map ?v (docs db coll)))(i := None)"
    using keyed_split(1) [OF dist] key split(1) by simp
  moreover have "\<forall>e \<in> set (us @ vs). ok e" using assms(3) split(1) by simp
  moreover have "\<exists>ps qs. map ?v (docs db coll) = ps @ x # qs \<and> map ?v (us @ vs) = ps @ qs"
    using vx split(1) by auto
  ultimately show ?thesis using split(3,4) by blast
qed

lemma delete_missing:
  assumes "mongo_ok M docs uniq up" "up db" "\<forall>d \<in> set (docs db coll). ok d"
    and "keyed key (map (val dec conv) (docs db coll)) i = None"
  shows "mongo_DeleteOne M coll [(field, CEq (BStr i))] db = (Inr 0, db)"
  by (rule delete_no_match [OF assms(1,2)]) (use assms(4) some_match [OF assms(3), of i] in blast)

end

section \<open>The document types\<close>

lemma get_other [simp]:
  "k \<noteq> k' \<Longrightarrow> get_str k (fmupd k' v d) = get_str k d"
  "k \<noteq> k' \<Longrightarrow> get_dbl k (fmupd k' v d) = get_dbl k d"
  "k \<noteq> k' \<Longrightarrow> get_time k (fmupd k' v d) = get_time k d"
  "k \<noteq> k' \<Longrightarrow> get_strs k (fmupd k' v d) = get_strs k d"
  "k \<noteq> k' \<Longrightarrow> get_strmap k (fmupd k' v d) = get_strmap k d"
  "k \<noteq> k' \<Longrightarrow> get_dblmap k (fmupd k' v d) = get_dblmap k d"
  by (simp_all add: get_defs)

lemma get_same [simp]:
  "get_str k (fmupd k (BStr s) d) = Some s" "get_time k (fmupd k (BTime t) d) = Some t"
  "get_strs k (fmupd k (BStrs xs) d) = Some xs" "get_strmap k (fmupd k (BStrMap m) d) = Some m"
  by (simp_all add: get_defs)

definition device_ok :: "bdoc \<Rightarrow> bool" where
  "device_ok d \<longleftrightarrow> (\<exists>y. unmarshal_device d = Some y \<and> fmlookup d ''id'' = Some (BStr (dd_ID y))
     \<and> fmlookup d ''registered_at'' = Some (BTime (dd_RegisteredAt y)))"

definition telemetry_ok :: "bdoc \<Rightarrow> bool" where
  "telemetry_ok d \<longleftrightarrow> (\<exists>y. unmarshal_telemetry d = Some y
     \<and> fmlookup d ''device_id'' = Some (BStr (td_DeviceID y))
     \<and> fmlookup d ''timestamp'' = Some (BTime (td_Timestamp y)))"

definition alert_ok :: "bdoc \<Rightarrow> bool" where
  "alert_ok d \<longleftrightarrow> (\<exists>y. unmarshal_alert d = Some y \<and> fmlookup d ''device_id'' = Some (BStr (ad_DeviceID y))
     \<and> fmlookup d ''created_at'' = Some (BTime (ad_CreatedAt y)))"

definition user_ok :: "bdoc \<Rightarrow> bool" where
  "user_ok d \<longleftrightarrow> (\<exists>y. unmarshal_user d = Some y \<and> fmlookup d ''id'' = Some (BStr (ud_ID y))
     \<and> fmlookup d ''username'' = Some (BStr (ud_Username y))
     \<and> fmlookup d ''created_at'' = Some (BTime (ud_CreatedAt y)))"

definition token_ok :: "bdoc \<Rightarrow> bool" where
  "token_ok d \<longleftrightarrow> (\<exists>y. unmarshal_refresh d = Some y \<and> fmlookup d ''token_hash'' = Some (BStr (rd_TokenHash y))
     \<and> fmlookup d ''user_id'' = Some (BStr (rd_UserID y)))"

abbreviation dev_of :: "bdoc \<Rightarrow> Device" where "dev_of \<equiv> val unmarshal_device docToDevice"
abbreviation tel_of :: "bdoc \<Rightarrow> Telemetry" where "tel_of \<equiv> val unmarshal_telemetry docToTelemetry"
abbreviation alert_of :: "bdoc \<Rightarrow> Alert" where "alert_of \<equiv> val unmarshal_alert docToAlert"
abbreviation user_of :: "bdoc \<Rightarrow> User" where "user_of \<equiv> val unmarshal_user docToUser"
abbreviation token_of :: "bdoc \<Rightarrow> RefreshToken" where "token_of \<equiv> val unmarshal_refresh docToToken"

interpretation devs: keyed_docs "''devices''" "''id''" unmarshal_device docToDevice dev_ID device_ok
  by unfold_locales (auto simp: device_ok_def docToDevice_def)

interpretation usrs: keyed_docs "''users''" "''id''" unmarshal_user docToUser usr_ID user_ok
  by unfold_locales (auto simp: user_ok_def docToUser_def)

interpretation names: keyed_docs "''users''" "''username''" unmarshal_user docToUser usr_Username user_ok
  by unfold_locales (auto simp: user_ok_def docToUser_def)

interpretation toks: keyed_docs "''refresh_tokens''" "''token_hash''" unmarshal_refresh docToToken
    rt_TokenHash token_ok
  by unfold_locales (auto simp: token_ok_def docToToken_def)

text \<open>A stored document decodes to the entity it was made from, with its dates as kept.\<close>

lemma stored_device:
  "device_ok (fmupd ''_id'' i (marshal_device M (deviceToDoc d)))"
  "dev_of (fmupd ''_id'' i (marshal_device M (deviceToDoc d))) = kept_device (mongo_Date M) d"
  by (simp_all add: device_ok_def val_def marshal_device_def unmarshal_device_def get_defs
      fmlookup_of_list deviceToDoc_def docToDevice_def kept_device_def)

lemma stored_telemetry:
  "telemetry_ok (fmupd ''_id'' i (marshal_telemetry M \<lparr>td_DeviceID = tel_DeviceID t,
     td_Timestamp = tel_Timestamp t, td_Metrics = tel_Metrics t\<rparr>))"
  "tel_of (fmupd ''_id'' i (marshal_telemetry M \<lparr>td_DeviceID = tel_DeviceID t,
     td_Timestamp = tel_Timestamp t, td_Metrics = tel_Metrics t\<rparr>)) = kept_telemetry (mongo_Date M) t"
  by (simp_all add: telemetry_ok_def val_def marshal_telemetry_def unmarshal_telemetry_def get_defs
      fmlookup_of_list docToTelemetry_def kept_telemetry_def)

lemma stored_alert:
  "alert_ok (fmupd ''_id'' i (marshal_alert M (alertToDoc a)))"
  "alert_of (fmupd ''_id'' i (marshal_alert M (alertToDoc a))) = kept_alert (mongo_Date M) a"
  by (simp_all add: alert_ok_def val_def marshal_alert_def unmarshal_alert_def get_defs
      fmlookup_of_list alertToDoc_def docToAlert_def kept_alert_def)

lemma stored_user:
  "user_ok (fmupd ''_id'' i (marshal_user M (userToDoc u)))"
  "user_of (fmupd ''_id'' i (marshal_user M (userToDoc u))) = kept_user (mongo_Date M) u"
  by (simp_all add: user_ok_def val_def marshal_user_def unmarshal_user_def get_defs
      fmlookup_of_list userToDoc_def docToUser_def kept_user_def)

lemma stored_token:
  "token_ok (fmupd ''_id'' i (marshal_refresh M \<lparr>rd_TokenHash = rt_TokenHash r,
     rd_UserID = rt_UserID r, rd_ExpiresAt = rt_ExpiresAt r, rd_CreatedAt = rt_CreatedAt r\<rparr>))"
  "token_of (fmupd ''_id'' i (marshal_refresh M \<lparr>rd_TokenHash = rt_TokenHash r,
     rd_UserID = rt_UserID r, rd_ExpiresAt = rt_ExpiresAt r, rd_CreatedAt = rt_CreatedAt r\<rparr>))
     = kept_token (mongo_Date M) r"
  by (simp_all add: token_ok_def val_def marshal_refresh_def unmarshal_refresh_def get_defs
      fmlookup_of_list docToToken_def kept_token_def)

lemma updated_device:
  assumes "device_ok d"
  shows "device_ok (set_fields [(''name'', BStr n), (''type'', BStr t), (''location'', BStr l),
      (''metadata'', BStrMap m)] d)" (is "device_ok ?d")
    and "dev_of (set_fields [(''name'', BStr n), (''type'', BStr t), (''location'', BStr l),
      (''metadata'', BStrMap m)] d) =
      (dev_of d)\<lparr>dev_Name := n, dev_Type := t, dev_Location := l, dev_Metadata := m\<rparr>"
  using assms
  by (auto simp: device_ok_def val_def unmarshal_device_def docToDevice_def bind_eq_Some_conv)

lemma updated_status:
  assumes "device_ok d"
  shows "device_ok (set_fields ([(''status'', BStr st)]
      @ (if \<not> IsZero seen then [(''last_seen_at'', BTime (mongo_Date M seen))] else [])) d)"
    and "dev_of (set_fields ([(''status'', BStr st)]
      @ (if \<not> IsZero seen then [(''last_seen_at'', BTime (mongo_Date M seen))] else [])) d) =
      (dev_of d)\<lparr>dev_Status := st,
        dev_LastSeenAt := (if IsZero seen then dev_LastSeenAt (dev_of d) else mongo_Date M seen)\<rparr>"
  using assms
  by (auto simp: device_ok_def val_def unmarshal_device_def docToDevice_def bind_eq_Some_conv)

lemma updated_user:
  assumes "user_ok d"
  shows "user_ok (set_fields [(''roles'', BStrs rs), (''password_hash'', BStr h)] d)"
    and "user_of (set_fields [(''roles'', BStrs rs), (''password_hash'', BStr h)] d) =
      (user_of d)\<lparr>usr_PasswordHash := h, usr_Roles := rs\<rparr>"
  using assms
  by (auto simp: user_ok_def val_def unmarshal_user_def docToUser_def bind_eq_Some_conv)

lemma marshal_no_id:
  "fmlookup (marshal_device M x1) ''_id'' = None" "fmlookup (marshal_telemetry M x2) ''_id'' = None"
  "fmlookup (marshal_alert M x3) ''_id'' = None" "fmlookup (marshal_user M x4) ''_id'' = None"
  "fmlookup (marshal_refresh M x5) ''_id'' = None"
  by (simp_all add: marshal_defs fmlookup_of_list)

lemma marshal_keys:
  "fmlookup (marshal_device M x1) ''id'' = Some (BStr (dd_ID x1))"
  "fmlookup (marshal_user M x4) ''id'' = Some (BStr (ud_ID x4))"
  "fmlookup (marshal_user M x4) ''username'' = Some (BStr (ud_Username x4))"
  "fmlookup (marshal_refresh M x5) ''token_hash'' = Some (BStr (rd_TokenHash x5))"
  by (simp_all add: marshal_defs fmlookup_of_list)

lemma matches_device_id:
  "telemetry_ok d \<Longrightarrow> matches [(''device_id'', CEq (BStr k))] d \<longleftrightarrow> tel_DeviceID (tel_of d) = k"
  "alert_ok d \<Longrightarrow> matches [(''device_id'', CEq (BStr k))] d \<longleftrightarrow> al_DeviceID (alert_of d) = k"
  "token_ok d \<Longrightarrow> matches [(''user_id'', CEq (BStr k))] d \<longleftrightarrow> rt_UserID (token_of d) = k"
  by (auto simp: telemetry_ok_def alert_ok_def token_ok_def val_def docToTelemetry_def docToAlert_def
      docToToken_def)

lemma ok_dates:
  "device_ok d \<Longrightarrow> fmlookup d ''registered_at'' = Some (BTime (dev_RegisteredAt (dev_of d)))"
  "telemetry_ok d \<Longrightarrow> fmlookup d ''timestamp'' = Some (BTime (tel_Timestamp (tel_of d)))"
  "alert_ok d \<Longrightarrow> fmlookup d ''created_at'' = Some (BTime (al_CreatedAt (alert_of d)))"
  "user_ok d \<Longrightarrow> fmlookup d ''created_at'' = Some (BTime (usr_CreatedAt (user_of d)))"
  by (auto simp: device_ok_def telemetry_ok_def alert_ok_def user_ok_def val_def docToDevice_def
      docToTelemetry_def docToAlert_def docToUser_def)

lemma ok_decodes:
  "device_ok d \<Longrightarrow> unmarshal_device d \<noteq> None" "telemetry_ok d \<Longrightarrow> unmarshal_telemetry d \<noteq> None"
  "alert_ok d \<Longrightarrow> unmarshal_alert d \<noteq> None" "user_ok d \<Longrightarrow> unmarshal_user d \<noteq> None"
  by (auto simp: device_ok_def telemetry_ok_def alert_ok_def user_ok_def)

section \<open>The invariant and the views of the store\<close>

definition devices_wf :: "bdoc list \<Rightarrow> bool" where
  "devices_wf ds \<longleftrightarrow> (\<forall>d \<in> set ds. device_ok d) \<and> distinct (map dev_ID (map dev_of ds))"

definition points :: "string \<Rightarrow> bdoc list \<Rightarrow> Telemetry multiset" where
  "points k ds = {#t \<in># mset (map tel_of ds). tel_DeviceID t = k#}"

text \<open>Telemetry documents have distinct identifiers, belong to registered devices \<open>ids\<close> and are capped.\<close>

definition telemetry_wf :: "string set \<Rightarrow> int \<Rightarrow> bdoc list \<Rightarrow> bool" where
  "telemetry_wf ids n ds \<longleftrightarrow>
     (\<forall>d \<in> set ds. telemetry_ok d \<and> fmlookup d ''_id'' \<noteq> None \<and> tel_DeviceID (tel_of d) \<in> ids)
   \<and> distinct (map (\<lambda>d. fmlookup d ''_id'') ds)
   \<and> (0 < n \<longrightarrow> (\<forall>k. int (size (points k ds)) \<le> n))"

definition users_wf :: "bdoc list \<Rightarrow> bool" where
  "users_wf ds \<longleftrightarrow> (\<forall>d \<in> set ds. user_ok d) \<and> distinct (map usr_ID (map user_of ds))
     \<and> distinct (map usr_Username (map user_of ds))"

definition tokens_wf :: "bdoc list \<Rightarrow> bool" where
  "tokens_wf ds \<longleftrightarrow> (\<forall>d \<in> set ds. token_ok d) \<and> distinct (map rt_TokenHash (map token_of ds))"

definition indexes_wf :: "(string \<Rightarrow> string set) \<Rightarrow> bool" where
  "indexes_wf u \<longleftrightarrow> u ''devices'' = {''id''} \<and> u ''telemetry'' = {} \<and> u ''alerts'' = {}
     \<and> u ''users'' = {''id'', ''username''} \<and> u ''refresh_tokens'' = {''token_hash''}"

definition docs_wf :: "int \<Rightarrow> (string \<Rightarrow> bdoc list) \<Rightarrow> bool" where
  "docs_wf n D \<longleftrightarrow> devices_wf (D ''devices'')
     \<and> telemetry_wf (set (map dev_ID (map dev_of (D ''devices'')))) n (D ''telemetry'')
     \<and> (\<forall>d \<in> set (D ''alerts''). alert_ok d) \<and> users_wf (D ''users'') \<and> tokens_wf (D ''refresh_tokens'')"

definition mongo_inv :: "'db docs_view \<Rightarrow> 'db uniq_view \<Rightarrow> ('db \<Rightarrow> bool) \<Rightarrow> 'db MongoStore \<Rightarrow> bool" where
  "mongo_inv docs uniq up s \<longleftrightarrow> up (mgs_db s) \<and> indexes_wf (uniq (mgs_db s))
     \<and> docs_wf (mgs_maxHistory s) (docs (mgs_db s))"

definition mdev :: "'db docs_view \<Rightarrow> 'db MongoStore \<Rightarrow> string \<rightharpoonup> Device" where
  "mdev docs s = keyed dev_ID (map dev_of (docs (mgs_db s) ''devices''))"

definition mtel :: "'db docs_view \<Rightarrow> 'db MongoStore \<Rightarrow> string \<Rightarrow> Telemetry multiset" where
  "mtel docs s k = points k (docs (mgs_db s) ''telemetry'')"

definition malr :: "'db docs_view \<Rightarrow> 'db MongoStore \<Rightarrow> string \<Rightarrow> Alert multiset" where
  "malr docs s k = {#a \<in># mset (map alert_of (docs (mgs_db s) ''alerts'')). al_DeviceID a = k#}"

definition musr :: "'db docs_view \<Rightarrow> 'db MongoStore \<Rightarrow> string \<rightharpoonup> User" where
  "musr docs s = keyed usr_ID (map user_of (docs (mgs_db s) ''users''))"

definition mtok :: "'db docs_view \<Rightarrow> 'db MongoStore \<Rightarrow> string \<rightharpoonup> RefreshToken" where
  "mtok docs s = keyed rt_TokenHash (map token_of (docs (mgs_db s) ''refresh_tokens''))"

lemmas view_defs = mdev_def mtel_def malr_def musr_def mtok_def

lemma invD:
  assumes "mongo_inv docs uniq up s"
  shows "up (mgs_db s)" "indexes_wf (uniq (mgs_db s))"
    "\<forall>d \<in> set (docs (mgs_db s) ''devices''). device_ok d"
    "distinct (map dev_ID (map dev_of (docs (mgs_db s) ''devices'')))"
    "telemetry_wf (set (map dev_ID (map dev_of (docs (mgs_db s) ''devices'')))) (mgs_maxHistory s)
       (docs (mgs_db s) ''telemetry'')"
    "\<forall>d \<in> set (docs (mgs_db s) ''alerts''). alert_ok d"
    "\<forall>d \<in> set (docs (mgs_db s) ''users''). user_ok d"
    "distinct (map usr_ID (map user_of (docs (mgs_db s) ''users'')))"
    "distinct (map usr_Username (map user_of (docs (mgs_db s) ''users'')))"
    "\<forall>d \<in> set (docs (mgs_db s) ''refresh_tokens''). token_ok d"
    "distinct (map rt_TokenHash (map token_of (docs (mgs_db s) ''refresh_tokens'')))"
  using assms
  by (simp_all add: mongo_inv_def docs_wf_def devices_wf_def users_wf_def tokens_wf_def)

lemma mdev_dom: "mdev docs s i \<noteq> None \<longleftrightarrow> i \<in> set (map dev_ID (map dev_of (docs (mgs_db s) ''devices'')))"
  using keyed_None [of dev_ID "map dev_of (docs (mgs_db s) ''devices'')" i] by (auto simp: mdev_def)

text \<open>A step that changes one collection keeps the invariant and the other views.\<close>

lemma inv_step:
  assumes "mongo_inv docs uniq up s" "becomes docs uniq up (mgs_db s) c ds db'"
    and "docs_wf (mgs_maxHistory s) ((docs (mgs_db s))(c := ds))"
  shows "mongo_inv docs uniq up (s\<lparr>mgs_db := db'\<rparr>)"
  using assms by (simp add: mongo_inv_def becomes_def)

end
