(* ===== verification/Mongo_Correct.thy ===== *)
theory Mongo_Correct
  imports Mongo_Docs
begin

text \<open>
  The MongoDB store keeps the contract of \<open>Store\<close> on every driver with the documented
  behaviour, up to the precision of BSON dates.
\<close>

section \<open>Devices\<close>

lemma mongo_get_device:
  assumes "mongo_ok M docs uniq up" "mongo_inv docs uniq up s"
  shows "mgo_GetDevice M s i = (case mdev docs s i of None \<Rightarrow> Inl ErrNotFound | Some d \<Rightarrow> Inr d)"
  using devs.find_key [OF assms(1), OF invD(1,3,4) [OF assms(2)], of i]
  by (auto simp: mgo_GetDevice_def mdev_def split: sum.splits mongo_error.splits)

lemma sorted_dates:
  assumes "sorted (map (\<lambda>d. 1 * date_of k d) ds)"
    and "\<And>d. d \<in> set ds \<Longrightarrow> fmlookup d k = Some (BTime (tm (v d)))"
  shows "sorted (map tm (map v ds))"
proof -
  have "map (\<lambda>d. 1 * date_of k d) ds = map tm (map v ds)"
    using assms(2) by (simp add: date_of_def)
  then show ?thesis using assms(1) by (simp only:)
qed

lemma mongo_list_devices:
  assumes "mongo_ok M docs uniq up" "mongo_inv docs uniq up s"
  shows "mset (mgo_ListDevices M s) = mset (map dev_of (docs (mgs_db s) ''devices''))
    \<and> sorted (map dev_RegisteredAt (mgo_ListDevices M s))"
proof -
  note inv = invD [OF assms(2)]
  have "\<exists>t. fmlookup d ''registered_at'' = Some (BTime t)"
    if "d \<in> set (docs (mgs_db s) ''devices'')" for d
    using inv(3) that ok_dates(1) by blast
  then obtain ds where ds: "mset ds = mset (filter (matches []) (docs (mgs_db s) ''devices''))"
    "sorted (map (\<lambda>d. 1 * date_of ''registered_at'' d) ds)"
    "mongo_Find M ''devices'' [] [(''registered_at'', 1)] 0 (mgs_db s) = Inr ds"
    using find_sorted [OF assms(1) inv(1), of 1 0 "''devices''" "[]" "''registered_at''"] by auto
  have same: "mset ds = mset (docs (mgs_db s) ''devices'')" using ds(1) by simp
  then have all: "\<forall>d \<in> set ds. device_ok d" using inv(3) by (metis mset_eq_setD)
  have list: "mgo_ListDevices M s = map dev_of ds"
    unfolding mgo_ListDevices_def ds(3) by (rule read_all_map) (use all ok_decodes(1) in blast)
  have "sorted (map dev_RegisteredAt (map dev_of ds))"
    using sorted_dates [OF ds(2)] all ok_dates(1) by blast
  with same show ?thesis by (simp add: list)
qed

lemma mongo_update_device:
  assumes "mongo_ok M docs uniq up" "mongo_inv docs uniq up s" "mdev docs s i = Some d"
    and "fst ` set upds \<inter> {''_id'', ''id''} = {}"
    and "\<And>doc. device_ok doc \<Longrightarrow> device_ok (set_fields upds doc) \<and> dev_of (set_fields upds doc) = f (dev_of doc)"
    and "dev_ID (f d) = dev_ID d" "update_one M ''devices'' [(''id'', CEq (BStr i))] upds s = (e, s')"
  shows "e = None \<and> mongo_inv docs uniq up s' \<and> mdev docs s' = (mdev docs s)(i \<mapsto> f d)
    \<and> mtel docs s' = mtel docs s \<and> malr docs s' = malr docs s \<and> mgs_maxHistory s' = mgs_maxHistory s"
proof -
  note inv = invD [OF assms(2)]
  have upds: "fst ` set upds \<inter> insert ''_id'' (uniq (mgs_db s) ''devices'') = {}"
    using assms(4) inv(2) by (simp add: indexes_wf_def)
  have d: "keyed dev_ID (map dev_of (docs (mgs_db s) ''devices'')) i = Some d"
    using assms(3) by (simp add: mdev_def)
  have "device_ok (set_fields upds doc) \<and> dev_of (set_fields upds doc) = f d"
    if "device_ok doc" "dev_of doc = d" for doc using assms(5) that by blast
  from devs.update_key [OF assms(1), OF inv(1,3,4) upds d, OF this assms(6)] obtain ds db' where u:
    "mongo_UpdateOne M ''devices'' [(''id'', CEq (BStr i))] upds (mgs_db s) = (Inr 1, db')"
    "becomes docs uniq up (mgs_db s) ''devices'' ds db'" "\<forall>d \<in> set ds. device_ok d"
    "map dev_ID (map dev_of ds) = map dev_ID (map dev_of (docs (mgs_db s) ''devices''))"
    "keyed dev_ID (map dev_of ds) = (keyed dev_ID (map dev_of (docs (mgs_db s) ''devices'')))(i \<mapsto> f d)"
    by blast
  have res: "e = None" "s' = s\<lparr>mgs_db := db'\<rparr>"
    using assms(7) u(1) by (simp_all add: update_one_def)
  have "docs_wf (mgs_maxHistory s) ((docs (mgs_db s))(''devices'' := ds))"
    using assms(2) u(3,4) by (simp add: mongo_inv_def docs_wf_def devices_wf_def del: map_map)
  from inv_step [OF assms(2) u(2) this] u(2,5) res show ?thesis
    by (auto simp: becomes_def view_defs)
qed

lemma mongo_update_no_device:
  assumes "mongo_ok M docs uniq up" "mongo_inv docs uniq up s" "mdev docs s i = None"
    and "fst ` set upds \<inter> {''_id'', ''id''} = {}"
  shows "update_one M ''devices'' [(''id'', CEq (BStr i))] upds s = (Some ErrNotFound, s)"
proof -
  note inv = invD [OF assms(2)]
  have "mongo_UpdateOne M ''devices'' [(''id'', CEq (BStr i))] upds (mgs_db s) = (Inr 0, mgs_db s)"
    by (rule devs.update_missing [OF assms(1), OF inv(1,3)])
      (use assms(3,4) inv(2) in \<open>simp_all add: indexes_wf_def mdev_def\<close>)
  then show ?thesis by (simp add: update_one_def)
qed

lemma telemetry_wfD:
  assumes "telemetry_wf ids n ds"
  shows "\<forall>d \<in> set ds. telemetry_ok d" "\<forall>d \<in> set ds. fmlookup d ''_id'' \<noteq> None"
    "\<forall>d \<in> set ds. tel_DeviceID (tel_of d) \<in> ids" "distinct (map (\<lambda>d. fmlookup d ''_id'') ds)"
    "0 < n \<Longrightarrow> int (size (points k ds)) \<le> n"
  using assms by (simp_all add: telemetry_wf_def)

lemma points_simps [simp]:
  "points k [] = {#}" "points k (xs @ ys) = points k xs + points k ys"
  "points k [d] = (if tel_DeviceID (tel_of d) = k then {#tel_of d#} else {#})"
  by (simp_all add: points_def)

lemma points_filter: "points k (filter P ds) \<subseteq># points k ds"
  by (induction ds) (auto simp: points_def intro: subset_mset.order_trans)

lemma telemetry_wf_filter:
  assumes "telemetry_wf ids n ds" "\<And>d. \<lbrakk>d \<in> set ds; P d\<rbrakk> \<Longrightarrow> tel_DeviceID (tel_of d) \<in> ids'"
  shows "telemetry_wf ids' n (filter P ds)"
proof -
  have "int (size (points k (filter P ds))) \<le> n" if "0 < n" for k
    using telemetry_wfD(5) [OF assms(1) that, of k] size_mset_mono [OF points_filter [of k P ds]]
    by linarith
  moreover have "distinct (map (\<lambda>d. fmlookup d ''_id'') (filter P ds))"
    using telemetry_wfD(4) [OF assms(1)] by (rule distinct_map_filter)
  ultimately show ?thesis
    using assms(2) telemetry_wfD(1,2) [OF assms(1)] by (simp add: telemetry_wf_def)
qed

lemma telemetry_wf_mono: "\<lbrakk>telemetry_wf ids n ds; ids \<subseteq> ids'\<rbrakk> \<Longrightarrow> telemetry_wf ids' n ds"
  by (auto simp: telemetry_wf_def)

lemma mongo_create_device:
  assumes "mongo_ok M docs uniq up" "mongo_inv docs uniq up s" "mdev docs s (dev_ID d) = None"
    and "mgo_CreateDevice M s d = (e, s')"
  shows "e = None \<and> mongo_inv docs uniq up s'
    \<and> mdev docs s' = (mdev docs s)(dev_ID d \<mapsto> kept_device (mongo_Date M) d)
    \<and> mtel docs s' = mtel docs s \<and> malr docs s' = malr docs s \<and> mgs_maxHistory s' = mgs_maxHistory s"
proof -
  note inv = invD [OF assms(2)]
  let ?doc = "marshal_device M (deviceToDoc d)" and ?D = "docs (mgs_db s)"
  have new: "dev_ID d \<notin> dev_ID ` set (map dev_of (?D ''devices''))"
    using assms(3) by (simp add: mdev_def keyed_None)
  then have "\<not> clash (uniq (mgs_db s) ''devices'') (?D ''devices'') ?doc"
    using devs.clash_key [OF inv(3), of ?doc "dev_ID d"] inv(2)
    by (simp add: indexes_wf_def marshal_keys deviceToDoc_def del: set_map)
  from insert_new [OF assms(1), OF inv(1) marshal_no_id(1) this] obtain j db' where ins:
    "mongo_InsertOne M ''devices'' ?doc (mgs_db s) = (None, db')"
    "becomes docs uniq up (mgs_db s) ''devices'' (?D ''devices'' @ [fmupd ''_id'' (BId j) ?doc]) db'"
    by blast
  let ?ds = "?D ''devices'' @ [fmupd ''_id'' (BId j) ?doc]"
  have res: "e = None" "s' = s\<lparr>mgs_db := db'\<rparr>"
    using assms(4) ins(1) by (simp_all add: mgo_CreateDevice_def)
  have vals: "map dev_of ?ds = map dev_of (?D ''devices'') @ [kept_device (mongo_Date M) d]"
    by (simp add: stored_device)
  have "devices_wf ?ds" using inv(3,4) new by (auto simp: devices_wf_def stored_device)
  moreover have "telemetry_wf (set (map dev_ID (map dev_of ?ds))) (mgs_maxHistory s) (?D ''telemetry'')"
    by (rule telemetry_wf_mono [OF inv(5)]) auto
  ultimately have "docs_wf (mgs_maxHistory s) (?D(''devices'' := ?ds))"
    using assms(2) by (simp add: mongo_inv_def docs_wf_def)
  note inv_step [OF assms(2) ins(2) this]
  moreover have "keyed dev_ID (map dev_of ?ds)
      = (keyed dev_ID (map dev_of (?D ''devices'')))(dev_ID d \<mapsto> kept_device (mongo_Date M) d)"
    unfolding vals using keyed_snoc [of dev_ID "kept_device (mongo_Date M) d"] new by simp
  ultimately show ?thesis using ins(2) res by (simp add: becomes_def view_defs fun_eq_iff)
qed

lemma mongo_create_taken:
  assumes "mongo_ok M docs uniq up" "mongo_inv docs uniq up s" "mdev docs s (dev_ID d) \<noteq> None"
  shows "mgo_CreateDevice M s d = (Some ErrDeviceExists, s)"
proof -
  note inv = invD [OF assms(2)]
  let ?doc = "marshal_device M (deviceToDoc d)"
  have "clash (uniq (mgs_db s) ''devices'') (docs (mgs_db s) ''devices'') ?doc"
    using devs.clash_key [OF inv(3), of ?doc "dev_ID d"] inv(2) assms(3)
    by (simp add: indexes_wf_def marshal_keys deviceToDoc_def mdev_dom del: set_map not_None_eq)
      (simp add: image_comp comp_def)
  from insert_clash [OF assms(1), OF inv(1) marshal_no_id(1) this] show ?thesis
    by (auto simp: mgo_CreateDevice_def)
qed

lemma filter_mset_val:
  assumes "\<And>d. d \<in> set ds \<Longrightarrow> P d \<longleftrightarrow> Q (v d)"
  shows "mset (map v (filter P ds)) = filter_mset Q (mset (map v ds))"
  using assms by (induction ds) auto

lemma points_drop:
  assumes "\<forall>d \<in> set ds. telemetry_ok d"
  shows "points k (filter (\<lambda>d. \<not> matches [(''device_id'', CEq (BStr i))] d) ds)
    = (if k = i then {#} else points k ds)"
  using assms by (induction ds) (auto simp: points_def matches_device_id(1) simp del: matches_simps)

lemma mongo_delete_device:
  assumes "mongo_ok M docs uniq up" "mongo_inv docs uniq up s" "mdev docs s i = Some d"
    and "mgo_DeleteDevice M s i = (e, s')"
  shows "e = None \<and> mongo_inv docs uniq up s' \<and> mdev docs s' = (mdev docs s)(i := None)
    \<and> mtel docs s' = (mtel docs s)(i := {#}) \<and> malr docs s' = (malr docs s)(i := {#})
    \<and> mgs_maxHistory s' = mgs_maxHistory s"
proof -
  note inv = invD [OF assms(2)]
  let ?D = "docs (mgs_db s)" and ?f = "[(''device_id'', CEq (BStr i))]"
  have d: "keyed dev_ID (map dev_of (?D ''devices'')) i = Some d" using assms(3) by (simp add: mdev_def)
  from devs.delete_key [OF assms(1), OF inv(1,3,4) d] obtain ds db1 where del:
    "mongo_DeleteOne M ''devices'' [(''id'', CEq (BStr i))] (mgs_db s) = (Inr 1, db1)"
    "becomes docs uniq up (mgs_db s) ''devices'' ds db1" "\<forall>d \<in> set ds. device_ok d"
    "\<exists>us vs. map dev_of (?D ''devices'') = us @ d # vs \<and> map dev_of ds = us @ vs"
    "keyed dev_ID (map dev_of ds) = (keyed dev_ID (map dev_of (?D ''devices'')))(i := None)"
    by blast
  from delete_all [OF assms(1), of db1 "''telemetry''" ?f] del(2) obtain n2 db2 where t:
    "mongo_DeleteMany M ''telemetry'' ?f db1 = (Inr n2, db2)"
    "becomes docs uniq up db1 ''telemetry'' (filter (\<lambda>d. \<not> matches ?f d) (?D ''telemetry'')) db2"
    by (auto simp: becomes_def)
  from delete_all [OF assms(1), of db2 "''alerts''" ?f] del(2) t(2) obtain n3 db3 where a:
    "mongo_DeleteMany M ''alerts'' ?f db2 = (Inr n3, db3)"
    "becomes docs uniq up db2 ''alerts'' (filter (\<lambda>d. \<not> matches ?f d) (?D ''alerts'')) db3"
    by (auto simp: becomes_def)
  let ?T = "filter (\<lambda>d. \<not> matches ?f d) (?D ''telemetry'')"
    and ?A = "filter (\<lambda>d. \<not> matches ?f d) (?D ''alerts'')"
  have res: "e = None" "s' = s\<lparr>mgs_db := db3\<rparr>"
    using assms(4) del(1) t(1) a(1) by (simp_all add: mgo_DeleteDevice_def)
  have db3: "up db3" "uniq db3 = uniq (mgs_db s)"
    "docs db3 = (?D)(''devices'' := ds, ''telemetry'' := ?T, ''alerts'' := ?A)"
    using del(2) t(2) a(2) by (auto simp: becomes_def)
  have dist: "distinct (map dev_ID (map dev_of ds))" using del(4) inv(4) by fastforce
  have ids: "k \<in> set (map dev_ID (map dev_of ds))"
    if "k \<in> set (map dev_ID (map dev_of (?D ''devices'')))" "k \<noteq> i" for k
    using that keyed_None [of dev_ID "map dev_of ds" k]
      keyed_None [of dev_ID "map dev_of (?D ''devices'')" k] del(5) by auto
  have "telemetry_wf (set (map dev_ID (map dev_of ds))) (mgs_maxHistory s) ?T"
    using telemetry_wfD(1,3) [OF inv(5)] ids matches_device_id(1)
    by (intro telemetry_wf_filter [OF inv(5)]) blast
  with assms(2) del(3) dist db3 have "mongo_inv docs uniq up (s\<lparr>mgs_db := db3\<rparr>)"
    by (simp add: mongo_inv_def docs_wf_def devices_wf_def)
  moreover have "points k ?T = (if k = i then {#} else points k (?D ''telemetry''))" for k
    by (rule points_drop [OF telemetry_wfD(1) [OF inv(5)]])
  moreover have "mset (map alert_of ?A) = {#x \<in># mset (map alert_of (?D ''alerts'')). al_DeviceID x \<noteq> i#}"
    using inv(6) matches_device_id(2) by (intro filter_mset_val) blast
  ultimately show ?thesis
    using db3 del(5) res
    by (auto simp: view_defs fun_eq_iff filter_filter_mset intro!: filter_mset_cong simp del: mset_map)
qed

lemma mongo_delete_missing:
  assumes "mongo_ok M docs uniq up" "mongo_inv docs uniq up s" "mdev docs s i = None"
  shows "mgo_DeleteDevice M s i = (Some ErrNotFound, s)"
proof -
  note inv = invD [OF assms(2)]
  have "mongo_DeleteOne M ''devices'' [(''id'', CEq (BStr i))] (mgs_db s) = (Inr 0, mgs_db s)"
    by (rule devs.delete_missing [OF assms(1), OF inv(1,3)]) (use assms(3) in \<open>simp add: mdev_def\<close>)
  then show ?thesis by (simp add: mgo_DeleteDevice_def)
qed

section \<open>Telemetry and alerts\<close>

lemma filter_not_taken:
  assumes "distinct (map g ds)"
  shows "filter (\<lambda>d. g d \<notin> g ` set (take e ds)) ds = drop e ds"
proof -
  have "distinct (map g (take e ds) @ map g (drop e ds))" using assms by (simp flip: map_append)
  then have "\<forall>d \<in> set (drop e ds). g d \<notin> g ` set (take e ds)" by auto
  then have "filter (\<lambda>d. g d \<notin> g ` set (take e ds)) (drop e ds) = drop e ds" by simp
  moreover have "filter (\<lambda>d. g d \<notin> g ` set (take e ds)) (take e ds) = []" by (auto simp: filter_empty_conv)
  ultimately show ?thesis by (metis append_Nil append_take_drop_id filter_append)
qed

lemma doc_id_eq: "fmlookup d ''_id'' \<noteq> None \<Longrightarrow> fmlookup d ''_id'' = Some (doc_id d)"
  by (auto simp: doc_id_def)

lemma doc_ids_distinct:
  assumes "\<forall>d \<in> set ds. fmlookup d ''_id'' \<noteq> None" "distinct (map (\<lambda>d. fmlookup d ''_id'') ds)"
  shows "distinct (map doc_id ds)"
proof -
  have "map (\<lambda>d. fmlookup d ''_id'') ds = map Some (map doc_id ds)" using assms(1) doc_id_eq by simp
  with assms(2) show ?thesis by (metis distinct_map)
qed

lemma matches_ids: "fmlookup d ''_id'' \<noteq> None \<Longrightarrow> matches [(''_id'', CIn ids)] d \<longleftrightarrow> doc_id d \<in> set ids"
  using doc_id_eq [of d] by (auto simp: list_ex_iff)

text \<open>
  Dropping from a list the first \<open>e\<close> of its selected elements, in some order of these, by their
  keys: the others stay, and so do the rest of the selected ones.
\<close>

lemma drop_by_key:
  fixes e :: nat
  assumes "distinct (map g T)" "mset ds = mset (filter f T)"
  defines "P \<equiv> \<lambda>d. g d \<notin> set (map g (take e ds))"
  shows "\<forall>d \<in> set T. \<not> f d \<longrightarrow> P d" and "mset (filter P (filter f T)) = mset (drop e ds)"
proof -
  have F: "set ds = set (filter f T)" using assms(2) by (rule mset_eq_setD)
  have "inj_on g (set T)" using assms(1) by (simp add: distinct_map)
  then show "\<forall>d \<in> set T. \<not> f d \<longrightarrow> P d"
    using F unfolding P_def by (auto dest!: in_set_takeD dest: inj_onD)
  have "distinct (map g ds)"
    using distinct_map_filter [OF assms(1)] assms(2) by (metis mset_eq_imp_distinct_iff mset_map)
  moreover have "mset (filter P (filter f T)) = mset (filter P ds)" using assms(2) by (metis mset_filter)
  ultimately show "mset (filter P (filter f T)) = mset (drop e ds)"
    using filter_not_taken [of g ds e] by (simp add: P_def)
qed

lemma becomes_refl: "up db \<Longrightarrow> becomes docs uniq up db c (docs db c) db"
  by (simp add: becomes_def)

text \<open>
  \<open>trimHistory\<close> leaves other devices alone and keeps, of the points of its device, the last
  \<open>maxHistory\<close> in the order of their timestamps.
\<close>

lemma mongo_trim:
  fixes k :: string and n :: int
  defines "f \<equiv> [(''device_id'', CEq (BStr k))]"
  assumes ok: "mongo_ok M docs uniq up" "up db" "\<forall>d \<in> set (docs db ''telemetry''). telemetry_ok d"
    and ids: "\<forall>d \<in> set (docs db ''telemetry''). fmlookup d ''_id'' \<noteq> None"
    and dist: "distinct (map (\<lambda>d. fmlookup d ''_id'') (docs db ''telemetry''))"
  defines "F \<equiv> filter (matches f) (docs db ''telemetry'')"
  shows "\<exists>P ds. mset ds = mset F \<and> sorted (map tel_Timestamp (map tel_of ds))
    \<and> becomes docs uniq up db ''telemetry'' (filter P (docs db ''telemetry'')) (trimHistory M n k db)
    \<and> (\<forall>d \<in> set (docs db ''telemetry''). \<not> matches f d \<longrightarrow> P d)
    \<and> mset (filter P F) = mset (if 0 < n \<and> n < int (length F) then drop (length F - nat n) ds else ds)"
proof -
  let ?T = "docs db ''telemetry''"
  have count: "mongo_CountDocuments M ''telemetry'' f db = Inr (length F)"
    using mongo_okD(8) [OF ok(1)] ok(2) by (simp add: count_spec_def F_def)
  have "\<exists>t. fmlookup d ''timestamp'' = Some (BTime t)" if "d \<in> set ?T" for d
    using ok(3) that ok_dates(2) by blast
  then obtain ds where ds: "mset ds = mset F" "sorted (map (\<lambda>d. 1 * date_of ''timestamp'' d) ds)"
    "mongo_Find M ''telemetry'' f [(''timestamp'', 1)] (int (length F) - n) db
       = Inr (if int (length F) - n = 0 then ds else take (nat (int (length F) - n)) ds)"
    if "n < int (length F)"
    using find_sorted [OF ok(1) ok(2), of 1 "int (length F) - n" "''telemetry''" f "''timestamp''"]
    unfolding F_def by (cases "n < int (length F)") (auto simp: F_def)
  show ?thesis
  proof (cases "0 < n \<and> n < int (length F)")
    case False
    let ?ds = "sort_key (\<lambda>d. tel_Timestamp (tel_of d)) F"
    have "trimHistory M n k db = db" using False count by (auto simp: trimHistory_def f_def)
    moreover have "sorted (map tel_Timestamp (map tel_of ?ds))" by (simp add: comp_def)
    ultimately show ?thesis
      using False becomes_refl [of up db docs uniq "''telemetry''"] ok(2)
      by (intro exI [of _ "\<lambda>_. True"] exI [of _ ?ds]) auto
  next
    case True
    let ?e = "length F - nat n"
    let ?ids = "map doc_id (take ?e ds)"
    let ?P = "\<lambda>d. doc_id d \<notin> set ?ids"
    note ds' = ds [OF conjunct2 [OF True]]
    have sub: "set ds \<subseteq> set ?T" using mset_eq_setD [OF ds'(1)] by (auto simp: F_def)
    have sorted: "sorted (map tel_Timestamp (map tel_of ds))"
      using sorted_dates [OF ds'(2)] sub ok(3) ok_dates(2) by blast
    have e: "nat (int (length F) - n) = ?e" "0 < length ?ids"
      using True mset_eq_length [OF ds'(1)] by auto
    from delete_all [OF ok(1), OF ok(2), of "''telemetry''" "[(''_id'', CIn ?ids)]"]
    obtain m db' where del: "mongo_DeleteMany M ''telemetry'' [(''_id'', CIn ?ids)] db = (Inr m, db')"
      "becomes docs uniq up db ''telemetry'' (filter (\<lambda>d. \<not> matches [(''_id'', CIn ?ids)] d) ?T) db'"
      by blast
    have run: "trimHistory M n k db = db'"
      using True count ds'(3) e del(1) by (simp add: trimHistory_def f_def Let_def)
    have "filter (\<lambda>d. \<not> matches [(''_id'', CIn ?ids)] d) ?T = filter ?P ?T"
      using ids matches_ids by (intro filter_cong [OF refl]) blast
    with del(2) run have step: "becomes docs uniq up db ''telemetry'' (filter ?P ?T) (trimHistory M n k db)"
      by simp
    note kept = drop_by_key [OF doc_ids_distinct [OF ids dist] ds'(1) [unfolded F_def], of ?e, folded F_def]
    from True ds'(1) sorted step kept show ?thesis by (intro exI [of _ ?P] exI [of _ ds]) simp
  qed
qed

text \<open>The points of a device, and of the others, after documents of one device were dropped.\<close>

lemma points_own:
  assumes "\<forall>d \<in> set ds. telemetry_ok d"
  shows "points k (filter P ds)
    = mset (map tel_of (filter P (filter (matches [(''device_id'', CEq (BStr k))]) ds)))"
  using assms
  by (induction ds) (auto simp: points_def matches_device_id(1) filter_filter_mset simp del: matches_simps)

lemma points_other:
  assumes "\<forall>d \<in> set ds. telemetry_ok d" "k' \<noteq> k"
    and "\<forall>d \<in> set ds. \<not> matches [(''device_id'', CEq (BStr k))] d \<longrightarrow> P d"
  shows "points k' (filter P ds) = points k' ds"
  using assms by (induction ds) (auto simp: points_def matches_device_id(1) simp del: matches_simps)

lemma trim_points:
  fixes k :: string and n :: int
  assumes "mongo_ok M docs uniq up" "up db" "docs db ''telemetry'' = T"
    and "\<forall>d \<in> set T. telemetry_ok d" "\<forall>d \<in> set T. fmlookup d ''_id'' \<noteq> None"
    and "distinct (map (\<lambda>d. fmlookup d ''_id'') T)"
  shows "\<exists>P ts. becomes docs uniq up db ''telemetry'' (filter P T) (trimHistory M n k db)
    \<and> mset ts = points k T \<and> sorted (map tel_Timestamp ts)
    \<and> (\<forall>k'. k' \<noteq> k \<longrightarrow> points k' (filter P T) = points k' T)
    \<and> points k (filter P T) = mset (if 0 < n \<and> n < int (length ts) then drop (length ts - nat n) ts else ts)"
proof -
  let ?F = "filter (matches [(''device_id'', CEq (BStr k))]) T"
  from mongo_trim [OF assms(1), of db, unfolded assms(3), OF assms(2,4,5,6), of k n]
  obtain P ds where trim: "mset ds = mset ?F" "sorted (map tel_Timestamp (map tel_of ds))"
    "becomes docs uniq up db ''telemetry'' (filter P T) (trimHistory M n k db)"
    "\<forall>d \<in> set T. \<not> matches [(''device_id'', CEq (BStr k))] d \<longrightarrow> P d"
    "mset (filter P ?F) = mset (if 0 < n \<and> n < int (length ?F) then drop (length ?F - nat n) ds else ds)"
    by blast
  have len: "length ?F = length ds" using trim(1) by (metis size_mset)
  have "mset (map tel_of ds) = points k T"
    using points_own [OF assms(4), of k "\<lambda>_. True"] trim(1) by simp
  moreover have "points k (filter P T) = image_mset tel_of (mset (filter P ?F))"
    using points_own [OF assms(4), of k P] by simp
  then have "points k (filter P T) = mset (if 0 < n \<and> n < int (length (map tel_of ds))
      then drop (length (map tel_of ds) - nat n) (map tel_of ds) else map tel_of ds)"
    unfolding trim(5) len by (simp add: drop_map)
  ultimately show ?thesis
    using trim(2,3) points_other [OF assms(4) _ trim(4)] by blast
qed

text \<open>A sample of a registered device is inserted, then the history of the device is trimmed.\<close>

lemma mongo_insert_sample:
  fixes t :: Telemetry
  assumes "mongo_ok M docs uniq up" "mongo_inv docs uniq up s" "mdev docs s (tel_DeviceID t) = Some d"
  defines "T \<equiv> docs (mgs_db s) ''telemetry''"
  obtains x db where "mgo_AddTelemetry M s t
      = (None, s\<lparr>mgs_db := trimHistory M (mgs_maxHistory s) (tel_DeviceID t) db\<rparr>)"
    "becomes docs uniq up (mgs_db s) ''telemetry'' (T @ [x]) db" "tel_of x = kept_telemetry (mongo_Date M) t"
    "\<forall>d \<in> set (T @ [x]). telemetry_ok d" "\<forall>d \<in> set (T @ [x]). fmlookup d ''_id'' \<noteq> None"
    "distinct (map (\<lambda>d. fmlookup d ''_id'') (T @ [x]))"
proof -
  note inv = invD [OF assms(2)]
  let ?doc = "marshal_telemetry M \<lparr>td_DeviceID = tel_DeviceID t, td_Timestamp = tel_Timestamp t,
      td_Metrics = tel_Metrics t\<rparr>"
  have "\<exists>x. mongo_FindOne M ''devices'' [(''id'', CEq (BStr (tel_DeviceID t)))] (mgs_db s) = Inr x"
    using devs.find_key [OF assms(1), OF inv(1,3,4), of "tel_DeviceID t"] assms(3)
    by (auto simp: find_decode_def mdev_def split: sum.splits)
  moreover have "\<not> clash (uniq (mgs_db s) ''telemetry'') T ?doc"
    using inv(2) by (simp add: indexes_wf_def clash_def)
  from insert_new [OF assms(1), OF inv(1) marshal_no_id(2) this [unfolded T_def], folded T_def] obtain j db where ins:
    "mongo_InsertOne M ''telemetry'' ?doc (mgs_db s) = (None, db)"
    "Some (BId j) \<notin> (\<lambda>e. fmlookup e ''_id'') ` set T"
    "becomes docs uniq up (mgs_db s) ''telemetry'' (T @ [fmupd ''_id'' (BId j) ?doc]) db"
    by blast
  ultimately have "mgo_AddTelemetry M s t
      = (None, s\<lparr>mgs_db := trimHistory M (mgs_maxHistory s) (tel_DeviceID t) db\<rparr>)"
    by (auto simp: mgo_AddTelemetry_def)
  moreover have "telemetry_ok (fmupd ''_id'' (BId j) ?doc)"
    "tel_of (fmupd ''_id'' (BId j) ?doc) = kept_telemetry (mongo_Date M) t" by (rule stored_telemetry)+
  ultimately show thesis
    using ins(2,3) telemetry_wfD(1,2,4) [OF inv(5), folded T_def]
    by (intro that [of db "fmupd ''_id'' (BId j) ?doc"]) simp_all
qed

lemma mongo_add_telemetry:
  assumes "mongo_ok M docs uniq up" "mongo_inv docs uniq up s"
    and "mdev docs s (tel_DeviceID t) = Some d" "mgo_AddTelemetry M s t = (e, s')"
  shows "e = None \<and> mongo_inv docs uniq up s' \<and> mdev docs s' = mdev docs s \<and> malr docs s' = malr docs s
    \<and> mgs_maxHistory s' = mgs_maxHistory s
    \<and> (\<forall>k. k \<noteq> tel_DeviceID t \<longrightarrow> mtel docs s' k = mtel docs s k)
    \<and> (\<exists>ts. mset ts = add_mset (kept_telemetry (mongo_Date M) t) (mtel docs s (tel_DeviceID t))
        \<and> sorted (map tel_Timestamp ts)
        \<and> mtel docs s' (tel_DeviceID t) = mset (if 0 < mgs_maxHistory s \<and> mgs_maxHistory s < int (length ts)
            then drop (length ts - nat (mgs_maxHistory s)) ts else ts))"
proof -
  note inv = invD [OF assms(2)]
  let ?k = "tel_DeviceID t" and ?n = "mgs_maxHistory s" and ?T = "docs (mgs_db s) ''telemetry''"
  let ?ids = "set (map dev_ID (map dev_of (docs (mgs_db s) ''devices'')))"
  obtain x db1 where run: "mgo_AddTelemetry M s t = (None, s\<lparr>mgs_db := trimHistory M ?n ?k db1\<rparr>)"
    and ins: "becomes docs uniq up (mgs_db s) ''telemetry'' (?T @ [x]) db1"
    and new: "tel_of x = kept_telemetry (mongo_Date M) t"
    and ok1: "\<forall>d \<in> set (?T @ [x]). telemetry_ok d" "\<forall>d \<in> set (?T @ [x]). fmlookup d ''_id'' \<noteq> None"
      "distinct (map (\<lambda>d. fmlookup d ''_id'') (?T @ [x]))"
    by (rule mongo_insert_sample [OF assms(1-3)])
  let ?T1 = "?T @ [x]"
  have known: "?k \<in> ?ids" using assms(3) mdev_dom [of docs s ?k] by simp
  have res: "e = None" "s' = s\<lparr>mgs_db := trimHistory M ?n ?k db1\<rparr>" using assms(4) run by simp_all
  have T1: "up db1" "docs db1 ''telemetry'' = ?T1" using ins by (auto simp: becomes_def)
  from trim_points [OF assms(1), OF T1 ok1, of ?n ?k] obtain P ts where
    trim: "becomes docs uniq up db1 ''telemetry'' (filter P ?T1) (trimHistory M ?n ?k db1)"
    "mset ts = points ?k ?T1" "sorted (map tel_Timestamp ts)"
    "\<forall>k'. k' \<noteq> ?k \<longrightarrow> points k' (filter P ?T1) = points k' ?T1"
    "points ?k (filter P ?T1)
       = mset (if 0 < ?n \<and> ?n < int (length ts) then drop (length ts - nat ?n) ts else ts)"
    by blast
  let ?U = "filter P ?T1"
  have others: "points k ?U = points k ?T" if "k \<noteq> ?k" for k using trim(4) that new by simp
  have dbs: "docs (trimHistory M ?n ?k db1) = (docs (mgs_db s))(''telemetry'' := ?U)"
    "up (trimHistory M ?n ?k db1)" "uniq (trimHistory M ?n ?k db1) = uniq (mgs_db s)"
    using trim(1) ins by (auto simp: becomes_def)
  have "int (size (points k ?U)) \<le> ?n" if "0 < ?n" for k
    using trim(5) others [of k] telemetry_wfD(5) [OF inv(5) that, of k] that
    by (cases "k = ?k") (auto split: if_splits)
  then have "telemetry_wf ?ids ?n ?U"
    using ok1 telemetry_wfD(3) [OF inv(5)] known new distinct_map_filter [OF ok1(3)]
    by (auto simp: telemetry_wf_def)
  then have "mongo_inv docs uniq up s'"
    using assms(2) dbs res by (simp add: mongo_inv_def docs_wf_def)
  then show ?thesis
    using res dbs others trim(2,3,5) new
    by (intro conjI exI [of _ ts]) (simp_all add: mdev_def malr_def mtel_def fun_eq_iff del: filter_append)
qed

lemma mongo_add_unknown:
  assumes "mongo_ok M docs uniq up" "mongo_inv docs uniq up s" "mdev docs s (tel_DeviceID t) = None"
  shows "mgo_AddTelemetry M s t = (Some ErrNotFound, s)"
proof -
  note inv = invD [OF assms(2)]
  have "mongo_FindOne M ''devices'' [(''id'', CEq (BStr (tel_DeviceID t)))] (mgs_db s) = Inl ErrNoDocuments"
    using devs.find_key [OF assms(1), OF inv(1,3,4), of "tel_DeviceID t"] assms(3)
    by (auto simp: find_decode_def mdev_def split: sum.splits option.splits)
  then show ?thesis by (simp add: mgo_AddTelemetry_def)
qed

lemma mongo_add_alert:
  assumes "mongo_ok M docs uniq up" "mongo_inv docs uniq up s" "mgo_AddAlert M s a = (e, s')"
  shows "e = None \<and> mongo_inv docs uniq up s' \<and> mdev docs s' = mdev docs s \<and> mtel docs s' = mtel docs s
    \<and> mgs_maxHistory s' = mgs_maxHistory s
    \<and> malr docs s' = (malr docs s)(al_DeviceID a :=
        add_mset (kept_alert (mongo_Date M) a) (malr docs s (al_DeviceID a)))"
proof -
  note inv = invD [OF assms(2)]
  let ?doc = "marshal_alert M (alertToDoc a)" and ?A = "docs (mgs_db s) ''alerts''"
  have "\<not> clash (uniq (mgs_db s) ''alerts'') ?A ?doc"
    using inv(2) by (simp add: indexes_wf_def clash_def)
  from insert_new [OF assms(1), OF inv(1) marshal_no_id(3) this] obtain j db' where ins:
    "mongo_InsertOne M ''alerts'' ?doc (mgs_db s) = (None, db')"
    "becomes docs uniq up (mgs_db s) ''alerts'' (?A @ [fmupd ''_id'' (BId j) ?doc]) db'"
    by blast
  have "docs_wf (mgs_maxHistory s) ((docs (mgs_db s))(''alerts'' := ?A @ [fmupd ''_id'' (BId j) ?doc]))"
    using assms(2) stored_alert(1) by (simp add: mongo_inv_def docs_wf_def)
  from inv_step [OF assms(2) ins(2) this] ins assms(3) show ?thesis
    by (auto simp: mgo_AddAlert_def becomes_def view_defs stored_alert fun_eq_iff)
qed

lemma mongo_list_alerts:
  assumes "mongo_ok M docs uniq up" "mongo_inv docs uniq up s"
  shows "mset (mgo_ListAlerts M s i) = (if i = '''' then mset (map alert_of (docs (mgs_db s) ''alerts''))
      else malr docs s i) \<and> sorted (map al_CreatedAt (mgo_ListAlerts M s i))"
proof -
  note inv = invD [OF assms(2)]
  let ?f = "if i \<noteq> '''' then [(''device_id'', CEq (BStr i))] else []" and ?A = "docs (mgs_db s) ''alerts''"
  have "\<exists>t. fmlookup d ''created_at'' = Some (BTime t)" if "d \<in> set ?A" for d
    using inv(6) that ok_dates(3) by blast
  then obtain ds where ds: "mset ds = mset (filter (matches ?f) ?A)"
    "sorted (map (\<lambda>d. 1 * date_of ''created_at'' d) ds)"
    "mongo_Find M ''alerts'' ?f [(''created_at'', 1)] 0 (mgs_db s) = Inr ds"
    using find_sorted [OF assms(1) inv(1), of 1 0 "''alerts''" ?f "''created_at''"]
    by (auto simp del: matches_simps)
  have all: "\<forall>d \<in> set ds. alert_ok d" using inv(6) mset_eq_setD [OF ds(1)] by auto
  have list: "mgo_ListAlerts M s i = map alert_of ds"
    unfolding mgo_ListAlerts_def ds(3) by (rule read_all_map) (use all ok_decodes(3) in blast)
  have "mset (map alert_of (filter (matches ?f) ?A)) = {#x \<in># mset (map alert_of ?A). i = '''' \<or> al_DeviceID x = i#}"
    using inv(6) matches_device_id(2) by (intro filter_mset_val) (auto simp del: matches_simps(2))
  then have "image_mset alert_of (mset ds) = {#x \<in># mset (map alert_of ?A). i = '''' \<or> al_DeviceID x = i#}"
    unfolding ds(1) by (simp only: mset_map)
  moreover have "sorted (map al_CreatedAt (map alert_of ds))"
    using sorted_dates [OF ds(2)] all ok_dates(3) by blast
  ultimately show ?thesis by (auto simp: list malr_def)
qed

lemma mongo_update:
  assumes "mongo_ok M docs uniq up" "mongo_inv docs uniq up s" "mdev docs s i = Some d"
    and "mgo_UpdateDevice M s i n t l m = (e, s')"
  shows "e = None \<and> mongo_inv docs uniq up s' \<and> mdev docs s' = (mdev docs s)(i \<mapsto>
    d\<lparr>dev_Name := n, dev_Type := t, dev_Location := l, dev_Metadata := m\<rparr>)"
  using mongo_update_device [OF assms(1,2,3), where f = "\<lambda>d. d\<lparr>dev_Name := n, dev_Type := t,
      dev_Location := l, dev_Metadata := m\<rparr>", OF _ _ _ assms(4) [unfolded mgo_UpdateDevice_def]]
    updated_device by auto

lemma mongo_update_missing:
  assumes "mongo_ok M docs uniq up" "mongo_inv docs uniq up s" "mdev docs s i = None"
  shows "mgo_UpdateDevice M s i n t l m = (Some ErrNotFound, s)"
  unfolding mgo_UpdateDevice_def by (rule mongo_update_no_device [OF assms]) auto

lemma mongo_status:
  assumes "mongo_ok M docs uniq up" "mongo_inv docs uniq up s" "mdev docs s i = Some d"
    and "mgo_UpdateDeviceStatus M s i st seen = (e, s')"
  shows "e = None \<and> mongo_inv docs uniq up s' \<and> mdev docs s' = (mdev docs s)(i \<mapsto> d\<lparr>dev_Status := st,
      dev_LastSeenAt := (if IsZero seen then dev_LastSeenAt d else mongo_Date M seen)\<rparr>)
    \<and> mtel docs s' = mtel docs s \<and> malr docs s' = malr docs s \<and> mgs_maxHistory s' = mgs_maxHistory s"
  by (rule mongo_update_device [OF assms(1,2,3), where f = "\<lambda>d. d\<lparr>dev_Status := st,
      dev_LastSeenAt := (if IsZero seen then dev_LastSeenAt d else mongo_Date M seen)\<rparr>",
      OF _ _ _ assms(4) [unfolded mgo_UpdateDeviceStatus_def]])
    (use updated_status [of _ st seen M] in \<open>auto simp del: set_fields_simps\<close>)

lemma mongo_status_missing:
  assumes "mongo_ok M docs uniq up" "mongo_inv docs uniq up s" "mdev docs s i = None"
  shows "mgo_UpdateDeviceStatus M s i st seen = (Some ErrNotFound, s)"
  unfolding mgo_UpdateDeviceStatus_def by (rule mongo_update_no_device [OF assms]) auto

lemma mongo_status_frame:
  assumes "mongo_ok M docs uniq up" "mongo_inv docs uniq up s" "mgo_UpdateDeviceStatus M s i st seen = (e, s')"
  shows "mtel docs s' = mtel docs s \<and> malr docs s' = malr docs s \<and> mgs_maxHistory s' = mgs_maxHistory s"
  using mongo_status [OF assms(1,2) _ assms(3)] mongo_status_missing [OF assms(1,2), of i st seen] assms(3)
  by (cases "mdev docs s i") auto

lemma mongo_tel_law:
  assumes "mongo_ok M docs uniq up" "mongo_inv docs uniq up s"
    and "mdev docs s (tel_DeviceID t) = Some d" "mgo_AddTelemetry M s t = (e, s')"
  shows "e = None \<and> mongo_inv docs uniq up s' \<and> mdev docs s' = mdev docs s \<and> malr docs s' = malr docs s
    \<and> mgs_maxHistory s' = mgs_maxHistory s
    \<and> (\<forall>k. k \<noteq> tel_DeviceID t \<longrightarrow> mtel docs s' k = mtel docs s k)
    \<and> mtel docs s' (tel_DeviceID t) \<subseteq># add_mset (kept_telemetry (mongo_Date M) t) (mtel docs s (tel_DeviceID t))
    \<and> int (size (mtel docs s' (tel_DeviceID t))) =
        (if 0 < mgs_maxHistory s then min (mgs_maxHistory s) (int (size (mtel docs s (tel_DeviceID t))) + 1)
         else int (size (mtel docs s (tel_DeviceID t))) + 1)"
proof -
  note step = mongo_add_telemetry [OF assms]
  then obtain ts where ts: "mset ts = add_mset (kept_telemetry (mongo_Date M) t) (mtel docs s (tel_DeviceID t))"
    "mtel docs s' (tel_DeviceID t) = mset (if 0 < mgs_maxHistory s \<and> mgs_maxHistory s < int (length ts)
            then drop (length ts - nat (mgs_maxHistory s)) ts else ts)"
    by blast
  have len: "int (length ts) = int (size (mtel docs s (tel_DeviceID t))) + 1"
    using ts(1) by (metis of_nat_Suc size_add_mset size_mset add.commute)
  have "mset (drop n ts) \<subseteq># mset ts" for n
    by (metis append_take_drop_id mset_append mset_subset_eq_add_right)
  then have "mtel docs s' (tel_DeviceID t) \<subseteq># mset ts" unfolding ts(2) by simp
  with step ts len show ?thesis by auto
qed

section \<open>The Store contract\<close>

lemma mongo_devices:
  assumes "mongo_ok M docs uniq up" "mongo_inv docs uniq up s"
  shows "set (mgo_ListDevices M s) = ran (mdev docs s)" "distinct (map dev_ID (mgo_ListDevices M s))"
    "sorted (map dev_RegisteredAt (mgo_ListDevices M s))" "mdev docs s i = Some d \<Longrightarrow> dev_ID d = i"
proof -
  have list: "mset (mgo_ListDevices M s) = mset (map dev_of (docs (mgs_db s) ''devices''))"
    "sorted (map dev_RegisteredAt (mgo_ListDevices M s))"
    using mongo_list_devices [OF assms] by blast+
  have perm: "mset (map dev_ID (mgo_ListDevices M s)) = mset (map dev_ID (map dev_of (docs (mgs_db s) ''devices'')))"
    by (simp only: mset_map list(1))
  show "set (mgo_ListDevices M s) = ran (mdev docs s)"
    using mset_eq_setD [OF list(1)] ran_keyed [OF invD(4) [OF assms(2)]] by (simp add: mdev_def)
  show "distinct (map dev_ID (mgo_ListDevices M s))"
    using perm invD(4) [OF assms(2)] by (metis mset_eq_imp_distinct_iff)
  show "sorted (map dev_RegisteredAt (mgo_ListDevices M s))" by (rule list(2))
  show "dev_ID d = i" if "mdev docs s i = Some d"
    using that keyed_Some [of dev_ID] by (fastforce simp: mdev_def)
qed

lemma mongo_device_contract:
  assumes ok: "mongo_ok M docs uniq up"
  shows "device_contract (mongo_store M) (mongo_Date M) (mongo_inv docs uniq up) (mdev docs)"
proof (unfold_locales, unfold mongo_store_def Store.simps)
  fix s s' d e
  assume "mongo_inv docs uniq up s" "mdev docs s (dev_ID d) = None" "mgo_CreateDevice M s d = (e, s')"
  from mongo_create_device [OF ok this] show "e = None \<and> mongo_inv docs uniq up s'
      \<and> mdev docs s' = (mdev docs s)(dev_ID d \<mapsto> kept_device (mongo_Date M) d)" by blast
next
  fix s s' i d st seen e
  assume "mongo_inv docs uniq up s" "mdev docs s i = Some d" "mgo_UpdateDeviceStatus M s i st seen = (e, s')"
  from mongo_status [OF ok this]
  show "e = None \<and> mongo_inv docs uniq up s' \<and> mdev docs s' = (mdev docs s)(i \<mapsto> d\<lparr>dev_Status := st,
      dev_LastSeenAt := (if IsZero seen then dev_LastSeenAt d else mongo_Date M seen)\<rparr>)" by blast
next
  fix s s' i d e
  assume "mongo_inv docs uniq up s" "mdev docs s i = Some d" "mgo_DeleteDevice M s i = (e, s')"
  from mongo_delete_device [OF ok this]
  show "e = None \<and> mongo_inv docs uniq up s' \<and> mdev docs s' = (mdev docs s)(i := None)" by blast
qed (rule mongo_get_device [OF ok] mongo_devices [OF ok] mongo_create_taken [OF ok] mongo_update [OF ok]
    mongo_update_missing [OF ok] mongo_status_missing [OF ok] mongo_delete_missing [OF ok]; assumption)+

lemma mongo_create_frame:
  assumes "mongo_ok M docs uniq up" "mongo_inv docs uniq up s" "mgo_CreateDevice M s d = (e, s')"
  shows "mtel docs s' = mtel docs s \<and> malr docs s' = malr docs s \<and> mgs_maxHistory s' = mgs_maxHistory s"
  using mongo_create_device [OF assms(1,2) _ assms(3)] mongo_create_taken [OF assms(1,2), of d] assms(3)
  by (cases "mdev docs s (dev_ID d)") auto

lemma mongo_delete_data:
  assumes "mongo_ok M docs uniq up" "mongo_inv docs uniq up s" "mgo_DeleteDevice M s i = (None, s')"
  shows "mtel docs s' = (mtel docs s)(i := {#}) \<and> malr docs s' = (malr docs s)(i := {#})
    \<and> mgs_maxHistory s' = mgs_maxHistory s"
  using mongo_delete_device [OF assms(1,2) _ assms(3)] mongo_delete_missing [OF assms(1,2), of i] assms(3)
  by (cases "mdev docs s i") auto

lemma mongo_store_contract:
  assumes ok: "mongo_ok M docs uniq up"
  shows "store_contract (mongo_store M) (mongo_Date M) (mongo_inv docs uniq up) (mdev docs) (mtel docs)
    (malr docs) mgs_maxHistory"
proof (intro store_contract.intro mongo_device_contract [OF ok] store_contract_axioms.intro,
    unfold mongo_store_def Store.simps)
  fix s i
  assume inv: "mongo_inv docs uniq up s"
  show "mtel docs s i = {#}" if "mdev docs s i = None"
    using that mdev_dom [of docs s i] telemetry_wfD(3) [OF invD(5) [OF inv]]
    by (auto simp: mtel_def points_def)
  show "int (size (mtel docs s i)) \<le> mgs_maxHistory s" if "0 < mgs_maxHistory s"
    unfolding mtel_def by (rule telemetry_wfD(5) [OF invD(5) [OF inv] that])
  show "mset (mgo_ListAlerts M s i) = malr docs s i" if "i \<noteq> ''''"
    using mongo_list_alerts [OF ok inv, of i] that by simp
next
  fix s s' a e
  assume "mongo_inv docs uniq up s" "mgo_AddAlert M s a = (e, s')"
  from mongo_add_alert [OF ok this]
  show "e = None \<and> mongo_inv docs uniq up s' \<and> mdev docs s' = mdev docs s \<and> mtel docs s' = mtel docs s
      \<and> mgs_maxHistory s' = mgs_maxHistory s \<and> malr docs s' = (malr docs s)(al_DeviceID a :=
        add_mset (kept_alert (mongo_Date M) a) (malr docs s (al_DeviceID a)))" by blast
qed (rule mongo_tel_law [OF ok] mongo_add_unknown [OF ok] mongo_status_frame [OF ok]
    mongo_create_frame [OF ok] mongo_delete_data [OF ok]; assumption)+

section \<open>Reading telemetry\<close>

lemma rev_sorted_dates:
  assumes "sorted (map (\<lambda>d. -1 * date_of k d) ds)"
    and "\<And>d. d \<in> set ds \<Longrightarrow> fmlookup d k = Some (BTime (tm (v d)))"
  shows "sorted (map tm (map v (rev ds)))"
proof -
  have "map (\<lambda>d. -1 * date_of k d) ds = map (\<lambda>d. - tm (v d)) ds"
    using assms(2) by (simp add: date_of_def)
  then have "sorted (map (\<lambda>d. - tm (v d)) ds)" using assms(1) by (simp only:)
  then have "sorted_wrt (\<lambda>x y. tm (v y) \<le> tm (v x)) ds" by (simp add: sorted_map)
  then show ?thesis by (simp add: sorted_map sorted_wrt_map sorted_wrt_rev)
qed

definition window_filter :: "'db mongo \<Rightarrow> string \<Rightarrow> time \<Rightarrow> bfilter" where
  "window_filter M k since = [(''device_id'', CEq (BStr k))]
     @ (if \<not> IsZero since then [(''timestamp'', CGte (BTime (mongo_Date M since)))] else [])"

lemma mongo_query:
  assumes "mongo_ok M docs uniq up" "mongo_inv docs uniq up s" "dir \<in> {1, -1}" "0 \<le> n"
  shows "\<exists>ds. (\<forall>d \<in> set ds. telemetry_ok d)
    \<and> mset (map tel_of ds) = {#t \<in># mtel docs s k. IsZero since \<or> mongo_Date M since \<le> tel_Timestamp t#}
    \<and> sorted (map (\<lambda>d. dir * date_of ''timestamp'' d) ds)
    \<and> mongo_Find M ''telemetry'' (window_filter M k since) [(''timestamp'', dir)] n (mgs_db s)
       = Inr (if n = 0 then ds else take (nat n) ds)"
proof -
  note inv = invD [OF assms(2)]
  let ?T = "docs (mgs_db s) ''telemetry''" and ?f = "window_filter M k since"
  have ok: "\<forall>d \<in> set ?T. telemetry_ok d" by (rule telemetry_wfD(1) [OF inv(5)])
  then have dates: "\<exists>t. fmlookup d ''timestamp'' = Some (BTime t)" if "d \<in> set ?T" for d
    using that ok_dates(2) by blast
  from find_sorted [OF assms(1), OF inv(1) assms(3,4), of "''telemetry''" ?f "''timestamp''"] dates
  obtain ds where ds: "mset ds = mset (filter (matches ?f) ?T)"
    "sorted (map (\<lambda>d. dir * date_of ''timestamp'' d) ds)"
    "mongo_Find M ''telemetry'' ?f [(''timestamp'', dir)] n (mgs_db s)
       = Inr (if n = 0 then ds else take (nat n) ds)"
    by blast
  have all: "\<forall>d \<in> set ds. telemetry_ok d" using ok mset_eq_setD [OF ds(1)] by auto
  have win: "matches ?f d \<longleftrightarrow> tel_DeviceID (tel_of d) = k
      \<and> (IsZero since \<or> mongo_Date M since \<le> tel_Timestamp (tel_of d))" if "d \<in> set ?T" for d
    using ok that matches_device_id(1) [of d k] ok_dates(2) [of d] by (auto simp: window_filter_def)
  have "mset (map tel_of ds) = image_mset tel_of (mset (filter (matches ?f) ?T))" by (simp add: ds(1))
  also have "\<dots> = mset (map tel_of (filter (matches ?f) ?T))" by simp
  also have "\<dots> = {#t \<in># mset (map tel_of ?T). tel_DeviceID t = k
      \<and> (IsZero since \<or> mongo_Date M since \<le> tel_Timestamp t)#}"
    using win by (rule filter_mset_val)
  finally have view: "mset (map tel_of ds)
      = {#t \<in># mtel docs s k. IsZero since \<or> mongo_Date M since \<le> tel_Timestamp t#}"
    by (simp add: mtel_def points_def filter_filter_mset)
  with all ds(2,3) show ?thesis by blast
qed

lemma mongo_window:
  assumes "mongo_ok M docs uniq up" "mongo_inv docs uniq up s"
  shows "\<exists>pts. mset pts = {#t \<in># mtel docs s k. IsZero since \<or> mongo_Date M since \<le> tel_Timestamp t#}
    \<and> sorted (map tel_Timestamp pts)
    \<and> mgo_GetTelemetry M s k since limit =
        (if 0 < limit then drop (length pts - nat limit) pts else pts)"
proof (cases "0 < limit")
  case True
  then obtain ds where ds: "\<forall>d \<in> set ds. telemetry_ok d"
    "mset (map tel_of ds) = {#t \<in># mtel docs s k. IsZero since \<or> mongo_Date M since \<le> tel_Timestamp t#}"
    "sorted (map (\<lambda>d. -1 * date_of ''timestamp'' d) ds)"
    "mongo_Find M ''telemetry'' (window_filter M k since) [(''timestamp'', -1)] limit (mgs_db s)
       = Inr (take (nat limit) ds)"
    using mongo_query [OF assms, where dir = "-1" and n = limit and k = k and since = since] by auto
  have "read_all unmarshal_telemetry docToTelemetry (Inr (take (nat limit) ds)) = map tel_of (take (nat limit) ds)"
    by (rule read_all_map) (use ds(1) ok_decodes(2) in_set_takeD in fast)
  then have read: "mgo_GetTelemetry M s k since limit = rev (map tel_of (take (nat limit) ds))"
    using True ds(4) by (simp add: mgo_GetTelemetry_def window_filter_def)
  have "sorted (map tel_Timestamp (map tel_of (rev ds)))"
    using ds(1) ok_dates(2) by (intro rev_sorted_dates [OF ds(3)]) blast
  moreover have "rev (map tel_of (take (nat limit) ds))
      = drop (length (map tel_of (rev ds)) - nat limit) (map tel_of (rev ds))"
    by (simp add: rev_take rev_map drop_map)
  moreover have "mset (map tel_of (rev ds)) = mset (map tel_of ds)" by simp
  ultimately show ?thesis using True ds(2) read by metis
next
  case False
  then obtain ds where ds: "\<forall>d \<in> set ds. telemetry_ok d"
    "mset (map tel_of ds) = {#t \<in># mtel docs s k. IsZero since \<or> mongo_Date M since \<le> tel_Timestamp t#}"
    "sorted (map (\<lambda>d. 1 * date_of ''timestamp'' d) ds)"
    "mongo_Find M ''telemetry'' (window_filter M k since) [(''timestamp'', 1)] 0 (mgs_db s) = Inr ds"
    using mongo_query [OF assms, where dir = 1 and n = 0 and k = k and since = since] by auto
  have "read_all unmarshal_telemetry docToTelemetry (Inr ds) = map tel_of ds"
    by (rule read_all_map) (use ds(1) ok_decodes(2) in fast)
  then have read: "mgo_GetTelemetry M s k since limit = map tel_of ds"
    using False ds(4) by (simp add: mgo_GetTelemetry_def window_filter_def)
  have "sorted (map tel_Timestamp (map tel_of ds))"
    using ds(1) ok_dates(2) by (intro sorted_dates [OF ds(3)]) blast
  with False ds(2) read show ?thesis by (intro exI [of _ "map tel_of ds"]) simp
qed

end
