(* ===== verification/Memory_Store_Correct.thy ===== *)
theory Memory_Store_Correct
  imports Store_Contract
begin

text \<open>
  Correctness of the in-memory store: its well-formedness invariant, that every sequence of
  method calls keeps it, that it meets the two store contracts, and the exact behaviour of
  the bounded telemetry history and of the listings under every iteration order.
\<close>

section \<open>Range loops over the store's maps\<close>

lemma drop_tokens_fold:
  "fold (\<lambda>(hash, rt) acc. if rt_UserID rt = i then fmdrop hash acc else acc) kvs m
   = fmfilter (\<lambda>h. \<forall>r. (h, r) \<in> set kvs \<longrightarrow> rt_UserID r \<noteq> i) m"
proof (induction kvs arbitrary: m)
  case Nil
  then show ?case by simp
next
  case (Cons kv kvs)
  obtain h r where kv: "kv = (h, r)" by (cases kv)
  show ?case
    by (rule fmap_ext) (auto simp: kv Cons.IH split: if_splits)
qed

text \<open>Whatever the order, the loop deletes exactly the tokens of the user.\<close>

lemma lookup_drop_tokens_of:
  "fmlookup (drop_tokens_of p i m) h =
     (case fmlookup m h of None \<Rightarrow> None | Some r \<Rightarrow> if rt_UserID r = i then None else Some r)"
  by (auto simp: drop_tokens_of_def drop_tokens_fold split: option.splits)

lemma series_of_upd [simp]:
  "series_of (fmupd k xs m) j = (if j = k then xs else series_of m j)"
  by (simp add: series_of_def)

lemma series_of_drop [simp]: "series_of (fmdrop k m) j = (if j = k then [] else series_of m j)"
  by (simp add: series_of_def)

lemma series_of_empty [simp]: "series_of fmempty k = []"
  by (simp add: series_of_def)

section \<open>Well-formedness\<close>

definition usernames_unique :: "(string, User) gomap \<Rightarrow> bool" where
  "usernames_unique m \<longleftrightarrow>
     fmpred (\<lambda>i u. fmpred (\<lambda>j v. usr_Username u = usr_Username v \<longrightarrow> i = j) m) m"

definition series_ok :: "int \<Rightarrow> string \<Rightarrow> Telemetry list \<Rightarrow> bool" where
  "series_ok cap k ts \<longleftrightarrow> ts \<noteq> [] \<and> list_all (\<lambda>t. tel_DeviceID t = k) ts
     \<and> (0 < cap \<longrightarrow> int (length ts) \<le> cap)"

definition alerts_ok :: "string \<Rightarrow> Alert list \<Rightarrow> bool" where
  "alerts_ok k as \<longleftrightarrow> as \<noteq> [] \<and> list_all (\<lambda>a. al_DeviceID a = k) as"

definition devices_ok :: "(string, Device) gomap \<Rightarrow> bool" where
  "devices_ok = fmpred (\<lambda>k d. dev_ID d = k)"

definition telemetry_ok :: "int \<Rightarrow> string fset \<Rightarrow> (string, Telemetry list) gomap \<Rightarrow> bool" where
  "telemetry_ok cap D = fmpred (\<lambda>k ts. k |\<in>| D \<and> series_ok cap k ts)"

definition users_ok :: "(string, User) gomap \<Rightarrow> bool" where
  "users_ok m \<longleftrightarrow> fmpred (\<lambda>k u. usr_ID u = k) m \<and> usernames_unique m"

definition tokens_ok :: "(string, RefreshToken) gomap \<Rightarrow> bool" where
  "tokens_ok = fmpred (\<lambda>k r. rt_TokenHash r = k)"

definition mem_wf :: "MemoryStore \<Rightarrow> bool" where
  "mem_wf s \<longleftrightarrow>
     devices_ok (ms_devices s)
   \<and> telemetry_ok (ms_maxHistory s) (fmdom (ms_devices s)) (ms_telemetry s)
   \<and> fmpred alerts_ok (ms_alerts s)
   \<and> users_ok (ms_users s)
   \<and> tokens_ok (ms_refresh s)"

lemma mem_wfD:
  assumes "mem_wf s"
  shows "fmlookup (ms_devices s) i = Some d \<Longrightarrow> dev_ID d = i"
    and "fmlookup (ms_telemetry s) i = Some ts \<Longrightarrow> i |\<in>| fmdom (ms_devices s)"
    and "fmlookup (ms_telemetry s) i = Some ts \<Longrightarrow> series_ok (ms_maxHistory s) i ts"
    and "fmlookup (ms_alerts s) i = Some as \<Longrightarrow> alerts_ok i as"
    and "fmlookup (ms_users s) i = Some u \<Longrightarrow> usr_ID u = i"
    and "fmlookup (ms_refresh s) h = Some r \<Longrightarrow> rt_TokenHash r = h"
    and "\<lbrakk>fmlookup (ms_users s) i = Some u; fmlookup (ms_users s) j = Some v;
          usr_Username u = usr_Username v\<rbrakk> \<Longrightarrow> i = j"
  using assms
  by (auto simp: mem_wf_def devices_ok_def telemetry_ok_def users_ok_def tokens_ok_def
      usernames_unique_def fmpred_iff)

lemma devices_ok_upd [wf_intros]:
  "\<lbrakk>devices_ok m; dev_ID d = k\<rbrakk> \<Longrightarrow> devices_ok (fmupd k d m)"
  by (auto simp: devices_ok_def)

lemma devices_ok_drop [wf_intros]: "devices_ok m \<Longrightarrow> devices_ok (fmdrop k m)"
  by (auto simp: devices_ok_def)

lemma telemetry_ok_mono [wf_intros]:
  "telemetry_ok cap D m \<Longrightarrow> telemetry_ok cap (finsert k D) m"
  by (auto simp: telemetry_ok_def fmpred_iff)

lemma telemetry_ok_upd [wf_intros]:
  "\<lbrakk>telemetry_ok cap D m; k |\<in>| D; series_ok cap k ts\<rbrakk> \<Longrightarrow> telemetry_ok cap D (fmupd k ts m)"
  by (auto simp: telemetry_ok_def)

lemma telemetry_ok_drop [wf_intros]:
  "telemetry_ok cap D m \<Longrightarrow> telemetry_ok cap (D |-| {|k|}) (fmdrop k m)"
  by (auto simp: telemetry_ok_def fmpred_iff split: if_splits)

lemma users_ok_upd [wf_intros]:
  assumes "users_ok m" "usr_ID u = k"
    and "\<And>j v. \<lbrakk>fmlookup m j = Some v; usr_Username v = usr_Username u\<rbrakk> \<Longrightarrow> j = k"
  shows "users_ok (fmupd k u m)"
  using assms by (fastforce simp: users_ok_def usernames_unique_def fmpred_iff split: if_splits)

lemma users_ok_drop [wf_intros]: "users_ok m \<Longrightarrow> users_ok (fmdrop k m)"
  by (auto simp: users_ok_def usernames_unique_def fmpred_iff split: if_splits)

lemma tokens_ok_upd [wf_intros]:
  "\<lbrakk>tokens_ok m; rt_TokenHash r = h\<rbrakk> \<Longrightarrow> tokens_ok (fmupd h r m)"
  by (auto simp: tokens_ok_def)

lemma tokens_ok_drop [wf_intros]: "tokens_ok m \<Longrightarrow> tokens_ok (fmdrop h m)"
  by (auto simp: tokens_ok_def)

lemma tokens_ok_drop_of [wf_intros]: "tokens_ok m \<Longrightarrow> tokens_ok (drop_tokens_of p i m)"
  by (auto simp: tokens_ok_def fmpred_iff lookup_drop_tokens_of split: option.splits if_splits)

lemma NewMemoryStore_wf: "mem_wf (NewMemoryStore n)"
  by (simp add: NewMemoryStore_def mem_wf_def devices_ok_def telemetry_ok_def users_ok_def
      tokens_ok_def usernames_unique_def)

lemma series_length_cap:
  "\<lbrakk>mem_wf s; 0 < ms_maxHistory s\<rbrakk>
     \<Longrightarrow> int (length (series_of (ms_telemetry s) k)) \<le> ms_maxHistory s"
  using mem_wfD(3) [of s k]
  by (auto simp: series_of_def series_ok_def split: option.splits)

lemma series_unknown:
  "\<lbrakk>mem_wf s; fmlookup (ms_devices s) k = None\<rbrakk> \<Longrightarrow> series_of (ms_telemetry s) k = []"
  using mem_wfD(2) [of s k] by (auto simp: series_of_def fmdom_notI split: option.splits)

lemma series_keyed:
  assumes "mem_wf s" "t \<in> set (series_of (ms_telemetry s) k)"
  shows "tel_DeviceID t = k"
proof (cases "fmlookup (ms_telemetry s) k")
  case None
  with assms(2) show ?thesis by (simp add: series_of_def)
next
  case (Some ts)
  with mem_wfD(3) [OF assms(1) Some] assms(2) show ?thesis
    by (auto simp: series_of_def series_ok_def list_all_iff)
qed

subsection \<open>Every operation keeps it\<close>

lemma wf_add_device: "mem_wf s \<Longrightarrow> mem_wf (s\<lparr>ms_devices := fmupd (dev_ID d) d (ms_devices s)\<rparr>)"
  by (auto simp: mem_wf_def intro: wf_intros)

lemma wf_replace_device:
  assumes "mem_wf s" "fmlookup (ms_devices s) i = Some d" "dev_ID d' = dev_ID d"
  shows "mem_wf (s\<lparr>ms_devices := fmupd i d' (ms_devices s)\<rparr>)"
  using assms mem_wfD(1) [OF assms(1,2)] by (auto simp: mem_wf_def intro: wf_intros)

lemma wf_drop_device: "mem_wf s \<Longrightarrow> mem_wf (s\<lparr>ms_devices := fmdrop i (ms_devices s),
    ms_telemetry := fmdrop i (ms_telemetry s), ms_alerts := fmdrop i (ms_alerts s)\<rparr>)"
  by (auto simp: mem_wf_def intro: wf_intros)

lemma wf_CreateDevice: "\<lbrakk>mem_wf s; mem_CreateDevice s d = (e, s')\<rbrakk> \<Longrightarrow> mem_wf s'"
  by (auto simp: mem_CreateDevice_def wf_add_device split: option.splits)

lemma wf_UpdateDevice: "\<lbrakk>mem_wf s; mem_UpdateDevice s i n t l m = (e, s')\<rbrakk> \<Longrightarrow> mem_wf s'"
  by (auto simp: mem_UpdateDevice_def intro: wf_replace_device split: option.splits)

lemma wf_UpdateDeviceStatus:
  "\<lbrakk>mem_wf s; mem_UpdateDeviceStatus s i st seen = (e, s')\<rbrakk> \<Longrightarrow> mem_wf s'"
  by (auto simp: mem_UpdateDeviceStatus_def Let_def intro: wf_replace_device
      split: option.splits if_splits)

lemma wf_DeleteDevice: "\<lbrakk>mem_wf s; mem_DeleteDevice s i = (e, s')\<rbrakk> \<Longrightarrow> mem_wf s'"
  by (auto simp: mem_DeleteDevice_def wf_drop_device split: option.splits)

text \<open>The series \<open>AddTelemetry\<close> leaves behind.\<close>

definition capped :: "int \<Rightarrow> 'a list \<Rightarrow> 'a list" where
  "capped n xs = (if 0 < n \<and> n < int (length xs) then slice_tail n xs else xs)"

lemma mem_AddTelemetry_capped:
  "mem_AddTelemetry s t =
     (if fmlookup (ms_devices s) (tel_DeviceID t) = None then (Some ErrNotFound, s)
      else (None, s\<lparr>ms_telemetry := fmupd (tel_DeviceID t)
         (capped (ms_maxHistory s) (series_of (ms_telemetry s) (tel_DeviceID t) @ [t]))
         (ms_telemetry s)\<rparr>))"
  by (auto simp: mem_AddTelemetry_def capped_def Let_def split: option.splits)

lemma set_capped: "set (capped n xs) \<subseteq> set xs"
  by (simp add: capped_def set_slice_tail)

lemma length_capped: "int (length (capped n xs)) =
    (if 0 < n then min n (int (length xs)) else int (length xs))"
  by (auto simp: capped_def length_slice_tail)

lemma capped_nonempty [simp]: "capped n xs = [] \<longleftrightarrow> xs = []"
  by (auto simp: capped_def slice_tail_def)

lemma mset_capped: "mset (capped n xs) \<subseteq># mset xs"
  by (simp add: capped_def slice_tail_def) (metis append_take_drop_id mset_append mset_subset_eq_add_right)

lemma series_ok_capped:
  assumes "mem_wf s"
  shows "series_ok (ms_maxHistory s) (tel_DeviceID t)
    (capped (ms_maxHistory s) (series_of (ms_telemetry s) (tel_DeviceID t) @ [t]))"
proof -
  let ?xs = "series_of (ms_telemetry s) (tel_DeviceID t) @ [t]"
  have "\<forall>u \<in> set (capped (ms_maxHistory s) ?xs). tel_DeviceID u = tel_DeviceID t"
    using set_capped [of "ms_maxHistory s" ?xs] series_keyed [OF assms] by fastforce
  then show ?thesis by (simp add: series_ok_def list_all_iff length_capped)
qed

lemma wf_AddTelemetry: "\<lbrakk>mem_wf s; mem_AddTelemetry s t = (e, s')\<rbrakk> \<Longrightarrow> mem_wf s'"
  using series_ok_capped [of s t]
  by (auto simp: mem_AddTelemetry_capped mem_wf_def intro!: telemetry_ok_upd fmdomI
      split: if_splits)

lemma alerts_ok_append:
  "fmpred alerts_ok m \<Longrightarrow> alerts_ok (al_DeviceID a) (series_of m (al_DeviceID a) @ [a])"
  by (auto simp: alerts_ok_def series_of_def fmpred_iff split: option.splits)

lemma wf_AddAlert: "\<lbrakk>mem_wf s; mem_AddAlert s a = (e, s')\<rbrakk> \<Longrightarrow> mem_wf s'"
  by (auto simp: mem_AddAlert_def mem_wf_def intro!: fmpred_upd alerts_ok_append)

lemma find_range_None:
  "find (\<lambda>(_, u). P u) (range_map p m) = None \<longleftrightarrow> (\<forall>k u. fmlookup m k = Some u \<longrightarrow> \<not> P u)"
  by (force simp: find_None_iff)

lemma find_range_Some:
  assumes "find (\<lambda>(_, u). P u) (range_map p m) = Some (k, u)"
  shows "fmlookup m k = Some u \<and> P u"
proof -
  from assms have "(k, u) \<in> set (range_map p m)" "P u"
    by (auto simp: find_Some_iff in_set_conv_nth)
  then show ?thesis by simp
qed

lemma wf_CreateUser: "\<lbrakk>mem_wf s; mem_CreateUser p s u = (e, s')\<rbrakk> \<Longrightarrow> mem_wf s'"
  by (auto simp: mem_CreateUser_def mem_wf_def find_range_None intro!: wf_intros
      split: option.splits)

lemma wf_UpdateUser:
  assumes "mem_wf s" "mem_UpdateUser s u = (e, s')"
    and "\<And>v. fmlookup (ms_users s) (usr_ID u) = Some v \<Longrightarrow> usr_Username v = usr_Username u"
  shows "mem_wf s'"
proof (cases "fmlookup (ms_users s) (usr_ID u)")
  case None
  with assms show ?thesis by (simp add: mem_UpdateUser_def)
next
  case (Some v)
  with assms have "\<And>j w. \<lbrakk>fmlookup (ms_users s) j = Some w; usr_Username w = usr_Username u\<rbrakk>
      \<Longrightarrow> j = usr_ID u"
    using mem_wfD(7) [OF assms(1)] by metis
  with Some assms(1,2) show ?thesis
    by (auto simp: mem_UpdateUser_def mem_wf_def intro!: users_ok_upd)
qed

lemma wf_DeleteUser: "\<lbrakk>mem_wf s; mem_DeleteUser p s i = (e, s')\<rbrakk> \<Longrightarrow> mem_wf s'"
  by (auto simp: mem_DeleteUser_def mem_wf_def intro: wf_intros split: option.splits)

lemma wf_StoreRefreshToken: "\<lbrakk>mem_wf s; mem_StoreRefreshToken s r = (e, s')\<rbrakk> \<Longrightarrow> mem_wf s'"
  by (auto simp: mem_StoreRefreshToken_def mem_wf_def intro: wf_intros)

lemma wf_DeleteRefreshToken: "\<lbrakk>mem_wf s; mem_DeleteRefreshToken s h = (e, s')\<rbrakk> \<Longrightarrow> mem_wf s'"
  by (auto simp: mem_DeleteRefreshToken_def mem_wf_def intro: wf_intros)

lemma wf_DeleteUserRefreshTokens:
  "\<lbrakk>mem_wf s; mem_DeleteUserRefreshTokens p s i = (e, s')\<rbrakk> \<Longrightarrow> mem_wf s'"
  by (auto simp: mem_DeleteUserRefreshTokens_def mem_wf_def intro: wf_intros)

lemmas mem_wf_steps = wf_CreateDevice wf_UpdateDevice wf_UpdateDeviceStatus wf_DeleteDevice
  wf_AddTelemetry wf_AddAlert wf_CreateUser wf_UpdateUser wf_DeleteUser wf_StoreRefreshToken
  wf_DeleteRefreshToken wf_DeleteUserRefreshTokens

section \<open>Histories of method calls\<close>

text \<open>
  One method call that writes, with the iteration order it meets. The caller of
  \<open>UpdateUser\<close> passes a user read from the store, so the username it writes back is the
  stored one.
\<close>

inductive mem_step :: "MemoryStore \<Rightarrow> MemoryStore \<Rightarrow> bool" where
  CreateDevice: "mem_CreateDevice s d = (e, s') \<Longrightarrow> mem_step s s'"
| UpdateDevice: "mem_UpdateDevice s i n t l m = (e, s') \<Longrightarrow> mem_step s s'"
| UpdateDeviceStatus: "mem_UpdateDeviceStatus s i st seen = (e, s') \<Longrightarrow> mem_step s s'"
| DeleteDevice: "mem_DeleteDevice s i = (e, s') \<Longrightarrow> mem_step s s'"
| AddTelemetry: "mem_AddTelemetry s t = (e, s') \<Longrightarrow> mem_step s s'"
| AddAlert: "mem_AddAlert s a = (e, s') \<Longrightarrow> mem_step s s'"
| CreateUser: "mem_CreateUser p s u = (e, s') \<Longrightarrow> mem_step s s'"
| UpdateUser: "\<lbrakk>mem_GetUserByID s (usr_ID u) = Inr v; usr_Username v = usr_Username u;
     mem_UpdateUser s u = (e, s')\<rbrakk> \<Longrightarrow> mem_step s s'"
| DeleteUser: "mem_DeleteUser p s i = (e, s') \<Longrightarrow> mem_step s s'"
| StoreRefreshToken: "mem_StoreRefreshToken s r = (e, s') \<Longrightarrow> mem_step s s'"
| DeleteRefreshToken: "mem_DeleteRefreshToken s h = (e, s') \<Longrightarrow> mem_step s s'"
| DeleteUserRefreshTokens: "mem_DeleteUserRefreshTokens p s i = (e, s') \<Longrightarrow> mem_step s s'"

inductive mem_reachable :: "int \<Rightarrow> MemoryStore \<Rightarrow> bool" for n where
  start: "mem_reachable n (NewMemoryStore n)"
| step: "\<lbrakk>mem_reachable n s; mem_step s s'\<rbrakk> \<Longrightarrow> mem_reachable n s'"

lemma mem_step_wf: "mem_step s s' \<Longrightarrow> mem_wf s \<Longrightarrow> mem_wf s'"
proof (induction rule: mem_step.induct)
  case (UpdateUser s u v e s')
  then show ?case
    by (intro wf_UpdateUser [of s u e s']) (auto simp: mem_GetUserByID_def split: option.splits)
qed (auto dest: mem_wf_steps)

lemma mem_step_maxHistory: "mem_step s s' \<Longrightarrow> ms_maxHistory s' = ms_maxHistory s"
  by (induction rule: mem_step.induct)
    (auto simp: model_defs Let_def split: option.splits)

lemma mem_reachable_wf: "mem_reachable n s \<Longrightarrow> mem_wf s \<and> ms_maxHistory s = n"
  by (induction rule: mem_reachable.induct)
    (auto simp: NewMemoryStore_wf mem_step_wf mem_step_maxHistory, simp add: NewMemoryStore_def)

section \<open>The contracts hold\<close>

lemma list_devices_facts:
  assumes "mem_wf s"
  shows "set (mem_ListDevices p q s) = ran (fmlookup (ms_devices s))"
    and "distinct (map dev_ID (mem_ListDevices p q s))"
    and "sorted (map dev_RegisteredAt (mem_ListDevices p q s))"
proof -
  let ?r = "range_map p (ms_devices s)"
  show "set (mem_ListDevices p q s) = ran (fmlookup (ms_devices s))"
    by (simp add: mem_ListDevices_def)
  have "map dev_ID (map snd ?r) = map fst ?r"
    using mem_wfD(1) [OF assms] by auto
  then have "distinct (map dev_ID (map snd ?r))" by (simp only: distinct_range_map)
  then show "distinct (map dev_ID (mem_ListDevices p q s))"
    by (simp only: mem_ListDevices_def distinct_map_sort_Slice)
  show "sorted (map dev_RegisteredAt (mem_ListDevices p q s))"
    by (simp add: mem_ListDevices_def)
qed

lemma device_noop [simp]: "d\<lparr>dev_LastSeenAt := dev_LastSeenAt d\<rparr> = (d :: Device)"
  by simp

interpretation mem_dev: device_contract mem_store id mem_wf "\<lambda>s. fmlookup (ms_devices s)"
proof (unfold_locales, unfold kept_id id_apply)
  fix s p q assume "mem_wf s"
  then show "set (ListDevices mem_store p q s) = ran (fmlookup (ms_devices s))"
    "distinct (map dev_ID (ListDevices mem_store p q s))"
    "sorted (map dev_RegisteredAt (ListDevices mem_store p q s))"
    by (simp_all add: mem_store_def list_devices_facts)
next
  fix s i d st seen e s'
  assume *: "mem_wf s" "fmlookup (ms_devices s) i = Some d"
    "UpdateDeviceStatus mem_store s i st seen = (e, s')"
  then have "mem_wf s'" by (simp add: mem_store_def wf_UpdateDeviceStatus)
  with * show "e = None \<and> mem_wf s' \<and> fmlookup (ms_devices s') = (fmlookup (ms_devices s))(i \<mapsto>
      d\<lparr>dev_Status := st, dev_LastSeenAt := (if IsZero seen then dev_LastSeenAt d else seen)\<rparr>)"
    by (auto simp: mem_store_def mem_UpdateDeviceStatus_def Let_def)
qed (auto simp: mem_store_def mem_GetDevice_def mem_CreateDevice_def mem_UpdateDevice_def
      mem_UpdateDeviceStatus_def mem_DeleteDevice_def wf_add_device wf_drop_device
      dest: mem_wfD(1) intro: wf_replace_device split: option.splits)

interpretation mem: store_contract mem_store id mem_wf "\<lambda>s. fmlookup (ms_devices s)"
  "\<lambda>s k. mset (series_of (ms_telemetry s) k)" "\<lambda>s k. mset (series_of (ms_alerts s) k)"
  ms_maxHistory
proof (unfold_locales, unfold kept_id id_apply)
  fix s s' d e and t :: Telemetry
  assume *: "mem_wf s" "fmlookup (ms_devices s) (tel_DeviceID t) = Some d"
    "AddTelemetry mem_store s t = (e, s')"
  then have "mem_wf s'" by (simp add: mem_store_def wf_AddTelemetry)
  moreover have "mset (capped (ms_maxHistory s) (series_of (ms_telemetry s) (tel_DeviceID t) @ [t]))
      \<subseteq># add_mset t (mset (series_of (ms_telemetry s) (tel_DeviceID t)))"
    using mset_capped [of "ms_maxHistory s" "series_of (ms_telemetry s) (tel_DeviceID t) @ [t]"]
    by simp
  ultimately show "e = None \<and> mem_wf s' \<and> fmlookup (ms_devices s') = fmlookup (ms_devices s)
      \<and> (\<lambda>k. mset (series_of (ms_alerts s') k)) = (\<lambda>k. mset (series_of (ms_alerts s) k))
      \<and> ms_maxHistory s' = ms_maxHistory s
      \<and> (\<forall>k. k \<noteq> tel_DeviceID t \<longrightarrow>
          mset (series_of (ms_telemetry s') k) = mset (series_of (ms_telemetry s) k))
      \<and> mset (series_of (ms_telemetry s') (tel_DeviceID t))
          \<subseteq># add_mset t (mset (series_of (ms_telemetry s) (tel_DeviceID t)))
      \<and> int (size (mset (series_of (ms_telemetry s') (tel_DeviceID t)))) =
          (if 0 < ms_maxHistory s
           then min (ms_maxHistory s)
             (int (size (mset (series_of (ms_telemetry s) (tel_DeviceID t)))) + 1)
           else int (size (mset (series_of (ms_telemetry s) (tel_DeviceID t)))) + 1)"
    using * by (auto simp: mem_store_def mem_AddTelemetry_capped length_capped)
next
  fix s and t :: Telemetry
  assume "mem_wf s" "fmlookup (ms_devices s) (tel_DeviceID t) = None"
  then show "AddTelemetry mem_store s t = (Some ErrNotFound, s)"
    by (simp add: mem_store_def mem_AddTelemetry_capped)
next
  fix s k
  assume "mem_wf s" "0 < ms_maxHistory s"
  then show "int (size (mset (series_of (ms_telemetry s) k))) \<le> ms_maxHistory s"
    by (simp add: series_length_cap)
next
  fix s k
  assume "mem_wf s" "fmlookup (ms_devices s) k = None"
  then show "mset (series_of (ms_telemetry s) k) = {#}" by (simp add: series_unknown)
next
  fix s s' e and a :: Alert
  assume "mem_wf s" "AddAlert mem_store s a = (e, s')"
  then show "e = None \<and> mem_wf s' \<and> fmlookup (ms_devices s') = fmlookup (ms_devices s)
      \<and> (\<lambda>k. mset (series_of (ms_telemetry s') k)) = (\<lambda>k. mset (series_of (ms_telemetry s) k))
      \<and> ms_maxHistory s' = ms_maxHistory s
      \<and> (\<lambda>k. mset (series_of (ms_alerts s') k)) = (\<lambda>k. mset (series_of (ms_alerts s) k))
          (al_DeviceID a := add_mset a (mset (series_of (ms_alerts s) (al_DeviceID a))))"
    using wf_AddAlert [of s a e s'] by (auto simp: mem_store_def mem_AddAlert_def fun_eq_iff)
qed (auto simp: mem_store_def mem_UpdateDeviceStatus_def mem_CreateDevice_def mem_DeleteDevice_def
      mem_ListAlerts_def Let_def fun_eq_iff split: option.splits)

interpretation mem_usr: user_contract mem_user_store id mem_wf "\<lambda>s. fmlookup (ms_users s)"
  "\<lambda>s. fmlookup (ms_refresh s)"
proof (unfold_locales, unfold kept_id id_apply)
  fix s p n u
  assume wf: "mem_wf s"
  show "GetUserByUsername mem_user_store p s n = Inr u \<longleftrightarrow>
      fmlookup (ms_users s) (usr_ID u) = Some u \<and> usr_Username u = n"
  proof
    assume "GetUserByUsername mem_user_store p s n = Inr u"
    then obtain k where "find (\<lambda>(_, u). usr_Username u = n) (range_map p (ms_users s)) = Some (k, u)"
      by (auto simp: mem_user_store_def mem_GetUserByUsername_def split: option.splits)
    from find_range_Some [OF this] mem_wfD(5) [OF wf]
    show "fmlookup (ms_users s) (usr_ID u) = Some u \<and> usr_Username u = n" by blast
  next
    assume *: "fmlookup (ms_users s) (usr_ID u) = Some u \<and> usr_Username u = n"
    then obtain k v where kv:
      "find (\<lambda>(_, u). usr_Username u = n) (range_map p (ms_users s)) = Some (k, v)"
      using find_range_None [of "\<lambda>u. usr_Username u = n" p "ms_users s"] by fastforce
    from find_range_Some [OF this] * mem_wfD(7) [OF wf] have "v = u" by fastforce
    with kv show "GetUserByUsername mem_user_store p s n = Inr u"
      by (simp add: mem_user_store_def mem_GetUserByUsername_def)
  qed
next
  fix s s' p e and u :: User
  assume *: "mem_wf s" "fmlookup (ms_users s) (usr_ID u) = None"
    "\<forall>i v. fmlookup (ms_users s) i = Some v \<longrightarrow> usr_Username v \<noteq> usr_Username u"
    "CreateUser mem_user_store p s u = (e, s')"
  then show "e = None \<and> mem_wf s' \<and> fmlookup (ms_users s') = (fmlookup (ms_users s))(usr_ID u \<mapsto> u)
      \<and> fmlookup (ms_refresh s') = fmlookup (ms_refresh s)"
    using wf_CreateUser [of s p u e s']
      find_range_None [of "\<lambda>v. usr_Username v = usr_Username u" p "ms_users s", THEN iffD2]
    by (auto simp: mem_user_store_def mem_CreateUser_def)
next
  fix s i v p and u :: User
  assume "mem_wf s" "fmlookup (ms_users s) i = Some v" "usr_Username v = usr_Username u"
  then show "CreateUser mem_user_store p s u = (Some ErrDuplicateUser, s)"
    using find_range_None [of "\<lambda>v. usr_Username v = usr_Username u" p "ms_users s"]
    by (auto simp: mem_user_store_def mem_CreateUser_def split: option.splits)
next
  fix s s' v e and u :: User
  assume "mem_wf s" "fmlookup (ms_users s) (usr_ID u) = Some v" "usr_Username v = usr_Username u"
    "UpdateUser mem_user_store s u = (e, s')"
  then show "e = None \<and> mem_wf s' \<and> fmlookup (ms_users s') = (fmlookup (ms_users s))(usr_ID u \<mapsto> u)
      \<and> fmlookup (ms_refresh s') = fmlookup (ms_refresh s)"
    using wf_UpdateUser [of s u e s'] by (auto simp: mem_user_store_def mem_UpdateUser_def)
next
  fix s i v p e s'
  assume "mem_wf s" "fmlookup (ms_users s) i = Some v" "DeleteUser mem_user_store p s i = (e, s')"
  then show "e = None \<and> mem_wf s' \<and> fmlookup (ms_users s') = (fmlookup (ms_users s))(i := None)
      \<and> fmlookup (ms_refresh s') = (\<lambda>h. case fmlookup (ms_refresh s) h of None \<Rightarrow> None
          | Some r \<Rightarrow> if rt_UserID r = i then None else Some r)"
    using wf_DeleteUser [of s p i e s']
    by (auto simp: mem_user_store_def mem_DeleteUser_def lookup_drop_tokens_of fun_eq_iff)
next
  fix s s' e and r :: RefreshToken
  assume "mem_wf s" "StoreRefreshToken mem_user_store s r = (e, s')"
  then show "e = None \<and> mem_wf s' \<and> fmlookup (ms_users s') = fmlookup (ms_users s)
      \<and> fmlookup (ms_refresh s') = (fmlookup (ms_refresh s))(rt_TokenHash r \<mapsto> r)"
    using wf_StoreRefreshToken [of s r e s']
    by (auto simp: mem_user_store_def mem_StoreRefreshToken_def)
next
  fix s h e s'
  assume "mem_wf s" "DeleteRefreshToken mem_user_store s h = (e, s')"
  then show "e = None \<and> mem_wf s' \<and> fmlookup (ms_users s') = fmlookup (ms_users s)
      \<and> fmlookup (ms_refresh s') = (fmlookup (ms_refresh s))(h := None)"
    using wf_DeleteRefreshToken [of s h e s']
    by (auto simp: mem_user_store_def mem_DeleteRefreshToken_def)
next
  fix s p i e s'
  assume "mem_wf s" "DeleteUserRefreshTokens mem_user_store p s i = (e, s')"
  then show "e = None \<and> mem_wf s' \<and> fmlookup (ms_users s') = fmlookup (ms_users s)
      \<and> fmlookup (ms_refresh s') = (\<lambda>h. case fmlookup (ms_refresh s) h of None \<Rightarrow> None
          | Some r \<Rightarrow> if rt_UserID r = i then None else Some r)"
    using wf_DeleteUserRefreshTokens [of s p i e s']
    by (auto simp: mem_user_store_def mem_DeleteUserRefreshTokens_def lookup_drop_tokens_of
        fun_eq_iff)
qed (auto simp: mem_user_store_def mem_GetUserByID_def mem_GetUserByUsername_def mem_UpdateUser_def
      mem_DeleteUser_def mem_GetRefreshToken_def dest: mem_wfD split: option.splits)

section \<open>The bounded history\<close>

definition add_all :: "Telemetry list \<Rightarrow> MemoryStore \<Rightarrow> MemoryStore" where
  "add_all ts s = fold (\<lambda>t s. snd (mem_AddTelemetry s t)) ts s"

lemma capped_absorb: "capped n (capped n xs @ ys) = capped n (xs @ ys)"
  by (auto simp: capped_def slice_tail_def)

lemma capped_idem [simp]: "capped n (capped n xs) = capped n xs"
  using capped_absorb [of n xs "[]"] by simp

lemma capped_short: "n \<le> 0 \<or> int (length xs) \<le> n \<Longrightarrow> capped n xs = xs"
  by (auto simp: capped_def)

lemma AddTelemetry_frame [simp]:
  "ms_devices (snd (mem_AddTelemetry s t)) = ms_devices s"
  "ms_maxHistory (snd (mem_AddTelemetry s t)) = ms_maxHistory s"
  by (simp_all add: mem_AddTelemetry_capped)

lemma series_AddTelemetry:
  "series_of (ms_telemetry (snd (mem_AddTelemetry s t))) k =
     (if tel_DeviceID t = k \<and> fmlookup (ms_devices s) k \<noteq> None
      then capped (ms_maxHistory s) (series_of (ms_telemetry s) k @ [t])
      else series_of (ms_telemetry s) k)"
  by (auto simp: mem_AddTelemetry_capped)

lemma series_add_all:
  assumes "fmlookup (ms_devices s) k \<noteq> None"
    and "capped (ms_maxHistory s) (series_of (ms_telemetry s) k) = series_of (ms_telemetry s) k"
  shows "series_of (ms_telemetry (add_all ts s)) k =
    capped (ms_maxHistory s)
      (series_of (ms_telemetry s) k @ filter (\<lambda>t. tel_DeviceID t = k) ts)"
  using assms
proof (induction ts arbitrary: s)
  case Nil
  then show ?case by (simp add: add_all_def)
next
  case (Cons t ts)
  let ?s = "snd (mem_AddTelemetry s t)"
  have step: "add_all (t # ts) s = add_all ts ?s" by (simp add: add_all_def)
  have stays: "capped (ms_maxHistory ?s) (series_of (ms_telemetry ?s) k)
      = series_of (ms_telemetry ?s) k"
    using Cons.prems by (simp add: series_AddTelemetry)
  from stays Cons.prems(1) have "series_of (ms_telemetry (add_all ts ?s)) k =
      capped (ms_maxHistory s) (series_of (ms_telemetry ?s) k @ filter (\<lambda>t. tel_DeviceID t = k) ts)"
    using Cons.IH [of ?s] by simp
  then show ?case
    using Cons.prems(1) by (simp add: step series_AddTelemetry capped_absorb)
qed

lemma wf_series_capped:
  "mem_wf s \<Longrightarrow> capped (ms_maxHistory s) (series_of (ms_telemetry s) k) = series_of (ms_telemetry s) k"
  using series_length_cap [of s k] by (intro capped_short) linarith

text \<open>
  C9: After any sequence of \<open>AddTelemetry\<close> calls on a well-formed store, the history of a
  registered device is what was kept before followed by the accepted points of that device
  in the order of the calls, cut to its last \<open>maxHistory\<close> entries when \<open>maxHistory\<close> is
  positive. Points for other devices, known or not, do not disturb it.
\<close>

theorem telemetry_history:
  assumes "mem_wf s" "fmlookup (ms_devices s) k = Some d"
  shows "series_of (ms_telemetry (add_all ts s)) k =
    (let all = series_of (ms_telemetry s) k @ filter (\<lambda>t. tel_DeviceID t = k) ts
     in if ms_maxHistory s \<le> 0 then all else drop (length all - nat (ms_maxHistory s)) all)"
  using series_add_all [of s k ts] wf_series_capped [OF assms(1), of k] assms(2)
  by (auto simp: capped_def slice_tail_def Let_def)

definition sample_device :: Device where
  "sample_device = \<lparr>dev_ID = ''d1'', dev_Name = ''thermostat'', dev_Type = ''sensor'',
     dev_Location = ''lab'', dev_Metadata = fmempty, dev_Status = StatusUnknown,
     dev_RegisteredAt = 5, dev_LastSeenAt = 0\<rparr>"

definition sample_point :: "string \<Rightarrow> time \<Rightarrow> Telemetry" where
  "sample_point i ts = \<lparr>tel_DeviceID = i, tel_Timestamp = ts,
     tel_Metrics = fmupd ''temperature'' (Fin 85) fmempty\<rparr>"

definition sample_store :: "int \<Rightarrow> MemoryStore" where
  "sample_store n = snd (mem_CreateDevice (NewMemoryStore n) sample_device)"

lemma sample_store_wf: "mem_wf (sample_store n)"
  unfolding sample_store_def using wf_CreateDevice [OF NewMemoryStore_wf] by (metis prod.collapse)

lemma sample_store_device: "fmlookup (ms_devices (sample_store n)) ''d1'' = Some sample_device"
  by (simp add: sample_store_def mem_CreateDevice_def NewMemoryStore_def sample_device_def)

theorem telemetry_history_witness:
  "series_of (ms_telemetry (add_all [sample_point ''d1'' 10, sample_point ''zz'' 11,
       sample_point ''d1'' 12, sample_point ''d1'' 13] (sample_store 2))) ''d1''
   = [sample_point ''d1'' 12, sample_point ''d1'' 13]"
  using telemetry_history [OF sample_store_wf [of 2] sample_store_device, of
      "[sample_point ''d1'' 10, sample_point ''zz'' 11, sample_point ''d1'' 12, sample_point ''d1'' 13]"]
  by (simp add: sample_store_def mem_CreateDevice_def NewMemoryStore_def sample_device_def
      sample_point_def)



section \<open>Reading it back\<close>

text \<open>
  \<open>GetTelemetry\<close> returns, in the order of arrival, the kept points of the device that are
  not older than \<open>since\<close> (all of them when \<open>since\<close> is the zero time), and of those the last
  \<open>limit\<close> when \<open>limit\<close> is positive.
\<close>

theorem get_telemetry_window:
  "mem_GetTelemetry s k since limit =
    (let out = filter (\<lambda>t. since = 0 \<or> since \<le> tel_Timestamp t) (series_of (ms_telemetry s) k)
     in if limit \<le> 0 then out else drop (length out - nat limit) out)"
proof -
  have eq: "(\<lambda>t. IsZero since \<or> After (tel_Timestamp t) since \<or> Equal (tel_Timestamp t) since)
      = (\<lambda>t. since = 0 \<or> since \<le> tel_Timestamp t)"
    by (auto simp: go_defs)
  show ?thesis unfolding mem_GetTelemetry_def eq
    by (auto simp: slice_tail_def Let_def)
qed

text \<open>
  If the points of a device arrive with non-decreasing timestamps, \<open>GetTelemetry\<close> lists
  them newest last, for every window and limit.
\<close>

theorem get_telemetry_newest_last:
  assumes "mem_wf s" "fmlookup (ms_devices s) k = Some d"
    and "sorted (map tel_Timestamp
           (series_of (ms_telemetry s) k @ filter (\<lambda>t. tel_DeviceID t = k) ts))"
  shows "sorted (map tel_Timestamp (mem_GetTelemetry (add_all ts s) k since limit))"
proof -
  have "sorted (map tel_Timestamp (series_of (ms_telemetry (add_all ts s)) k))"
    using assms(3) series_add_all [of s k ts] wf_series_capped [OF assms(1), of k] assms(2)
    by (auto simp: capped_def intro: sorted_slice_tail)
  then show ?thesis
    unfolding mem_GetTelemetry_def Let_def
    by (auto intro!: sorted_slice_tail sorted_filter)
qed

theorem get_telemetry_newest_last_witness:
  "sorted (map tel_Timestamp (mem_GetTelemetry
     (add_all [sample_point ''d1'' 10, sample_point ''d1'' 12] (sample_store 0)) ''d1'' 0 1))"
  by (rule get_telemetry_newest_last [OF sample_store_wf sample_store_device])
    (simp add: sample_store_def mem_CreateDevice_def NewMemoryStore_def sample_point_def
      sample_device_def)

text \<open>
  The order is the order of arrival, not of the timestamps: a point that arrives late is
  returned last, and \<open>limit\<close> keeps the latest arrivals. With points stamped 20 and then 10,
  a limit of one returns the older point.
\<close>

theorem get_telemetry_arrival_order:
  "mem_GetTelemetry (add_all [sample_point ''d1'' 20, sample_point ''d1'' 10] (sample_store 0))
     ''d1'' 0 0 = [sample_point ''d1'' 20, sample_point ''d1'' 10]
   \<and> mem_GetTelemetry (add_all [sample_point ''d1'' 20, sample_point ''d1'' 10] (sample_store 0))
     ''d1'' 0 1 = [sample_point ''d1'' 10]"
  using series_add_all [of "sample_store 0" "''d1''" "[sample_point ''d1'' 20, sample_point ''d1'' 10]"]
    wf_series_capped [OF sample_store_wf, of 0 "''d1''"] sample_store_device [of 0]
  by (simp add: mem_GetTelemetry_def go_defs slice_tail_def sample_store_def mem_CreateDevice_def
      NewMemoryStore_def sample_device_def sample_point_def capped_def)

section \<open>Listings\<close>

text \<open>
  C35: The lists that \<open>ListDevices\<close> can return, over all map iteration orders and all ways an
  unstable sort may leave ties, are exactly the enumerations of the registered devices,
  each once, by non-decreasing registration time.
\<close>

theorem list_devices_exact:
  assumes "mem_wf s"
  shows "(\<exists>p q. mem_ListDevices p q s = ds) \<longleftrightarrow>
    set ds = ran (fmlookup (ms_devices s)) \<and> distinct (map dev_ID ds)
    \<and> sorted (map dev_RegisteredAt ds)"
proof
  assume "\<exists>p q. mem_ListDevices p q s = ds"
  then show "set ds = ran (fmlookup (ms_devices s)) \<and> distinct (map dev_ID ds)
    \<and> sorted (map dev_RegisteredAt ds)"
    using list_devices_facts [OF assms] by blast
next
  assume ds: "set ds = ran (fmlookup (ms_devices s)) \<and> distinct (map dev_ID ds)
    \<and> sorted (map dev_RegisteredAt ds)"
  let ?xs = "map snd (range_map [] (ms_devices s))"
  have "distinct (map dev_ID (mem_ListDevices [] [] s))" by (rule list_devices_facts [OF assms])
  then have "distinct (map dev_ID ?xs)"
    by (simp only: mem_ListDevices_def distinct_map_sort_Slice)
  then have "distinct ?xs" by (rule distinct_map [THEN iffD1, THEN conjunct1])
  moreover from ds have "distinct ds" by (simp add: distinct_map)
  ultimately have "mset ds = mset ?xs"
    using ds set_eq_iff_mset_eq_distinct [of ds ?xs] by simp
  from sort_Slice_complete [OF this, of dev_RegisteredAt] ds
  show "\<exists>p q. mem_ListDevices p q s = ds" unfolding mem_ListDevices_def by blast
qed

theorem list_devices_exact_witness:
  "\<exists>p q. mem_ListDevices p q (sample_store 0) = [sample_device]"
  by (subst list_devices_exact [OF sample_store_wf])
    (simp add: sample_store_def mem_CreateDevice_def NewMemoryStore_def ran_def)

lemma filter_concat_range:
  assumes "\<And>k xs x. \<lbrakk>(k, xs) \<in> set kvs; x \<in> set xs\<rbrakk> \<Longrightarrow> f x = k" "distinct (map fst kvs)"
  shows "filter (\<lambda>x. f x = k) (concat (map snd kvs)) =
    (case map_of kvs k of None \<Rightarrow> [] | Some xs \<Rightarrow> xs)"
  using assms
proof (induction kvs)
  case Nil
  then show ?case by simp
next
  case (Cons kv kvs)
  obtain j xs where kv: "kv = (j, xs)" by (cases kv)
  have xs: "\<forall>x \<in> set xs. f x = j" using Cons.prems(1) kv by auto
  have rest: "filter (\<lambda>x. f x = k) (concat (map snd kvs)) =
      (case map_of kvs k of None \<Rightarrow> [] | Some xs \<Rightarrow> xs)"
    using Cons.prems by (intro Cons.IH) auto
  show ?case
  proof (cases "j = k")
    case True
    with Cons.prems(2) kv have "map_of kvs k = None" by (simp add: map_of_eq_None_iff)
    with True xs rest show ?thesis by (simp add: kv)
  next
    case False
    with xs have "filter (\<lambda>x. f x = k) xs = []" by (simp add: filter_empty_conv)
    with False rest show ?thesis by (simp add: kv)
  qed
qed

text \<open>
  \<open>ListAlerts\<close> with an empty device identifier returns every stored alert exactly as often
  as it is stored, ordered by creation time: restricted to any one device it is a
  rearrangement of that device's alerts.
\<close>

theorem list_all_alerts:
  assumes "mem_wf s"
  shows "sorted (map al_CreatedAt (mem_ListAlerts p q s ''''))
    \<and> filter_mset (\<lambda>a. al_DeviceID a = k) (mset (mem_ListAlerts p q s ''''))
        = mset (series_of (ms_alerts s) k)"
proof -
  let ?r = "range_map p (ms_alerts s)"
  have keyed: "al_DeviceID a = j" if "(j, as) \<in> set ?r" "a \<in> set as" for j as a
    using that mem_wfD(4) [OF assms] by (auto simp: alerts_ok_def list_all_iff)
  have "filter (\<lambda>a. al_DeviceID a = k) (concat (map snd ?r)) = series_of (ms_alerts s) k"
    using filter_concat_range [of ?r al_DeviceID k, OF keyed distinct_range_map]
    by (simp add: series_of_def)
  then have "filter_mset (\<lambda>a. al_DeviceID a = k) (mset (concat (map snd ?r)))
      = mset (series_of (ms_alerts s) k)"
    by (metis mset_filter)
  then show ?thesis by (simp add: mem_ListAlerts_def)
qed

definition sample_alert :: "string \<Rightarrow> time \<Rightarrow> Alert" where
  "sample_alert i ts = \<lparr>al_ID = ''a1'', al_DeviceID = i, al_Metric = ''temperature'',
     al_Value = Fin 85, al_Threshold = Fin 80, al_Severity = SeverityCritical,
     al_Message = '''', al_CreatedAt = ts\<rparr>"

theorem list_all_alerts_witness:
  "filter_mset (\<lambda>a. al_DeviceID a = ''d1'')
     (mset (mem_ListAlerts [] [] (snd (mem_AddAlert (sample_store 0) (sample_alert ''d1'' 7))) ''''))
   = {#sample_alert ''d1'' 7#}"
proof -
  have "mem_wf (snd (mem_AddAlert (sample_store 0) (sample_alert ''d1'' 7)))"
    using wf_AddAlert [OF sample_store_wf] by (metis prod.collapse)
  from list_all_alerts [OF this, of "[]" "[]" "''d1''"] show ?thesis
    by (simp add: mem_AddAlert_def sample_alert_def sample_store_def mem_CreateDevice_def
        NewMemoryStore_def)
qed

text \<open>
  C34: Deleting a device removes it together with its telemetry and its alerts, and leaves
  every other device, its history and its alerts as they were.
\<close>

theorem delete_device_removes_data:
  assumes "mem_wf s" "mem_DeleteDevice s i = (None, s')"
  shows "mem_GetDevice s' i = Inl ErrNotFound
    \<and> mem_GetTelemetry s' i since limit = []
    \<and> (i \<noteq> '''' \<longrightarrow> mem_ListAlerts p q s' i = [])
    \<and> (\<forall>j. j \<noteq> i \<longrightarrow> mem_GetDevice s' j = mem_GetDevice s j
        \<and> mem_GetTelemetry s' j since limit = mem_GetTelemetry s j since limit
        \<and> (j \<noteq> '''' \<longrightarrow> mem_ListAlerts p q s' j = mem_ListAlerts p q s j))"
  using mem.deleted_device_has_no_data [OF assms(1), of i s' p q]
    mem_dev.delete_frame [OF assms(1), of i None s'] mem_dev.get_after_delete [OF assms(1), of i s']
    assms(2)
  by (auto simp: mem_store_def mem_DeleteDevice_def mem_GetTelemetry_def mem_ListAlerts_def
      split: option.splits)

theorem delete_device_removes_data_witness:
  "mem_GetDevice (snd (mem_DeleteDevice (sample_store 0) ''d1'')) ''d1'' = Inl ErrNotFound"
proof -
  have "mem_DeleteDevice (sample_store 0) ''d1'' =
      (None, snd (mem_DeleteDevice (sample_store 0) ''d1''))"
    using sample_store_device [of 0] by (simp add: mem_DeleteDevice_def)
  from delete_device_removes_data [OF sample_store_wf this] show ?thesis by blast
qed

end
