(* ===== verification/Mongo_Users.thy ===== *)
theory Mongo_Users
  imports Mongo_Correct Memory_Store_Correct
begin

text \<open>
  The MongoDB store keeps the contract of \<open>UserStore\<close>.
\<close>

section \<open>The UserStore contract\<close>

lemma mongo_find_user:
  assumes "mongo_ok M docs uniq up" "mongo_inv docs uniq up s"
  shows "mgo_GetUserByID M s i = (case musr docs s i of None \<Rightarrow> Inl ErrNotFound | Some u \<Rightarrow> Inr u)"
    and "mgo_GetUserByUsername M s n =
      (case keyed usr_Username (map user_of (docs (mgs_db s) ''users'')) n of
         None \<Rightarrow> Inl ErrNotFound | Some u \<Rightarrow> Inr u)"
  using usrs.find_key [OF assms(1), OF invD(1,7,8) [OF assms(2)], of i]
    names.find_key [OF assms(1), OF invD(1,7,9) [OF assms(2)], of n]
  by (auto simp: mgo_GetUserByID_def mgo_GetUserByUsername_def findUser_def musr_def
      split: sum.splits mongo_error.splits)

lemma mongo_by_name:
  assumes "mongo_ok M docs uniq up" "mongo_inv docs uniq up s"
  shows "mgo_GetUserByUsername M s n = Inr u \<longleftrightarrow> musr docs s (usr_ID u) = Some u \<and> usr_Username u = n"
proof -
  let ?us = "map user_of (docs (mgs_db s) ''users'')"
  have "keyed usr_Username ?us n = Some u \<longleftrightarrow> u \<in> set ?us \<and> usr_Username u = n"
    using keyed_Some [of usr_Username ?us n u] keyed_mem [OF invD(9) [OF assms(2)], of u] by blast
  moreover have "musr docs s (usr_ID u) = Some u \<longleftrightarrow> u \<in> set ?us"
    using keyed_Some [of usr_ID ?us _ u] keyed_mem [OF invD(8) [OF assms(2)], of u]
    by (auto simp: musr_def)
  ultimately show ?thesis
    using mongo_find_user(2) [OF assms, of n] by (auto split: option.splits)
qed

lemma mongo_create_user:
  assumes "mongo_ok M docs uniq up" "mongo_inv docs uniq up s" "musr docs s (usr_ID u) = None"
    and "\<forall>i v. musr docs s i = Some v \<longrightarrow> usr_Username v \<noteq> usr_Username u"
    and "mgo_CreateUser M s u = (e, s')"
  shows "e = None \<and> mongo_inv docs uniq up s'
    \<and> musr docs s' = (musr docs s)(usr_ID u \<mapsto> kept_user (mongo_Date M) u) \<and> mtok docs s' = mtok docs s"
proof -
  note inv = invD [OF assms(2)]
  let ?doc = "marshal_user M (userToDoc u)" and ?us = "docs (mgs_db s) ''users''"
  have new: "usr_ID u \<notin> usr_ID ` set (map user_of ?us)"
    using assms(3) by (simp add: musr_def keyed_None)
  have name: "usr_Username u \<notin> usr_Username ` set (map user_of ?us)"
    using assms(4) keyed_mem [OF inv(8)] by (fastforce simp: musr_def)
  have "clash {''id'', ''username''} ?us ?doc \<longleftrightarrow> clash {''id''} ?us ?doc \<or> clash {''username''} ?us ?doc"
    by (auto simp: clash_def)
  with new name have "\<not> clash (uniq (mgs_db s) ''users'') ?us ?doc"
    using usrs.clash_key [OF inv(7), of ?doc "usr_ID u"] names.clash_key [OF inv(7), of ?doc "usr_Username u"]
      inv(2) by (simp add: indexes_wf_def marshal_keys userToDoc_def del: set_map)
  from insert_new [OF assms(1), OF inv(1) marshal_no_id(4) this] obtain j db' where ins:
    "mongo_InsertOne M ''users'' ?doc (mgs_db s) = (None, db')"
    "becomes docs uniq up (mgs_db s) ''users'' (?us @ [fmupd ''_id'' (BId j) ?doc]) db'"
    by blast
  let ?ds = "?us @ [fmupd ''_id'' (BId j) ?doc]"
  have res: "e = None" "s' = s\<lparr>mgs_db := db'\<rparr>"
    using assms(5) ins(1) by (simp_all add: mgo_CreateUser_def)
  have "users_wf ?ds" using inv(7-9) new name by (auto simp: users_wf_def stored_user)
  then have "docs_wf (mgs_maxHistory s) ((docs (mgs_db s))(''users'' := ?ds))"
    using assms(2) by (simp add: mongo_inv_def docs_wf_def)
  note inv_step [OF assms(2) ins(2) this]
  moreover have "keyed usr_ID (map user_of ?ds)
      = (keyed usr_ID (map user_of ?us))(usr_ID u \<mapsto> kept_user (mongo_Date M) u)"
    using keyed_snoc [of usr_ID "kept_user (mongo_Date M) u" "map user_of ?us"] new
    by (simp add: stored_user)
  ultimately show ?thesis using ins(2) res by (simp add: becomes_def view_defs)
qed

lemma mongo_create_duplicate:
  assumes "mongo_ok M docs uniq up" "mongo_inv docs uniq up s" "musr docs s i = Some v"
    and "usr_Username v = usr_Username u"
  shows "mgo_CreateUser M s u = (Some ErrDuplicateUser, s)"
proof -
  note inv = invD [OF assms(2)]
  let ?doc = "marshal_user M (userToDoc u)" and ?us = "docs (mgs_db s) ''users''"
  have "usr_Username u \<in> usr_Username ` set (map user_of ?us)"
    using assms(3,4) keyed_Some [of usr_ID "map user_of ?us" i v] unfolding musr_def by (metis imageI)
  then have "clash {''username''} ?us ?doc"
    using names.clash_key [OF inv(7), of ?doc "usr_Username u"] by (simp add: marshal_keys userToDoc_def)
  then have "clash (uniq (mgs_db s) ''users'') ?us ?doc"
    using inv(2) by (auto simp: indexes_wf_def clash_def)
  from insert_clash [OF assms(1), OF inv(1) marshal_no_id(4) this] show ?thesis
    by (auto simp: mgo_CreateUser_def)
qed

lemma mongo_update_user:
  assumes "mongo_ok M docs uniq up" "mongo_inv docs uniq up s" "musr docs s (usr_ID u) = Some v"
    and "usr_Username v = usr_Username u" "usr_CreatedAt v = usr_CreatedAt u" "mgo_UpdateUser M s u = (e, s')"
  shows "e = None \<and> mongo_inv docs uniq up s' \<and> musr docs s' = (musr docs s)(usr_ID u \<mapsto> u)
    \<and> mtok docs s' = mtok docs s"
proof -
  note inv = invD [OF assms(2)]
  let ?upds = "[(''roles'', BStrs (usr_Roles u)), (''password_hash'', BStr (usr_PasswordHash u))]"
    and ?us = "docs (mgs_db s) ''users''"
  have v: "keyed usr_ID (map user_of ?us) (usr_ID u) = Some v" using assms(3) by (simp add: musr_def)
  have id: "usr_ID v = usr_ID u" using keyed_Some [OF v] by simp
  have new: "user_ok (set_fields ?upds doc) \<and> user_of (set_fields ?upds doc) = u"
    if "user_ok doc" "user_of doc = v" for doc
    using updated_user [OF that(1)] that(2) assms(4,5) id by auto
  have "fst ` set ?upds \<inter> insert ''_id'' (uniq (mgs_db s) ''users'') = {}"
    using inv(2) by (simp add: indexes_wf_def)
  from usrs.update_key [OF assms(1), OF inv(1,7,8) this v, OF new id [symmetric]] obtain ds db' where up:
    "mongo_UpdateOne M ''users'' [(''id'', CEq (BStr (usr_ID u)))] ?upds (mgs_db s) = (Inr 1, db')"
    "becomes docs uniq up (mgs_db s) ''users'' ds db'" "\<forall>d \<in> set ds. user_ok d"
    "map usr_ID (map user_of ds) = map usr_ID (map user_of ?us)"
    "keyed usr_ID (map user_of ds) = (keyed usr_ID (map user_of ?us))(usr_ID u \<mapsto> u)"
    "\<exists>us vs. map user_of ?us = us @ v # vs \<and> map user_of ds = us @ u # vs"
    by blast
  have "map usr_Username (map user_of ds) = map usr_Username (map user_of ?us)"
    using up(6) assms(4) by (auto simp del: map_map)
  then have "users_wf ds" using up(3,4) inv(8,9) by (simp add: users_wf_def del: map_map)
  then have "docs_wf (mgs_maxHistory s) ((docs (mgs_db s))(''users'' := ds))"
    using assms(2) by (simp add: mongo_inv_def docs_wf_def)
  from inv_step [OF assms(2) up(2) this] up(1,2,5) assms(6) show ?thesis
    by (simp add: mgo_UpdateUser_def update_one_def becomes_def view_defs) auto
qed

lemma mongo_update_no_user:
  assumes "mongo_ok M docs uniq up" "mongo_inv docs uniq up s" "musr docs s (usr_ID u) = None"
  shows "mgo_UpdateUser M s u = (Some ErrNotFound, s)"
proof -
  note inv = invD [OF assms(2)]
  have "mongo_UpdateOne M ''users'' [(''id'', CEq (BStr (usr_ID u)))] [(''roles'', BStrs (usr_Roles u)),
      (''password_hash'', BStr (usr_PasswordHash u))] (mgs_db s) = (Inr 0, mgs_db s)"
    by (rule usrs.update_missing [OF assms(1), OF inv(1,7)])
      (use assms(3) inv(2) in \<open>simp_all add: indexes_wf_def musr_def\<close>)
  then show ?thesis by (simp add: mgo_UpdateUser_def update_one_def)
qed

text \<open>Dropping the tokens of a user from a database whose other collections are well-formed.\<close>

lemma drop_user_docs:
  assumes "mongo_ok M docs uniq up" "mongo_inv docs uniq up s"
  obtains n db' where "mongo_DeleteMany M ''refresh_tokens'' [(''user_id'', CEq (BStr i))] (mgs_db s) = (Inr n, db')"
    "mongo_inv docs uniq up (s\<lparr>mgs_db := db'\<rparr>)" "musr docs (s\<lparr>mgs_db := db'\<rparr>) = musr docs s"
    "mtok docs (s\<lparr>mgs_db := db'\<rparr>) = (\<lambda>h. case mtok docs s h of
       None \<Rightarrow> None | Some r \<Rightarrow> if rt_UserID r = i then None else Some r)"
proof -
  note inv = invD [OF assms(2)]
  let ?f = "[(''user_id'', CEq (BStr i))]" and ?ts = "docs (mgs_db s) ''refresh_tokens''"
  from delete_all [OF assms(1), OF inv(1), of "''refresh_tokens''" ?f] obtain n db' where del:
    "mongo_DeleteMany M ''refresh_tokens'' ?f (mgs_db s) = (Inr n, db')"
    "becomes docs uniq up (mgs_db s) ''refresh_tokens'' (filter (\<lambda>d. \<not> matches ?f d) ?ts) db'"
    by blast
  have vals: "map token_of (filter (\<lambda>d. \<not> matches ?f d) ?ts) = filter (\<lambda>r. rt_UserID r \<noteq> i) (map token_of ?ts)"
    using inv(10) matches_device_id(3)
    by (simp add: filter_map comp_def cong: filter_cong del: matches_simps)
  have "tokens_wf (filter (\<lambda>d. \<not> matches ?f d) ?ts)"
    using inv(10) distinct_map_filter [OF inv(11)] by (simp add: tokens_wf_def vals del: map_map matches_simps)
  then have "docs_wf (mgs_maxHistory s) ((docs (mgs_db s))(''refresh_tokens'' := filter (\<lambda>d. \<not> matches ?f d) ?ts))"
    using assms(2) by (simp add: mongo_inv_def docs_wf_def)
  from inv_step [OF assms(2) del(2) this] have inv': "mongo_inv docs uniq up (s\<lparr>mgs_db := db'\<rparr>)" .
  have "mtok docs (s\<lparr>mgs_db := db'\<rparr>) = keyed rt_TokenHash (filter (\<lambda>r. rt_UserID r \<noteq> i) (map token_of ?ts))"
    using del(2) by (simp add: mtok_def becomes_def vals del: matches_simps)
  then have "mtok docs (s\<lparr>mgs_db := db'\<rparr>) = (\<lambda>h. case mtok docs s h of
       None \<Rightarrow> None | Some r \<Rightarrow> if rt_UserID r = i then None else Some r)"
    unfolding keyed_filter [OF inv(11)] by (auto simp: mtok_def fun_eq_iff split: option.splits)
  with inv' del that show thesis by (auto simp: musr_def becomes_def)
qed

lemma mongo_delete_user:
  assumes "mongo_ok M docs uniq up" "mongo_inv docs uniq up s" "musr docs s i = Some v"
    and "mgo_DeleteUser M s i = (e, s')"
  shows "e = None \<and> mongo_inv docs uniq up s' \<and> musr docs s' = (musr docs s)(i := None)
    \<and> mtok docs s' = (\<lambda>h. case mtok docs s h of
         None \<Rightarrow> None | Some r \<Rightarrow> if rt_UserID r = i then None else Some r)"
proof -
  note inv = invD [OF assms(2)]
  let ?us = "docs (mgs_db s) ''users''"
  have v: "keyed usr_ID (map user_of ?us) i = Some v" using assms(3) by (simp add: musr_def)
  from usrs.delete_key [OF assms(1), OF inv(1,7,8) v] obtain ds db1 where del:
    "mongo_DeleteOne M ''users'' [(''id'', CEq (BStr i))] (mgs_db s) = (Inr 1, db1)"
    "becomes docs uniq up (mgs_db s) ''users'' ds db1" "\<forall>d \<in> set ds. user_ok d"
    "\<exists>us vs. map user_of ?us = us @ v # vs \<and> map user_of ds = us @ vs"
    "keyed usr_ID (map user_of ds) = (keyed usr_ID (map user_of ?us))(i := None)"
    by blast
  have "users_wf ds" using del(3,4) inv(8,9) by (fastforce simp: users_wf_def)
  then have "docs_wf (mgs_maxHistory s) ((docs (mgs_db s))(''users'' := ds))"
    using assms(2) by (simp add: mongo_inv_def docs_wf_def)
  from inv_step [OF assms(2) del(2) this] have inv1: "mongo_inv docs uniq up (s\<lparr>mgs_db := db1\<rparr>)" .
  from drop_user_docs [OF assms(1) inv1, of i] obtain n db2 where drop:
    "mongo_DeleteMany M ''refresh_tokens'' [(''user_id'', CEq (BStr i))] db1 = (Inr n, db2)"
    "mongo_inv docs uniq up (s\<lparr>mgs_db := db2\<rparr>)"
    "musr docs (s\<lparr>mgs_db := db2\<rparr>) = musr docs (s\<lparr>mgs_db := db1\<rparr>)"
    "mtok docs (s\<lparr>mgs_db := db2\<rparr>) = (\<lambda>h. case mtok docs (s\<lparr>mgs_db := db1\<rparr>) h of
       None \<Rightarrow> None | Some r \<Rightarrow> if rt_UserID r = i then None else Some r)"
    by auto
  have "musr docs (s\<lparr>mgs_db := db1\<rparr>) = (musr docs s)(i := None)"
    "mtok docs (s\<lparr>mgs_db := db1\<rparr>) = mtok docs s"
    using del(2,5) by (simp_all add: musr_def mtok_def becomes_def)
  with drop del(1) assms(4) show ?thesis by (auto simp: mgo_DeleteUser_def)
qed

lemma mongo_delete_no_user:
  assumes "mongo_ok M docs uniq up" "mongo_inv docs uniq up s" "musr docs s i = None"
  shows "mgo_DeleteUser M s i = (Some ErrNotFound, s)"
proof -
  have "mongo_DeleteOne M ''users'' [(''id'', CEq (BStr i))] (mgs_db s) = (Inr 0, mgs_db s)"
    by (rule usrs.delete_missing [OF assms(1), OF invD(1,7) [OF assms(2)]])
      (use assms(3) in \<open>simp add: musr_def\<close>)
  then show ?thesis by (simp add: mgo_DeleteUser_def)
qed

lemma mongo_put_token:
  assumes "mongo_ok M docs uniq up" "mongo_inv docs uniq up s" "mtok docs s (rt_TokenHash r) = None"
    and "mgo_StoreRefreshToken M s r = (e, s')"
  shows "e = None \<and> mongo_inv docs uniq up s' \<and> musr docs s' = musr docs s
    \<and> mtok docs s' = (mtok docs s)(rt_TokenHash r \<mapsto> kept_token (mongo_Date M) r)"
proof -
  note inv = invD [OF assms(2)]
  let ?doc = "marshal_refresh M \<lparr>rd_TokenHash = rt_TokenHash r, rd_UserID = rt_UserID r,
      rd_ExpiresAt = rt_ExpiresAt r, rd_CreatedAt = rt_CreatedAt r\<rparr>"
  let ?ts = "docs (mgs_db s) ''refresh_tokens''"
  have new: "rt_TokenHash r \<notin> rt_TokenHash ` set (map token_of ?ts)"
    using assms(3) by (simp add: mtok_def keyed_None)
  then have "\<not> clash (uniq (mgs_db s) ''refresh_tokens'') ?ts ?doc"
    using toks.clash_key [OF inv(10), of ?doc "rt_TokenHash r"] inv(2)
    by (simp add: indexes_wf_def marshal_keys del: set_map)
  from insert_new [OF assms(1), OF inv(1) marshal_no_id(5) this] obtain j db' where ins:
    "mongo_InsertOne M ''refresh_tokens'' ?doc (mgs_db s) = (None, db')"
    "becomes docs uniq up (mgs_db s) ''refresh_tokens'' (?ts @ [fmupd ''_id'' (BId j) ?doc]) db'"
    by blast
  let ?ds = "?ts @ [fmupd ''_id'' (BId j) ?doc]"
  have "tokens_wf ?ds" using inv(10,11) new by (auto simp: tokens_wf_def stored_token)
  then have "docs_wf (mgs_maxHistory s) ((docs (mgs_db s))(''refresh_tokens'' := ?ds))"
    using assms(2) by (simp add: mongo_inv_def docs_wf_def)
  note inv_step [OF assms(2) ins(2) this]
  moreover have "keyed rt_TokenHash (map token_of ?ds)
      = (keyed rt_TokenHash (map token_of ?ts))(rt_TokenHash r \<mapsto> kept_token (mongo_Date M) r)"
    using keyed_snoc [of rt_TokenHash "kept_token (mongo_Date M) r" "map token_of ?ts"] new
    by (simp add: stored_token)
  ultimately show ?thesis
    using ins assms(4) by (auto simp: mgo_StoreRefreshToken_def becomes_def musr_def mtok_def)
qed

lemma mongo_get_token:
  assumes "mongo_ok M docs uniq up" "mongo_inv docs uniq up s"
  shows "mgo_GetRefreshToken M now s h = (case mtok docs s h of
      None \<Rightarrow> Inl ErrNotFound
    | Some r \<Rightarrow> if \<not> IsZero (rt_ExpiresAt r) \<and> After now (rt_ExpiresAt r) then Inl ErrNotFound else Inr r)"
  using toks.find_key [OF assms(1), OF invD(1,10,11) [OF assms(2)], of h]
  by (auto simp: mgo_GetRefreshToken_def mtok_def docToToken_def split: sum.splits mongo_error.splits)

lemma mongo_drop_token:
  assumes "mongo_ok M docs uniq up" "mongo_inv docs uniq up s" "mgo_DeleteRefreshToken M s h = (e, s')"
  shows "e = None \<and> mongo_inv docs uniq up s' \<and> musr docs s' = musr docs s
    \<and> mtok docs s' = (mtok docs s)(h := None)"
proof (cases "mtok docs s h")
  case None
  have "mongo_DeleteOne M ''refresh_tokens'' [(''token_hash'', CEq (BStr h))] (mgs_db s) = (Inr 0, mgs_db s)"
    by (rule toks.delete_missing [OF assms(1), OF invD(1,10) [OF assms(2)]])
      (use None in \<open>simp add: mtok_def\<close>)
  with None assms(2,3) show ?thesis by (auto simp: mgo_DeleteRefreshToken_def)
next
  case (Some r)
  note inv = invD [OF assms(2)]
  let ?ts = "docs (mgs_db s) ''refresh_tokens''"
  have r: "keyed rt_TokenHash (map token_of ?ts) h = Some r" using Some by (simp add: mtok_def)
  from toks.delete_key [OF assms(1), OF inv(1,10,11) r] obtain ds db' where del:
    "mongo_DeleteOne M ''refresh_tokens'' [(''token_hash'', CEq (BStr h))] (mgs_db s) = (Inr 1, db')"
    "becomes docs uniq up (mgs_db s) ''refresh_tokens'' ds db'" "\<forall>d \<in> set ds. token_ok d"
    "\<exists>us vs. map token_of ?ts = us @ r # vs \<and> map token_of ds = us @ vs"
    "keyed rt_TokenHash (map token_of ds) = (keyed rt_TokenHash (map token_of ?ts))(h := None)"
    by blast
  have "tokens_wf ds" using del(3,4) inv(11) by (fastforce simp: tokens_wf_def)
  then have "docs_wf (mgs_maxHistory s) ((docs (mgs_db s))(''refresh_tokens'' := ds))"
    using assms(2) by (simp add: mongo_inv_def docs_wf_def)
  from inv_step [OF assms(2) del(2) this] del(1,2,5) assms(3) show ?thesis
    by (auto simp: mgo_DeleteRefreshToken_def becomes_def musr_def mtok_def)
qed

lemma mongo_drop_user_tokens:
  assumes "mongo_ok M docs uniq up" "mongo_inv docs uniq up s" "mgo_DeleteUserRefreshTokens M s i = (e, s')"
  shows "e = None \<and> mongo_inv docs uniq up s' \<and> musr docs s' = musr docs s
    \<and> mtok docs s' = (\<lambda>h. case mtok docs s h of
         None \<Rightarrow> None | Some r \<Rightarrow> if rt_UserID r = i then None else Some r)"
proof -
  from drop_user_docs [OF assms(1,2), of i] obtain n db' where
    "mongo_DeleteMany M ''refresh_tokens'' [(''user_id'', CEq (BStr i))] (mgs_db s) = (Inr n, db')"
    "mongo_inv docs uniq up (s\<lparr>mgs_db := db'\<rparr>)" "musr docs (s\<lparr>mgs_db := db'\<rparr>) = musr docs s"
    "mtok docs (s\<lparr>mgs_db := db'\<rparr>) = (\<lambda>h. case mtok docs s h of
       None \<Rightarrow> None | Some r \<Rightarrow> if rt_UserID r = i then None else Some r)" .
  with assms(3) show ?thesis by (auto simp: mgo_DeleteUserRefreshTokens_def)
qed

lemma mongo_user_contract:
  assumes "mongo_ok M docs uniq up"
  shows "user_contract (mongo_user_store M) (mongo_Date M) (mongo_inv docs uniq up) (musr docs) (mtok docs)"
proof (unfold_locales, unfold mongo_user_store_def UserStore.simps)
  fix s i h n u now
  assume inv: "mongo_inv docs uniq up s"
  note facts = invD [OF inv]
  show "mgo_GetUserByID M s i = (case musr docs s i of None \<Rightarrow> Inl ErrNotFound | Some u \<Rightarrow> Inr u)"
    by (rule mongo_find_user(1) [OF assms inv])
  show "mgo_GetUserByUsername M s n = Inr u \<longleftrightarrow> musr docs s (usr_ID u) = Some u \<and> usr_Username u = n"
    by (rule mongo_by_name [OF assms inv])
  show "err = ErrNotFound" if "mgo_GetUserByUsername M s n = Inl err" for err
    using that mongo_find_user(2) [OF assms inv, of n] by (auto split: option.splits)
  show "usr_ID v = i" if "musr docs s i = Some v" for v
    using that keyed_Some [of usr_ID] by (fastforce simp: musr_def)
  show "rt_TokenHash r = h" if "mtok docs s h = Some r" for r
    using that keyed_Some [of rt_TokenHash] by (fastforce simp: mtok_def)
  show "i = j" if "musr docs s i = Some v" "musr docs s j = Some w" "usr_Username v = usr_Username w"
    for j v w
  proof -
    let ?us = "map user_of (docs (mgs_db s) ''users'')"
    have "v \<in> set ?us" "w \<in> set ?us" "usr_ID v = i" "usr_ID w = j"
      using that(1,2) keyed_Some [of usr_ID ?us] unfolding musr_def by blast+
    moreover have "inj_on usr_Username (set ?us)" using facts(9) by (simp only: distinct_map)
    ultimately show ?thesis using that(3) by (metis inj_onD)
  qed
  show "mgo_GetRefreshToken M now s h = (case mtok docs s h of
      None \<Rightarrow> Inl ErrNotFound
    | Some r \<Rightarrow> if \<not> IsZero (rt_ExpiresAt r) \<and> After now (rt_ExpiresAt r) then Inl ErrNotFound else Inr r)"
    by (rule mongo_get_token [OF assms inv])
qed (rule mongo_create_user [OF assms] mongo_create_duplicate [OF assms] mongo_update_user [OF assms]
    mongo_update_no_user [OF assms] mongo_delete_user [OF assms] mongo_delete_no_user [OF assms]
    mongo_put_token [OF assms] mongo_drop_token [OF assms] mongo_drop_user_tokens [OF assms]; assumption)+

section \<open>What the MongoDB store guarantees\<close>



text \<open>A database with one device, reached by creating the device in an empty one.\<close>

definition sample_empty :: "listdb MongoStore" where
  "sample_empty = \<lparr>mgs_db = \<lparr>ld_docs = (\<lambda>_. []), ld_uniq = (\<lambda>c. if c = ''devices'' then {''id''}
     else if c = ''users'' then {''id'', ''username''} else if c = ''refresh_tokens'' then {''token_hash''}
     else {}), ld_next = 0\<rparr>, mgs_maxHistory = 2, mgs_timeout = 5 * Second\<rparr>"

definition sample_mongo :: "listdb MongoStore" where
  "sample_mongo = snd (mgo_CreateDevice list_mongo sample_empty sample_device)"

lemma empty_docs_wf: "docs_wf n (\<lambda>_. [])"
  by (simp add: docs_wf_def devices_wf_def telemetry_wf_def users_wf_def tokens_wf_def)

lemma sample_mongo_facts:
  "mongo_inv ld_docs ld_uniq ld_ok sample_mongo" "mgs_maxHistory sample_mongo = 2"
  "mdev ld_docs sample_mongo ''d1'' = Some (kept_device (mongo_Date list_mongo) sample_device)"
proof -
  have "mongo_inv ld_docs ld_uniq ld_ok sample_empty"
    by (simp add: mongo_inv_def sample_empty_def ld_ok_def indexes_wf_def empty_docs_wf)
  moreover have "mdev ld_docs sample_empty (dev_ID sample_device) = None"
    by (simp add: mdev_def sample_empty_def keyed_def)
  ultimately have "mongo_inv ld_docs ld_uniq ld_ok sample_mongo \<and> mgs_maxHistory sample_mongo = 2
    \<and> mdev ld_docs sample_mongo ''d1'' = Some (kept_device (mongo_Date list_mongo) sample_device)"
    using mongo_create_device [OF list_mongo_ok, of sample_empty sample_device
        "fst (mgo_CreateDevice list_mongo sample_empty sample_device)" sample_mongo]
    by (simp add: sample_mongo_def sample_device_def) (simp add: sample_empty_def)
  then show "mongo_inv ld_docs ld_uniq ld_ok sample_mongo" "mgs_maxHistory sample_mongo = 2"
    "mdev ld_docs sample_mongo ''d1'' = Some (kept_device (mongo_Date list_mongo) sample_device)"
    by blast+
qed

text \<open>
  C32: Reading telemetry from MongoDB returns the points of the device that are not older than
  \<open>since\<close>, by timestamp with the newest last; with a positive limit, the newest ones.
\<close>

theorem mongo_get_telemetry:
  assumes "mongo_ok M docs uniq up" "mongo_inv docs uniq up s"
  shows "sorted (map tel_Timestamp (mgo_GetTelemetry M s k since limit))
    \<and> (\<exists>older. mset (older @ mgo_GetTelemetry M s k since limit)
          = {#t \<in># mtel docs s k. since = 0 \<or> mongo_Date M since \<le> tel_Timestamp t#}
        \<and> sorted (map tel_Timestamp (older @ mgo_GetTelemetry M s k since limit))
        \<and> (limit \<le> 0 \<longrightarrow> older = [])
        \<and> (0 < limit \<longrightarrow> int (length (mgo_GetTelemetry M s k since limit)) =
             min limit (int (length (older @ mgo_GetTelemetry M s k since limit)))))"
proof -
  from mongo_window [OF assms, where k = k and since = since and limit = limit] obtain pts where
    pts: "mset pts = {#t \<in># mtel docs s k. since = 0 \<or> mongo_Date M since \<le> tel_Timestamp t#}"
      "sorted (map tel_Timestamp pts)"
      "mgo_GetTelemetry M s k since limit = (if 0 < limit then drop (length pts - nat limit) pts else pts)"
    by (auto simp: IsZero_def)
  let ?older = "if 0 < limit then take (length pts - nat limit) pts else []"
  have all: "?older @ mgo_GetTelemetry M s k since limit = pts" by (simp add: pts(3))
  have "sorted (map tel_Timestamp (mgo_GetTelemetry M s k since limit))"
    using pts(2) all by (metis map_append sorted_append)
  then show ?thesis
    by (intro conjI exI [of _ ?older], unfold all) (auto simp: pts min_def)
qed

theorem mongo_get_telemetry_witness:
  "sorted (map tel_Timestamp (mgo_GetTelemetry list_mongo sample_mongo ''d1'' 0 1))"
  using mongo_get_telemetry [OF list_mongo_ok sample_mongo_facts(1)] by blast

text \<open>
  C33: When the history of a device is full, MongoDB drops the points with the oldest timestamps:
  after a point was added, a read returns the newest \<open>maxHistory\<close> of the old points and the new
  one, in whatever order they arrived, so that a late point may be dropped at once.
\<close>

theorem mongo_keeps_newest:
  assumes "mongo_ok M docs uniq up" "mongo_inv docs uniq up s" "mdev docs s (tel_DeviceID t) = Some d"
    and "n = mgs_maxHistory s"
  shows "\<exists>s' ts. mgo_AddTelemetry M s t = (None, s') \<and> mongo_inv docs uniq up s'
    \<and> mset ts = add_mset (kept_telemetry (mongo_Date M) t) (mtel docs s (tel_DeviceID t))
    \<and> sorted (map tel_Timestamp ts)
    \<and> mset (mgo_GetTelemetry M s' (tel_DeviceID t) 0 0)
        = mset (if 0 < n \<and> n < int (length ts) then drop (length ts - nat n) ts else ts)
    \<and> sorted (map tel_Timestamp (mgo_GetTelemetry M s' (tel_DeviceID t) 0 0))"
proof -
  obtain e s' where run: "mgo_AddTelemetry M s t = (e, s')" by force
  from mongo_add_telemetry [OF assms(1-3) run] obtain ts where e: "e = None"
    and inv': "mongo_inv docs uniq up s'"
    and ts: "mset ts = add_mset (kept_telemetry (mongo_Date M) t) (mtel docs s (tel_DeviceID t))"
      "sorted (map tel_Timestamp ts)" "mtel docs s' (tel_DeviceID t) =
         mset (if 0 < n \<and> n < int (length ts) then drop (length ts - nat n) ts else ts)"
    unfolding assms(4) by blast
  from mongo_window [OF assms(1) inv', where k = "tel_DeviceID t" and since = 0 and limit = 0]
  have "mset (mgo_GetTelemetry M s' (tel_DeviceID t) 0 0) = mtel docs s' (tel_DeviceID t)"
    "sorted (map tel_Timestamp (mgo_GetTelemetry M s' (tel_DeviceID t) 0 0))"
    by (auto simp: IsZero_def)
  with run e inv' ts show ?thesis by auto
qed

theorem mongo_keeps_newest_witness:
  "\<exists>s' ts. mgo_AddTelemetry list_mongo sample_mongo (sample_point ''d1'' 7) = (None, s')
    \<and> mongo_inv ld_docs ld_uniq ld_ok s' \<and> sorted (map tel_Timestamp ts)
    \<and> mset (mgo_GetTelemetry list_mongo s' ''d1'' 0 0)
        = mset (if 2 < int (length ts) then drop (length ts - 2) ts else ts)"
proof -
  have "tel_DeviceID (sample_point ''d1'' 7) = ''d1''" by (simp add: sample_point_def)
  then have "mdev ld_docs sample_mongo (tel_DeviceID (sample_point ''d1'' 7)) =
      Some (kept_device (mongo_Date list_mongo) sample_device)" by (simp only: sample_mongo_facts(3))
  from mongo_keeps_newest [OF list_mongo_ok sample_mongo_facts(1), OF this sample_mongo_facts(2) [symmetric]]
  show ?thesis by (elim exE conjE) (intro exI conjI, assumption, assumption, assumption,
      simp add: sample_point_def)
qed

section \<open>Starting up\<close>

lemma index_step:
  assumes "mongo_ok M docs uniq up" "up db"
    and "\<And>ks u. (ks, u) \<in> set ixs \<Longrightarrow> u \<Longrightarrow> length ks = 1 \<and> distinct (map (\<lambda>d. fmlookup d (hd ks)) (docs db c))"
  obtains db' where "mongo_CreateIndexes M c ixs db = (None, db')" "up db'" "docs db' = docs db"
    "uniq db' = (uniq db)(c := uniq db c \<union> {k. ([k], True) \<in> set ixs})"
proof -
  have "\<forall>(ks, u) \<in> set ixs. u \<longrightarrow> length ks = 1 \<and> distinct (map (\<lambda>d. fmlookup d (hd ks)) (docs db c))"
    using assms(3) by auto
  moreover note mongo_okD(9) [OF assms(1), unfolded index_spec_def, THEN spec, THEN spec, THEN spec,
      THEN mp, OF assms(2)]
  ultimately show thesis using that by blast
qed

lemma ensure_indexes:
  assumes "mongo_ok M docs uniq up" "up db" "docs_wf n (docs db)"
  obtains db' where "ensureIndexes M db = (None, db')" "up db'" "docs db' = docs db"
    "uniq db' = (uniq db)(''devices'' := insert ''id'' (uniq db ''devices''),
       ''users'' := insert ''id'' (insert ''username'' (uniq db ''users'')),
       ''refresh_tokens'' := insert ''token_hash'' (uniq db ''refresh_tokens''))"
proof -
  have dist: "distinct (map (\<lambda>d. fmlookup d ''id'') (docs db ''devices''))"
    "distinct (map (\<lambda>d. fmlookup d ''id'') (docs db ''users''))"
    "distinct (map (\<lambda>d. fmlookup d ''username'') (docs db ''users''))"
    "distinct (map (\<lambda>d. fmlookup d ''token_hash'') (docs db ''refresh_tokens''))"
    using assms(3) devs.distinct_field usrs.distinct_field names.distinct_field toks.distinct_field
    unfolding docs_wf_def devices_wf_def users_wf_def tokens_wf_def by blast+
  obtain d1 where d1: "mongo_CreateIndexes M ''devices'' [([''id''], True)] db = (None, d1)" "up d1"
    "docs d1 = docs db" "uniq d1 = (uniq db)(''devices'' := uniq db ''devices'' \<union> {''id''})"
    by (rule index_step [OF assms(1), OF assms(2), of "[([''id''], True)]" "''devices''"])
      (use dist in auto)
  obtain d2 where d2: "mongo_CreateIndexes M ''telemetry'' [([''device_id'', ''timestamp''], False)] d1
      = (None, d2)" "up d2" "docs d2 = docs d1" "uniq d2 = uniq d1"
    by (rule index_step [OF assms(1), OF d1(2), of "[([''device_id'', ''timestamp''], False)]" "''telemetry''"])
      auto
  obtain d3 where d3: "mongo_CreateIndexes M ''alerts'' [([''device_id'', ''created_at''], False)] d2
      = (None, d3)" "up d3" "docs d3 = docs d2" "uniq d3 = uniq d2"
    by (rule index_step [OF assms(1), OF d2(2), of "[([''device_id'', ''created_at''], False)]" "''alerts''"])
      auto
  obtain d4 where d4: "mongo_CreateIndexes M ''users'' [([''id''], True), ([''username''], True)] d3
      = (None, d4)" "up d4" "docs d4 = docs d3"
      "uniq d4 = (uniq d3)(''users'' := uniq d3 ''users'' \<union> {k. k = ''id'' \<or> k = ''username''})"
    by (rule index_step [OF assms(1), OF d3(2), of "[([''id''], True), ([''username''], True)]" "''users''"])
      (use dist d1(3) d2(3) d3(3) in auto)
  obtain d5 where d5: "mongo_CreateIndexes M ''refresh_tokens'' [([''token_hash''], True)] d4
      = (None, d5)" "up d5" "docs d5 = docs d4"
      "uniq d5 = (uniq d4)(''refresh_tokens'' := uniq d4 ''refresh_tokens'' \<union> {''token_hash''})"
    by (rule index_step [OF assms(1), OF d4(2), of "[([''token_hash''], True)]" "''refresh_tokens''"])
      (use dist d1(3) d2(3) d3(3) d4(3) in auto)
  show thesis
    by (rule that [of d5]) (use d1 d2 d3 d4 d5 in \<open>auto simp: ensureIndexes_def fun_eq_iff\<close>)
qed

text \<open>
  Starting on a reachable database whose documents are well-formed, an empty one for
  instance, \<open>NewMongoStore\<close> succeeds, changes no document, and leaves the store in its invariant:
  the unique indexes on device, user, username and token hash are in place.
\<close>

lemma mongo_starts:
  assumes "mongo_ok M docs uniq up" "mongo_Ping M db = None" "up db"
    and "mongo_Connect M (mc_URI cfg) (if mc_Database cfg = '''' then ''iot'' else mc_Database cfg) = Inr db"
    and "docs_wf (mc_MaxHistory cfg) (docs db)" "uniq db = (\<lambda>_. {}) \<or> indexes_wf (uniq db)"
  shows "\<exists>s. NewMongoStore M cfg = Inr s \<and> mongo_inv docs uniq up s \<and> docs (mgs_db s) = docs db
    \<and> mgs_maxHistory s = mc_MaxHistory cfg
    \<and> mgs_timeout s = (if mc_Timeout cfg \<le> 0 then 5 * Second else mc_Timeout cfg)"
proof -
  from ensure_indexes [OF assms(1), OF assms(3,5)] obtain db' where db': "ensureIndexes M db = (None, db')"
    "up db'" "docs db' = docs db"
    "uniq db' = (uniq db)(''devices'' := insert ''id'' (uniq db ''devices''),
       ''users'' := insert ''id'' (insert ''username'' (uniq db ''users'')),
       ''refresh_tokens'' := insert ''token_hash'' (uniq db ''refresh_tokens''))" .
  have "indexes_wf (uniq db')"
    using assms(6) unfolding db'(4) indexes_wf_def
    by (elim disjE conjE) (simp_all add: insert_absorb insert_commute)
  moreover have "NewMongoStore M cfg = Inr \<lparr>mgs_db = db', mgs_maxHistory = mc_MaxHistory cfg,
      mgs_timeout = (if mc_Timeout cfg \<le> 0 then 5 * Second else mc_Timeout cfg)\<rparr>"
    by (simp only: NewMongoStore_def Let_def assms(2,4) db'(1) sum.case option.case prod.case)
  ultimately show ?thesis using assms(5) db'(2,3) by (simp add: mongo_inv_def)
qed

end
