(* ===== verification/Go_Text.thy ===== *)
theory Go_Text
  imports Go_Format
begin

text \<open>
  The text functions of the standard library the program uses: \<open>strings.Split\<close>,
  \<open>strings.CutPrefix\<close>, \<open>strings.TrimSpace\<close>, \<open>strconv.Atoi\<close>, \<open>time.ParseDuration\<close> and
  \<open>time.Parse\<close> with the layout \<open>RFC3339\<close>. A failed parse is \<open>None\<close>.
\<close>

section \<open>Package strings\<close>

fun split_on :: "char \<Rightarrow> string \<Rightarrow> string list" where
  "split_on sep [] = [[]]"
| "split_on sep (c # s) =
     (if c = sep then [] # split_on sep s
      else case split_on sep s of w # ws \<Rightarrow> (c # w) # ws | [] \<Rightarrow> [[c]])"

fun CutPrefix :: "string \<Rightarrow> string \<Rightarrow> string option" where
  "CutPrefix s [] = Some s"
| "CutPrefix [] (p # ps) = None"
| "CutPrefix (c # s) (p # ps) = (if c = p then CutPrefix s ps else None)"

text \<open>The UTF-8 encodings of the white space characters of \<open>unicode.IsSpace\<close>.\<close>

definition space_seqs :: "string list" where
  "space_seqs = map (map char_of)
     ([[9], [10], [11], [12], [13], [32], [194, 133], [194, 160 :: nat], [225, 154, 128]]
      @ map (\<lambda>b. [226, 128, b]) ([128..<139] @ [168, 169, 175])
      @ [[226, 129, 159], [227, 128, 128]])"

fun trim_one :: "string list \<Rightarrow> string \<Rightarrow> string option" where
  "trim_one [] s = None"
| "trim_one (w # ws) s = (case CutPrefix s w of Some r \<Rightarrow> Some r | None \<Rightarrow> trim_one ws s)"

lemma CutPrefix_Some: "CutPrefix s p = Some r \<longleftrightarrow> s = p @ r"
  by (induction s p rule: CutPrefix.induct) auto

lemma trim_one_shorter:
  "\<lbrakk>trim_one ws s = Some r; [] \<notin> set ws\<rbrakk> \<Longrightarrow> length r < length s"
  by (induction ws) (auto simp: CutPrefix_Some split: option.splits)

function trim_front :: "string list \<Rightarrow> string \<Rightarrow> string" where
  "trim_front ws s = (if [] \<in> set ws then s
     else case trim_one ws s of Some r \<Rightarrow> trim_front ws r | None \<Rightarrow> s)"
  by auto
termination
  by (relation "measure (\<lambda>(ws, s). length s)") (auto dest: trim_one_shorter)

declare trim_front.simps [simp del]

definition TrimSpace :: "string \<Rightarrow> string" where
  "TrimSpace s = rev (trim_front (map rev space_seqs) (rev (trim_front space_seqs s)))"

section \<open>Package strconv\<close>

definition is_digit :: "char \<Rightarrow> bool" where
  "is_digit c \<longleftrightarrow> 48 \<le> byte c \<and> byte c \<le> 57"

definition digit_of :: "char \<Rightarrow> nat" where
  "digit_of c = byte c - 48"

definition digits_val :: "string \<Rightarrow> nat" where
  "digits_val s = foldl (\<lambda>n c. n * 10 + digit_of c) 0 s"

definition unsigned :: "string \<Rightarrow> nat option" where
  "unsigned s = (if s = [] \<or> \<not> list_all is_digit s then None else Some (digits_val s))"

definition in_int64 :: "int \<Rightarrow> int option" where
  "in_int64 n = (if - (2 ^ 63) \<le> n \<and> n < 2 ^ 63 then Some n else None)"

definition Atoi :: "string \<Rightarrow> int option" where
  "Atoi s = (case s of
     c # r \<Rightarrow> if c = CHR ''-'' then Option.bind (unsigned r) (\<lambda>n. in_int64 (- int n))
             else if c = CHR ''+'' then Option.bind (unsigned r) (\<lambda>n. in_int64 (int n))
             else Option.bind (unsigned s) (\<lambda>n. in_int64 (int n))
   | [] \<Rightarrow> None)"

section \<open>time.ParseDuration\<close>

fun leadingInt :: "nat \<Rightarrow> string \<Rightarrow> (nat \<times> string) option" where
  "leadingInt x [] = Some (x, [])"
| "leadingInt x (c # s) =
     (if \<not> is_digit c then Some (x, c # s)
      else if 2 ^ 63 div 10 < x then None
      else let y = x * 10 + digit_of c in if 2 ^ 63 < y then None else leadingInt y s)"

definition is_inf :: "float64 \<Rightarrow> bool" where
  "is_inf x \<longleftrightarrow> x = PInf \<or> x = NInf"

definition is_fzero :: "float64 \<Rightarrow> bool" where
  "is_fzero x \<longleftrightarrow> x = NZero \<or> x = Fin 0"

definition fmul :: "float64 \<Rightarrow> float64 \<Rightarrow> float64" where
  "fmul x y =
     (let neg = (is_neg x \<noteq> is_neg y) in
      if is_nan x \<or> is_nan y \<or> is_inf x \<and> is_fzero y \<or> is_fzero x \<and> is_inf y then NaN
      else if is_inf x \<or> is_inf y then signed_inf neg
      else if is_fzero x \<or> is_fzero y then signed_zero neg
      else rnd (fval x * fval y))"

fun leadingFraction :: "nat \<Rightarrow> float64 \<Rightarrow> bool \<Rightarrow> string \<Rightarrow> nat \<times> float64 \<times> string" where
  "leadingFraction x scale overflow [] = (x, scale, [])"
| "leadingFraction x scale overflow (c # s) =
     (if \<not> is_digit c then (x, scale, c # s)
      else if overflow then leadingFraction x scale True s
      else if (2 ^ 63 - 1) div 10 < x then leadingFraction x scale True s
      else let y = x * 10 + digit_of c
           in if 2 ^ 63 < y then leadingFraction x scale True s
              else leadingFraction y (fmul scale (Fin 10)) False s)"

definition unit_of :: "string \<Rightarrow> nat option" where
  "unit_of u = map_of
     [(''ns'', 1), (''us'', 1000), (map char_of [194, 181, 115 :: nat], 1000),
      (map char_of [206, 188, 115 :: nat], 1000), (''ms'', 1000000), (''s'', 1000000000),
      (''m'', 60000000000), (''h'', 3600000000000)] u"

definition unit_char :: "char \<Rightarrow> bool" where
  "unit_char c \<longleftrightarrow> c \<noteq> CHR ''.'' \<and> \<not> is_digit c"

text \<open>One number with its unit: its value in nanoseconds and the rest of the text.\<close>

definition duration_item :: "string \<Rightarrow> (nat \<times> string) option" where
  "duration_item s =
     (if s = [] \<or> unit_char (hd s) then None
      else case leadingInt 0 s of
        None \<Rightarrow> None
      | Some (v, s1) \<Rightarrow>
          (let pre = length s \<noteq> length s1;
               (f, scale, s2, post) =
                 (if s1 \<noteq> [] \<and> hd s1 = CHR ''.''
                  then case leadingFraction 0 (Fin 1) False (tl s1) of
                         (f, scale, r) \<Rightarrow> (f, scale, r, length (tl s1) \<noteq> length r)
                  else (0, Fin 1, s1, False));
               u = takeWhile unit_char s2; s3 = dropWhile unit_char s2
           in if \<not> pre \<and> \<not> post then None
              else if u = [] then None
              else case unit_of u of
                None \<Rightarrow> None
              | Some unit \<Rightarrow>
                  if 2 ^ 63 div unit < v then None
                  else (let v1 = v * unit;
                            v2 = (if 0 < f
                                  then v1 + nat \<lfloor>fval (fmul (float64_of_int (int f))
                                              (fdiv (float64_of_int (int unit)) scale))\<rfloor>
                                  else v1)
                        in if 2 ^ 63 < v2 then None else Some (v2, s3))))"

lemma leadingInt_suffix: "leadingInt x s = Some (v, r) \<Longrightarrow> length r \<le> length s"
  by (induction x s rule: leadingInt.induct) (auto simp: Let_def split: if_splits)

lemma leadingFraction_suffix: "leadingFraction x sc ov s = (f, sc', r) \<Longrightarrow> length r \<le> length s"
  by (induction x sc ov s rule: leadingFraction.induct) (auto simp: Let_def split: if_splits)

lemma duration_item_shorter:
  assumes "duration_item s = Some (v, r)"
  shows "length r < length s"
proof -
  from assms obtain v1 s1 where s1: "leadingInt 0 s = Some (v1, s1)"
    by (auto simp: duration_item_def split: if_splits option.splits)
  then have le: "length s1 \<le> length s" by (rule leadingInt_suffix)
  have tl: "length r' \<le> length s1" if "leadingFraction 0 (Fin 1) False (tl s1) = (f, sc, r')" for f sc r'
    using leadingFraction_suffix [OF that] by simp
  have u: "takeWhile unit_char x \<noteq> [] \<Longrightarrow> length (dropWhile unit_char x) < length x" for x
    by (cases x) (auto split: if_splits simp: le_imp_less_Suc length_dropWhile_le)
  show ?thesis
    using assms s1 le tl
    by (auto simp: duration_item_def Let_def split: if_splits option.splits prod.splits
        dest!: u intro: less_le_trans)
qed

function duration_loop :: "nat \<Rightarrow> string \<Rightarrow> nat option" where
  "duration_loop d s =
     (if s = [] then Some d
      else case duration_item s of
        None \<Rightarrow> None
      | Some (v, r) \<Rightarrow> (let d' = (d + v) mod 2 ^ 64
                       in if 2 ^ 63 < d' then None else duration_loop d' r))"
  by auto
termination
  by (relation "measure (\<lambda>(d, s). length s)") (auto dest: duration_item_shorter)

declare duration_loop.simps [simp del]

definition ParseDuration :: "string \<Rightarrow> duration option" where
  "ParseDuration orig =
     (let neg = (orig \<noteq> [] \<and> hd orig = CHR ''-'');
          s = (if orig \<noteq> [] \<and> hd orig \<in> {CHR ''-'', CHR ''+''} then tl orig else orig)
      in if s = ''0'' then Some 0
         else if s = [] then None
         else case duration_loop 0 s of
                None \<Rightarrow> None
              | Some d \<Rightarrow> if neg then Some (- int d)
                          else if 2 ^ 63 - 1 < d then None else Some (int d))"

section \<open>time.Parse with RFC3339\<close>

definition getnum :: "bool \<Rightarrow> string \<Rightarrow> (nat \<times> string) option" where
  "getnum fixed s = (case s of
     a # r \<Rightarrow>
       if \<not> is_digit a then None
       else (case r of
               b # r' \<Rightarrow> if is_digit b then Some (digit_of a * 10 + digit_of b, r')
                        else if fixed then None else Some (digit_of a, r)
             | [] \<Rightarrow> if fixed then None else Some (digit_of a, []))
   | [] \<Rightarrow> None)"

definition getnum_lt :: "bool \<Rightarrow> nat \<Rightarrow> string \<Rightarrow> (nat \<times> string) option" where
  "getnum_lt fixed n s = (case getnum fixed s of
     Some (x, r) \<Rightarrow> if x < n then Some (x, r) else None | None \<Rightarrow> None)"

definition parse_year :: "string \<Rightarrow> (nat \<times> string) option" where
  "parse_year s = (if length s < 4 \<or> \<not> list_all is_digit (take 4 s) then None
     else Some (digits_val (take 4 s), drop 4 s))"

text \<open>Fractional seconds: up to nine digits count, further digits are skipped.\<close>

definition parse_fraction :: "string \<Rightarrow> nat \<times> string" where
  "parse_fraction s =
     (if 2 \<le> length s \<and> hd s \<in> {CHR ''.'', CHR '',''} \<and> is_digit (s ! 1)
      then (let ds = take 9 (takeWhile is_digit (tl s))
            in (digits_val ds * 10 ^ (9 - length ds), dropWhile is_digit (tl s)))
      else (0, s))"

definition parse_zone :: "string \<Rightarrow> (int \<times> string) option" where
  "parse_zone s =
     (if s \<noteq> [] \<and> hd s = CHR ''Z'' then Some (0, tl s)
      else if length s < 6 \<or> s ! 3 \<noteq> CHR '':'' then None
      else case (getnum True (take 2 (drop 1 s)), getnum True (take 2 (drop 4 s))) of
             (Some (hr, _), Some (mm, _)) \<Rightarrow>
               if 24 < hr \<or> 60 < mm then None
               else if hd s = CHR ''+'' then Some (int (hr * 60 + mm) * 60, drop 6 s)
               else if hd s = CHR ''-'' then Some (- (int (hr * 60 + mm) * 60), drop 6 s)
               else None
           | _ \<Rightarrow> None)"

definition is_leap :: "int \<Rightarrow> bool" where
  "is_leap y \<longleftrightarrow> y mod 4 = 0 \<and> (y mod 100 \<noteq> 0 \<or> y mod 400 = 0)"

definition days_in :: "nat \<Rightarrow> int \<Rightarrow> nat" where
  "days_in month year = (if month = 2 \<and> is_leap year then 29
     else [31, 28, 31, 30, 31, 30, 31, 31, 30, 31, 30, 31] ! (month - 1))"

text \<open>Days from January 1 of year 1 to a date of the proleptic Gregorian calendar.\<close>

definition days_since_epoch :: "int \<Rightarrow> nat \<Rightarrow> nat \<Rightarrow> int" where
  "days_since_epoch year month day =
     (let y = year - 1
      in 365 * y + y div 4 - y div 100 + y div 400
         + int (sum_list (map (\<lambda>m. days_in m year) [1..<month])) + int day - 1)"

definition date_time :: "int \<Rightarrow> nat \<Rightarrow> nat \<Rightarrow> nat \<Rightarrow> nat \<Rightarrow> nat \<Rightarrow> nat \<Rightarrow> time" where
  "date_time year month day hour mi sec nsec =
     (((days_since_epoch year month day * 24 + int hour) * 60 + int mi) * 60 + int sec)
       * 1000000000 + int nsec"

definition lit :: "char \<Rightarrow> string \<Rightarrow> string option" where
  "lit c s = (if s \<noteq> [] \<and> hd s = c then Some (tl s) else None)"

definition parse_date :: "string \<Rightarrow> ((nat \<times> nat \<times> nat) \<times> string) option" where
  "parse_date s =
     Option.bind (parse_year s) (\<lambda>(year, s). Option.bind (lit CHR ''-'' s) (\<lambda>s.
     Option.bind (getnum_lt True 13 s) (\<lambda>(month, s). Option.bind (lit CHR ''-'' s) (\<lambda>s.
     Option.bind (getnum True s) (\<lambda>(day, s).
       if month = 0 \<or> day = 0 \<or> days_in month (int year) < day then None
       else Some ((year, month, day), s))))))"

definition parse_clock :: "string \<Rightarrow> ((nat \<times> nat \<times> nat \<times> nat) \<times> string) option" where
  "parse_clock s =
     Option.bind (getnum_lt False 24 s) (\<lambda>(hour, s). Option.bind (lit CHR '':'' s) (\<lambda>s.
     Option.bind (getnum_lt True 60 s) (\<lambda>(mi, s). Option.bind (lit CHR '':'' s) (\<lambda>s.
     Option.bind (getnum_lt True 60 s) (\<lambda>(sec, s).
       (case parse_fraction s of (nsec, s) \<Rightarrow> Some ((hour, mi, sec, nsec), s)))))))"

definition parse_RFC3339 :: "string \<Rightarrow> time option" where
  "parse_RFC3339 s =
     Option.bind (parse_date s) (\<lambda>((year, month, day), s). Option.bind (lit CHR ''T'' s) (\<lambda>s.
     Option.bind (parse_clock s) (\<lambda>((hour, mi, sec, nsec), s).
     Option.bind (parse_zone s) (\<lambda>(offset, s).
       if s \<noteq> [] then None
       else Some (date_time (int year) month day hour mi sec nsec - offset * 1000000000)))))"

section \<open>Printing and parsing numbers\<close>

lemma byte_digit_char [simp]: "byte (digit_char n) = 48 + n mod 10"
proof -
  have "48 + n mod 10 < 256" using mod_less_divisor [of 10 n] by linarith
  then show ?thesis by (simp add: digit_char_def)
qed

lemma digit_char_digit [simp]: "is_digit (digit_char n)" "digit_of (digit_char n) = n mod 10"
  using mod_less_divisor [of 10 n] by (simp_all add: is_digit_def digit_of_def)

lemma dec_nat_digits: "dec_nat n \<noteq> [] \<and> list_all is_digit (dec_nat n) \<and> digits_val (dec_nat n) = n"
proof (induction n rule: dec_nat.induct)
  case (1 n)
  then show ?case by (subst (1 2 3) dec_nat.simps) (auto simp: digits_val_def)
qed

lemma unsigned_dec_nat [simp]: "unsigned (dec_nat n) = Some n"
  using dec_nat_digits [of n] by (simp add: unsigned_def)

lemma hd_dec_nat: "is_digit (hd (dec_nat n))"
  using dec_nat_digits [of n] by (cases "dec_nat n") auto

lemma sign_not_digit [simp]: "\<not> is_digit CHR ''-''" "\<not> is_digit CHR ''+''"
  by (simp_all add: is_digit_def)

lemma Atoi_dec_int: "\<lbrakk>- (2 ^ 63) \<le> n; n < 2 ^ 63\<rbrakk> \<Longrightarrow> Atoi (dec_int n) = Some n"
proof (cases "n < 0")
  case False
  assume *: "- (2 ^ 63) \<le> n" "n < 2 ^ 63"
  obtain c r where cr: "dec_nat (nat n) = c # r" using dec_nat_digits [of "nat n"] by (cases "dec_nat (nat n)") auto
  with hd_dec_nat [of "nat n"] have "c \<noteq> CHR ''-''" "c \<noteq> CHR ''+''" by auto
  with cr False * unsigned_dec_nat [of "nat n"] show ?thesis
    by (simp add: Atoi_def dec_int_def in_int64_def)
qed (simp add: Atoi_def dec_int_def in_int64_def)

text \<open>Digits followed by something else.\<close>

lemma leadingInt_digits:
  "\<lbrakk>list_all is_digit ds; foldl (\<lambda>n c. n * 10 + digit_of c) x ds \<le> 2 ^ 63; s = [] \<or> \<not> is_digit (hd s)\<rbrakk>
   \<Longrightarrow> leadingInt x (ds @ s) = Some (foldl (\<lambda>n c. n * 10 + digit_of c) x ds, s)"
proof (induction ds arbitrary: x)
  case Nil
  then show ?case by (cases s) auto
next
  case (Cons c ds)
  have mono: "y \<le> foldl (\<lambda>n c. n * 10 + digit_of c) y ds" for y
  proof (induction ds arbitrary: y)
    case (Cons d ds)
    from Cons.IH [of "y * 10 + digit_of d"] show ?case by simp
  qed simp
  from mono [of "x * 10 + digit_of c"] Cons.prems(2) have le: "x * 10 + digit_of c \<le> 2 ^ 63" by simp
  then have "\<not> 2 ^ 63 div 10 < x" by linarith
  with le Cons show ?case by simp
qed

lemma ParseDuration_units:
  assumes "unit_of u = Some k" "u \<noteq> []" "list_all unit_char u" "n * k \<le> 2 ^ 63 - 1"
  shows "ParseDuration (dec_nat n @ u) = Some (int (n * k))"
proof -
  let ?s = "dec_nat n @ u"
  have k: "0 < k" using assms(1) by (auto simp: unit_of_def split: if_splits)
  have "n \<le> n * k" using k by simp
  with assms(4) have n: "n \<le> 2 ^ 63" by linarith
  have "n \<le> 2 ^ 63 div k" using assms(4) k by (simp add: less_eq_div_iff_mult_less_eq)
  then have fits: "\<not> 2 ^ 63 div k < n" by simp
  have ne: "?s \<noteq> []" "hd ?s = hd (dec_nat n)" using dec_nat_digits [of n] by auto
  have hd: "\<not> unit_char (hd ?s)" "hd ?s \<noteq> CHR ''-''" "hd ?s \<noteq> CHR ''+''"
    using hd_dec_nat [of n] ne(2) by (auto simp: unit_char_def)
  have hu: "\<not> is_digit (hd u)" "hd u \<noteq> CHR ''.''"
    using assms(2,3) by (cases u; simp add: unit_char_def)+
  have lead: "leadingInt 0 ?s = Some (n, u)"
    using leadingInt_digits [of "dec_nat n" 0 u] dec_nat_digits [of n] hu n by (simp add: digits_val_def)
  have un: "takeWhile unit_char u = u" "dropWhile unit_char u = []"
    using assms(3) by (simp_all add: list_all_iff)
  have "length ?s \<noteq> length u" using dec_nat_digits [of n] by simp
  then have item: "duration_item ?s = Some (n * k, [])"
    using ne(1) hd(1) lead hu assms(1,2,4) fits by (simp add: duration_item_def un Let_def)
  have "?s \<noteq> ''0''" using assms(2) dec_nat_digits [of n] by (cases "dec_nat n") auto
  with ne hd item assms(2,4) show ?thesis
    by (simp add: ParseDuration_def Let_def duration_loop.simps)
qed

end
