(* ===== verification/Go_Json.thy ===== *)
theory Go_Json
  imports Go_Text Models
begin

text \<open>
  Decoding of request bodies and messages with \<open>encoding/json\<close>, at the level of JSON values:
  \<open>None\<close> stands for a text that is not JSON, \<open>Some v\<close> for the first value of the text. A
  number literal is its sign and its magnitude. A \<open>null\<close> leaves a string as it is and makes a
  map, a slice or a pointer nil; a value of the wrong kind is an error; unknown keys are
  skipped; keys match a field name up to the case folding of the package. Objects with
  repeated keys and timestamps written with escape sequences are outside the model.
\<close>

datatype json =
    JNull
  | JBool bool
  | JNum bool rat
  | JStr string
  | JArr "json list"
  | JObj "(string \<times> json) list"

text \<open>
  Folding of a key against an ASCII name: upper case letters, the long s (\<open>C5 BF\<close>) and the
  Kelvin sign (\<open>E2 84 AA\<close>).
\<close>

definition fold_char :: "char \<Rightarrow> char" where
  "fold_char c = (if 65 \<le> byte c \<and> byte c \<le> 90 then char_of (byte c + 32) else c)"

fun fold_name :: "string \<Rightarrow> string" where
  "fold_name (a # b # s) =
     (if byte a = 197 \<and> byte b = 191 then CHR ''s'' # fold_name s
      else if byte a = 226 \<and> byte b = 132 \<and> s \<noteq> [] \<and> byte (hd s) = 170
      then CHR ''k'' # fold_name (tl s)
      else fold_char a # fold_name (b # s))"
| "fold_name [a] = [fold_char a]"
| "fold_name [] = []"

definition dec_string :: "json \<Rightarrow> string \<Rightarrow> string option" where
  "dec_string j old = (case j of JNull \<Rightarrow> Some old | JStr s \<Rightarrow> Some s | _ \<Rightarrow> None)"

text \<open>A number that overflows \<open>float64\<close> is an error.\<close>

definition dec_float :: "json \<Rightarrow> float64 option" where
  "dec_float j = (case j of
     JNull \<Rightarrow> Some (Fin 0)
   | JNum neg m \<Rightarrow> if m = 0 then Some (signed_zero neg)
                  else (case rnd (if neg then - m else m) of
                          PInf \<Rightarrow> None | NInf \<Rightarrow> None | x \<Rightarrow> Some x)
   | _ \<Rightarrow> None)"

fun dec_entries :: "(json \<Rightarrow> 'v option) \<Rightarrow> (string \<times> json) list \<Rightarrow> (string, 'v) gomap
    \<Rightarrow> (string, 'v) gomap option" where
  "dec_entries dec [] m = Some m"
| "dec_entries dec ((k, j) # kvs) m =
     (case dec j of None \<Rightarrow> None | Some v \<Rightarrow> dec_entries dec kvs (fmupd k v m))"

definition dec_map :: "(json \<Rightarrow> 'v option) \<Rightarrow> json \<Rightarrow> (string, 'v) gomap
    \<Rightarrow> (string, 'v) gomap option" where
  "dec_map dec j old = (case j of
     JNull \<Rightarrow> Some fmempty | JObj kvs \<Rightarrow> dec_entries dec kvs old | _ \<Rightarrow> None)"

definition dec_string_map :: "json \<Rightarrow> metadata \<Rightarrow> metadata option" where
  "dec_string_map = dec_map (\<lambda>j. dec_string j '''')"

definition dec_float_map :: "json \<Rightarrow> metrics \<Rightarrow> metrics option" where
  "dec_float_map = dec_map dec_float"

text \<open>A pointer to a time, a slice of strings: \<open>None\<close> inside is nil.\<close>

definition dec_time :: "json \<Rightarrow> time option option" where
  "dec_time j = (case j of
     JNull \<Rightarrow> Some None | JStr s \<Rightarrow> map_option Some (parse_RFC3339 s) | _ \<Rightarrow> None)"

fun dec_list :: "json list \<Rightarrow> string list option" where
  "dec_list [] = Some []"
| "dec_list (j # js) = (case (dec_string j '''', dec_list js) of
     (Some s, Some ss) \<Rightarrow> Some (s # ss) | _ \<Rightarrow> None)"

definition dec_strings :: "json \<Rightarrow> string list option option" where
  "dec_strings j = (case j of
     JNull \<Rightarrow> Some None | JArr js \<Rightarrow> map_option Some (dec_list js) | _ \<Rightarrow> None)"

fun dec_fields :: "(string \<Rightarrow> json \<Rightarrow> 'r \<Rightarrow> 'r option) \<Rightarrow> (string \<times> json) list \<Rightarrow> 'r \<Rightarrow> 'r option" where
  "dec_fields f [] r = Some r"
| "dec_fields f ((k, j) # kvs) r =
     (case f (fold_name k) j r of None \<Rightarrow> None | Some r' \<Rightarrow> dec_fields f kvs r')"

definition dec_struct :: "(string \<Rightarrow> json \<Rightarrow> 'r \<Rightarrow> 'r option) \<Rightarrow> 'r \<Rightarrow> json option \<Rightarrow> 'r option" where
  "dec_struct f zero body = (case body of
     None \<Rightarrow> None
   | Some JNull \<Rightarrow> Some zero
   | Some (JObj kvs) \<Rightarrow> dec_fields f kvs zero
   | Some _ \<Rightarrow> None)"

section \<open>The payload of a telemetry message\<close>

record telemetry_body =
  tb_Timestamp :: "time option"
  tb_Metrics :: metrics

definition dec_telemetry :: "json option \<Rightarrow> telemetry_body option" where
  "dec_telemetry = dec_struct (\<lambda>k j r.
     if k = ''timestamp'' then map_option (\<lambda>t. r\<lparr>tb_Timestamp := t\<rparr>) (dec_time j)
     else if k = ''metrics'' then map_option (\<lambda>m. r\<lparr>tb_Metrics := m\<rparr>) (dec_float_map j (tb_Metrics r))
     else Some r) \<lparr>tb_Timestamp = None, tb_Metrics = fmempty\<rparr>"

text \<open>Every decoded metric is a finite number.\<close>

definition finite_metrics :: "metrics \<Rightarrow> bool" where
  "finite_metrics m \<longleftrightarrow> (\<forall>k v. fmlookup m k = Some v \<longrightarrow> v = NZero \<or> (\<exists>q. v = Fin q))"

lemma dec_float_finite: "dec_float j = Some v \<Longrightarrow> v = NZero \<or> (\<exists>q. v = Fin q)"
proof (cases j)
  case (JNum neg m)
  moreover have "rnd q \<noteq> NaN" for q
    by (auto simp: rnd_def Let_def signed_zero_def signed_inf_def)
  moreover assume "dec_float j = Some v"
  ultimately show ?thesis
    by (cases v) (auto simp: dec_float_def signed_zero_def split: if_splits float64.splits)
qed (auto simp: dec_float_def)

lemma dec_entries_finite:
  "\<lbrakk>dec_entries dec_float kvs m = Some m'; finite_metrics m\<rbrakk> \<Longrightarrow> finite_metrics m'"
proof (induction kvs arbitrary: m)
  case (Cons kv kvs)
  obtain k j where kv: "kv = (k, j)" by force
  from Cons.prems(1) obtain v where v: "dec_float j = Some v"
    "dec_entries dec_float kvs (fmupd k v m) = Some m'"
    by (auto simp: kv split: option.splits)
  have "finite_metrics (fmupd k v m)"
    using Cons.prems(2) dec_float_finite [OF v(1)] by (simp add: finite_metrics_def)
  from Cons.IH [OF v(2) this] show ?case .
qed simp

lemma dec_fields_inv:
  assumes "\<And>k j r r'. \<lbrakk>P r; f k j r = Some r'\<rbrakk> \<Longrightarrow> P r'"
  shows "\<lbrakk>dec_fields f kvs r = Some r'; P r\<rbrakk> \<Longrightarrow> P r'"
proof (induction kvs arbitrary: r)
  case (Cons kv kvs)
  then show ?case by (cases kv) (auto split: option.splits dest: assms)
qed simp

lemma dec_telemetry_finite:
  assumes "dec_telemetry body = Some b"
  shows "finite_metrics (tb_Metrics b)"
proof -
  have empty: "finite_metrics fmempty" by (simp add: finite_metrics_def)
  have "finite_metrics m'" if "dec_float_map j m = Some m'" "finite_metrics m" for j m m'
    using that empty by (cases j) (auto simp: dec_float_map_def dec_map_def dest: dec_entries_finite)
  then show ?thesis
    using assms empty
    by (auto simp: dec_telemetry_def dec_struct_def split: option.splits json.splits if_splits
        elim!: dec_fields_inv [where P = "\<lambda>r. finite_metrics (tb_Metrics r)", rotated])
qed

end
