(* ===== verification/Go_Time.thy ===== *)
theory Go_Time
  imports Go_Text
begin

text \<open>
  Writing times, as \<open>encoding/json\<close> does: \<open>Time.MarshalJSON\<close> prints the layout \<open>RFC3339Nano\<close>
  and fails for a year that needs more than four digits or a zone of 24 hours or more. A time is
  an instant; the location in which it is written is given by its offset in minutes. What is
  printed parses back to the same instant.
\<close>

section \<open>The calendar\<close>

definition years_days :: "int \<Rightarrow> int" where
  "years_days y = 365 * y + y div 4 - y div 100 + y div 400"

text \<open>The year that contains a day, and the day in it: cycles of 400, 100, 4 and 1 years.\<close>

definition year_day :: "int \<Rightarrow> int \<times> nat" where
  "year_day d =
     (let a = d div 146097; d1 = d mod 146097;
          b = min 3 (d1 div 36524); d2 = d1 - 36524 * b;
          c = d2 div 1461; d3 = d2 mod 1461;
          e = min 3 (d3 div 365)
      in (400 * a + 100 * b + 4 * c + e + 1, nat (d3 - 365 * e)))"

fun month_day :: "nat list \<Rightarrow> nat \<Rightarrow> nat \<Rightarrow> nat \<times> nat" where
  "month_day [] m d = (m, d + 1)"
| "month_day (l # ls) m d = (if d < l then (m, d + 1) else month_day ls (m + 1) (d - l))"

definition month_lengths :: "int \<Rightarrow> nat list" where
  "month_lengths y = map (\<lambda>m. days_in m y) [1..<13]"

definition civil :: "int \<Rightarrow> int \<times> nat \<times> nat" where
  "civil d = (case year_day d of (y, yd) \<Rightarrow> (y, month_day (month_lengths y) 1 yd))"

lemma quarter:
  fixes x k :: int
  assumes "b = min 3 (x div k)" "0 < k" "0 \<le> x" "x \<le> 4 * k"
  shows "0 \<le> b" "b \<le> 3" "0 \<le> x - k * b" "b < 3 \<Longrightarrow> x - k * b < k" "x - k * b \<le> k"
proof -
  have x: "x = k * (x div k) + x mod k" "0 \<le> x mod k" "x mod k < k" using assms(2) by simp_all
  have q: "0 \<le> x div k" using assms(2,3) by (simp add: pos_imp_zdiv_nonneg_iff)
  show "0 \<le> b" "b \<le> 3" using q by (simp_all add: assms(1))
  have le: "k * b \<le> k * (x div k)" by (rule mult_left_mono) (use assms(1,2) in auto)
  then show "0 \<le> x - k * b" using x by linarith
  show lt: "x - k * b < k" if "b < 3"   proof -
    from that have "b = x div k" using assms(1) by (simp add: min_def split: if_splits)
    then have "x - k * b = x mod k" by (simp add: minus_mult_div_eq_mod)
    then show ?thesis using x by simp
  qed
  show "x - k * b \<le> k"
  proof (cases "b < 3")
    case False
    then have "b = 3" using assms(1) by simp
    then show ?thesis using assms(4) by simp
  qed (use lt in simp)
qed

text \<open>The last of four years is a leap year, unless it ends a century that is not the fourth.\<close>

lemma fourth_year_leap:
  fixes a b c :: int
  assumes "0 \<le> c" "c \<le> 24" "c < 24 \<or> b = 3"
  shows "is_leap (400 * a + 100 * b + 4 * c + 4)"
proof -
  let ?y = "400 * a + 100 * b + 4 * c + 4"
  have y: "?y = 100 * (4 * a + b) + (4 * c + 4)" "?y = 4 * (100 * a + 25 * b + c + 1)" by simp_all
  have "?y mod 400 = 0 \<or> ?y mod 100 \<noteq> 0"
  proof (cases "c < 24")
    case True
    have "?y mod 100 = 4 * c + 4"
      by (rule int_mod_pos_eq [where q = "4 * a + b"]) (use True assms(1) in auto)
    then show ?thesis using assms(1) by simp
  next
    case False
    then have "?y = 400 * (a + 1)" using assms(2,3) by simp
    then show ?thesis by (metis mod_mult_self1_is_0)
  qed
  moreover have "?y mod 4 = 0" by (simp only: y(2) mod_mult_self1_is_0)
  ultimately show ?thesis unfolding is_leap_def by (intro conjI; argo)
qed

lemma year_day_sound:
  assumes "year_day d = (y, yd)"
  shows "years_days (y - 1) + int yd = d" "yd < (if is_leap y then 366 else 365)"
proof -
  define a d1 where "a = d div 146097" and "d1 = d mod 146097"
  define b d2 where "b = min 3 (d1 div 36524)" and "d2 = d1 - 36524 * b"
  define c d3 where "c = d2 div 1461" and "d3 = d2 mod 1461"
  define e where "e = min 3 (d3 div 365)"
  note defs = a_def d1_def b_def d2_def c_def d3_def e_def
  have y: "y = 400 * a + 100 * b + 4 * c + e + 1" and yd: "yd = nat (d3 - 365 * e)"
    using assms by (simp_all only: year_day_def Let_def prod.inject flip: defs)
  have d: "d = 146097 * a + d1" "0 \<le> d1" "d1 < 146097"
    unfolding a_def d1_def by (simp_all only: mult_div_mod_eq pos_mod_sign pos_mod_bound zero_less_numeral)
  have b: "0 \<le> b" "b \<le> 3" "0 \<le> d2" "b < 3 \<Longrightarrow> d2 < 36524" "d2 \<le> 36524"
    using quarter [OF b_def _ d(2)] d(3) unfolding d2_def by simp_all
  have c: "d2 = 1461 * c + d3" "0 \<le> d3" "d3 < 1461"
    unfolding c_def d3_def by (simp_all only: mult_div_mod_eq pos_mod_sign pos_mod_bound zero_less_numeral)
  have c': "0 \<le> c" "c \<le> 24" using b(3,5) c by linarith+
  have e: "0 \<le> e" "e \<le> 3" "365 * e \<le> d3" "e < 3 \<Longrightarrow> d3 - 365 * e < 365" "d3 - 365 * e \<le> 365"
    using quarter [OF e_def _ c(2)] c(3) by simp_all
  have last: "d3 - 365 * e < 365" if "c = 24" "b < 3" using b(4) [OF that(2)] c that(1) e by linarith
  have divs: "(y - 1) div 4 = 100 * a + 25 * b + c" "(y - 1) div 100 = 4 * a + b" "(y - 1) div 400 = a"
    using b c' e y by (auto intro!: int_div_pos_eq [where r = e]
        int_div_pos_eq [where r = "4 * c + e"] int_div_pos_eq [where r = "100 * b + 4 * c + e"])
  have "int yd = d3 - 365 * e" using e(3) by (simp add: yd)
  then show "years_days (y - 1) + int yd = d"
    unfolding years_days_def divs using y d(1) d2_def c(1) by (simp add: algebra_simps)
  show "yd < (if is_leap y then 366 else 365)"
  proof (cases "is_leap y")
    case True
    then show ?thesis using e(3,5) by (simp add: yd)
  next
    case False
    have "e < 3 \<or> c = 24 \<and> b < 3"
    proof (rule ccontr)
      assume "\<not> ?thesis"
      with e c' b have "e = 3" "c < 24 \<or> b = 3" by linarith+
      with fourth_year_leap [OF c', of b a] False y show False by (simp add: algebra_simps)
    qed
    with e(3,4) last False show ?thesis by (auto simp: yd nat_less_iff)
  qed
qed

lemma month_day_sound:
  assumes "month_day ls m d = (m', dd)" "d < sum_list ls"
  shows "m \<le> m' \<and> m' < m + length ls \<and> sum_list (take (m' - m) ls) + dd = d + 1 \<and> 0 < dd
    \<and> dd \<le> ls ! (m' - m)"
  using assms
proof (induction ls m d rule: month_day.induct)
  case (2 l ls m d)
  show ?case
  proof (cases "d < l")
    case False
    with 2 have "m + 1 \<le> m' \<and> m' < m + 1 + length ls \<and> sum_list (take (m' - (m + 1)) ls) + dd = d - l + 1
      \<and> 0 < dd \<and> dd \<le> ls ! (m' - (m + 1))" by (simp add: less_diff_conv2)
    moreover then have "m' - m = Suc (m' - (m + 1))" by linarith
    ultimately show ?thesis using False by (simp, linarith)
  qed (use 2 in auto)
qed simp

lemma sum_month_lengths: "sum_list (month_lengths y) = (if is_leap y then 366 else 365)"
  by (simp add: month_lengths_def days_in_def upt_rec)

lemma month_lengths_nth: "\<lbrakk>1 \<le> m; m \<le> 12\<rbrakk> \<Longrightarrow> month_lengths y ! (m - 1) = days_in m y"
  by (auto simp: month_lengths_def less_Suc_eq le_less)

lemma take_month_lengths:
  "\<lbrakk>1 \<le> m; m \<le> 12\<rbrakk> \<Longrightarrow> take (m - 1) (month_lengths y) = map (\<lambda>i. days_in i y) [1..<m]"
  by (simp add: month_lengths_def take_map del: upt_Suc)

text \<open>The date of a day is a date of the calendar, and it is that day.\<close>

lemma civil_sound:
  assumes "civil d = (y, m, dd)"
  shows "days_since_epoch y m dd = d" "1 \<le> m" "m \<le> 12" "0 < dd" "dd \<le> days_in m y"
proof -
  obtain yd where yd: "year_day d = (y, yd)" "month_day (month_lengths y) 1 yd = (m, dd)"
    using assms by (auto simp: civil_def split: prod.splits)
  note ys = year_day_sound [OF yd(1)]
  have "length (month_lengths y) = 12" by (simp add: month_lengths_def)
  with month_day_sound [OF yd(2)] ys(2) show m: "1 \<le> m" "m \<le> 12" and "0 < dd" "dd \<le> days_in m y"
    by (auto simp: sum_month_lengths month_lengths_nth [of m y, simplified])
  from month_day_sound [OF yd(2)] ys(2) have "sum_list (map (\<lambda>i. days_in i y) [1..<m]) + dd = yd + 1"
    by (simp only: sum_month_lengths take_month_lengths [OF m])
  then have "int (sum_list (map (\<lambda>i. days_in i y) [1..<m])) + int dd = int yd + 1" by linarith
  with ys(1) show "days_since_epoch y m dd = d"
    by (simp add: days_since_epoch_def years_days_def Let_def)
qed

section \<open>Printing\<close>

definition pad2 :: "nat \<Rightarrow> string" where
  "pad2 n = [digit_char (n div 10), digit_char n]"

definition pad4 :: "nat \<Rightarrow> string" where
  "pad4 n = pad2 (n div 100) @ pad2 n"

fun digits9 :: "nat \<Rightarrow> nat \<Rightarrow> string" where
  "digits9 0 n = ''''"
| "digits9 (Suc k) n = digits9 k (n div 10) @ [digit_char n]"

text \<open>The fraction of a second: nine digits without the zeros at the end.\<close>

definition fmt_fraction :: "nat \<Rightarrow> string" where
  "fmt_fraction nsec = (if nsec = 0 then ''''
     else CHR ''.'' # rev (dropWhile (\<lambda>c. c = CHR ''0'') (rev (digits9 9 nsec))))"

definition fmt_zone :: "int \<Rightarrow> string" where
  "fmt_zone off = (if off = 0 then ''Z''
     else (if off < 0 then CHR ''-'' else CHR ''+'')
       # pad2 (nat \<bar>off\<bar> div 60) @ '':'' @ pad2 (nat \<bar>off\<bar> mod 60))"

definition fmt_clock :: "nat \<Rightarrow> nat \<Rightarrow> string" where
  "fmt_clock sec nsec = pad2 (sec div 3600) @ '':'' @ pad2 (sec div 60 mod 60) @ '':''
     @ pad2 (sec mod 60) @ fmt_fraction nsec"

definition day_nanos :: int where
  "day_nanos = 86400000000000"

definition marshal_time :: "int \<Rightarrow> time \<Rightarrow> string option" where
  "marshal_time off t =
     (let l = t + off * 60 * 1000000000; rest = l mod day_nanos
      in case civil (l div day_nanos) of (y, m, d) \<Rightarrow>
         if y < 0 \<or> 9999 < y \<or> 24 * 60 \<le> \<bar>off\<bar> then None
         else Some (pad4 (nat y) @ ''-'' @ pad2 m @ ''-'' @ pad2 d @ ''T''
                @ fmt_clock (nat (rest div 1000000000)) (nat (rest mod 1000000000)) @ fmt_zone off))"

section \<open>What is printed parses back\<close>

lemma getnum_pad2 [simp]: "n < 100 \<Longrightarrow> getnum b (pad2 n @ r) = Some (n, r)"
  by (simp add: getnum_def pad2_def)

lemma getnum_lt_pad2 [simp]: "\<lbrakk>n < k; k \<le> 100\<rbrakk> \<Longrightarrow> getnum_lt b k (pad2 n @ r) = Some (n, r)"
  by (simp add: getnum_lt_def)

lemma parse_year_pad4 [simp]: "n < 10000 \<Longrightarrow> parse_year (pad4 n @ r) = Some (n, r)"
proof -
  have "n div 10 = 10 * (n div 100) + n div 10 mod 10" "n = 10 * (n div 10) + n mod 10"
    using div_mult2_eq [of n 10 10] by simp_all
  then have "100 * (n div 100) + n div 10 mod 10 * 10 + n mod 10 = n" by linarith
  then show "n < 10000 \<Longrightarrow> ?thesis"
    by (simp add: parse_year_def pad4_def pad2_def digits_val_def)
qed

lemma lit_Cons [simp]: "lit c (c # r) = Some r"
  by (simp add: lit_def)

lemma digits9_facts: "length (digits9 k n) = k" "list_all is_digit (digits9 k n)"
  "foldl (\<lambda>n c. n * 10 + digit_of c) x (digits9 k n) = x * 10 ^ k + n mod 10 ^ k"
proof -
  show "length (digits9 k n) = k" by (induction k arbitrary: n) auto
  show "list_all is_digit (digits9 k n)" by (induction k arbitrary: n) auto
  show "foldl (\<lambda>n c. n * 10 + digit_of c) x (digits9 k n) = x * 10 ^ k + n mod 10 ^ k"
  proof (induction k arbitrary: n)
    case (Suc k)
    have "n mod (10 * 10 ^ k) = 10 * (n div 10 mod 10 ^ k) + n mod 10"
      by (rule mod_mult2_eq)
    with Suc [of "n div 10"] show ?case by (simp add: algebra_simps)
  qed simp
qed

lemma digits_val_zeros: "digits_val (ds @ replicate k CHR ''0'') = digits_val ds * 10 ^ k"
proof (induction k)
  case (Suc k)
  have "digits_val (ds @ replicate (Suc k) CHR ''0'') = digits_val (ds @ replicate k CHR ''0'') * 10"
    by (simp add: digits_val_def digit_of_def flip: replicate_append_same)
  with Suc show ?case by simp
qed simp

lemma strip_zeros:
  "\<exists>k. ds = rev (dropWhile (\<lambda>c. c = CHR ''0'') (rev ds)) @ replicate k CHR ''0''"
proof -
  have "rev ds = takeWhile (\<lambda>c. c = CHR ''0'') (rev ds) @ dropWhile (\<lambda>c. c = CHR ''0'') (rev ds)" by simp
  moreover have "takeWhile (\<lambda>c. c = CHR ''0'') (rev ds)
      = replicate (length (takeWhile (\<lambda>c. c = CHR ''0'') (rev ds))) CHR ''0''"
    by (rule replicate_length_same [symmetric]) (auto dest: set_takeWhileD)
  ultimately have "ds = rev (dropWhile (\<lambda>c. c = CHR ''0'') (rev ds))
      @ rev (replicate (length (takeWhile (\<lambda>c. c = CHR ''0'') (rev ds))) CHR ''0'')"
    by (metis rev_append rev_rev_ident)
  then show ?thesis by (simp add: exI)
qed

lemma parse_fraction_fmt:
  assumes "n < 1000000000" "r \<noteq> []" "\<not> is_digit (hd r)" "hd r \<notin> {CHR ''.'', CHR '',''}"
  shows "parse_fraction (fmt_fraction n @ r) = (n, r)"
proof (cases "n = 0")
  case False
  define ds where "ds = rev (dropWhile (\<lambda>c. c = CHR ''0'') (rev (digits9 9 n)))"
  from strip_zeros [of "digits9 9 n"] obtain k where k: "digits9 9 n = ds @ replicate k CHR ''0''"
    unfolding ds_def by blast
  note nine = digits9_facts [of 9 n]
  have len: "length ds + k = 9" using nine(1) k by (metis length_append length_replicate)
  have "digits_val (digits9 9 n) = n" using digits9_facts(3) [of 0 9 n] assms(1) by (simp add: digits_val_def)
  then have val: "digits_val ds * 10 ^ k = n" by (simp add: k digits_val_zeros)
  have dig: "list_all is_digit ds" using nine(2) by (simp add: k)
  have ne: "ds \<noteq> []"
  proof
    assume "ds = []"
    then have "n = 0" using val by (simp add: digits_val_def)
    with False show False by simp
  qed
  then have "is_digit (hd ds)" using dig by (cases ds) auto
  moreover have "takeWhile is_digit (ds @ r) = ds" "dropWhile is_digit (ds @ r) = r"
    using dig assms(2,3) by (cases r; auto simp: list_all_iff takeWhile_append dropWhile_append)+
  moreover have "take 9 ds = ds" "9 - length ds = k" using len by simp_all
  moreover have "Suc 0 \<le> length ds + length r" using ne by (cases ds) auto
  ultimately show ?thesis
    using False ne val by (simp add: parse_fraction_def fmt_fraction_def nth_append hd_conv_nth flip: ds_def)
qed (use assms in \<open>simp add: parse_fraction_def fmt_fraction_def\<close>)

lemma parse_zone_fmt: "\<bar>off\<bar> < 24 * 60 \<Longrightarrow> parse_zone (fmt_zone off) = Some (off * 60, [])"
proof (cases "off = 0")
  case False
  assume "\<bar>off\<bar> < 24 * 60"
  define n where "n = nat \<bar>off\<bar>"
  have n: "n div 60 < 24" "n mod 60 < 60" using \<open>\<bar>off\<bar> < 24 * 60\<close> by (auto simp: n_def less_mult_imp_div_less)

  have sum: "int n = \<bar>off\<bar>" by (simp add: n_def)
  have num: "getnum True (pad2 (n div 60)) = Some (n div 60, [])" "getnum True (pad2 (n mod 60)) = Some (n mod 60, [])"
    using getnum_pad2 [of "n div 60" True "[]"] getnum_pad2 [of "n mod 60" True "[]"] n by simp_all
  have "take 2 (drop 1 (fmt_zone off)) = pad2 (n div 60)" "take 2 (drop 4 (fmt_zone off)) = pad2 (n mod 60)"
    "fmt_zone off ! 3 = CHR '':''" "length (fmt_zone off) = 6"
    "hd (fmt_zone off) = (if off < 0 then CHR ''-'' else CHR ''+'')"
    using False by (simp_all add: fmt_zone_def pad2_def n_def)
  moreover have "take 2 (pad2 (n mod 60)) = pad2 (n mod 60)" by (simp add: pad2_def)
  ultimately show ?thesis using num n sum by (auto simp: parse_zone_def)
qed (simp add: parse_zone_def fmt_zone_def)


lemma fmt_zone_hd: "fmt_zone off \<noteq> []" "\<not> is_digit (hd (fmt_zone off))"
  "hd (fmt_zone off) \<notin> {CHR ''.'', CHR '',''}"
  by (simp_all add: fmt_zone_def is_digit_def)

lemma parse_clock_fmt:
  assumes "sec < 86400" "nsec < 1000000000"
  shows "parse_clock (fmt_clock sec nsec @ fmt_zone off)
    = Some ((sec div 3600, sec div 60 mod 60, sec mod 60, nsec), fmt_zone off)"
proof -
  have "sec div 3600 < 24" using assms(1) by (simp add: less_mult_imp_div_less)
  then show ?thesis
    using parse_fraction_fmt [OF assms(2) fmt_zone_hd]
    by (simp add: parse_clock_def fmt_clock_def)
qed

lemma clock_parts: "((sec div 3600) * 60 + sec div 60 mod 60) * 60 + sec mod 60 = (sec :: nat)"
proof -
  have "sec div 3600 = sec div 60 div 60" using div_mult2_eq [of sec 60 60] by simp
  then show ?thesis by (simp only: div_mult_mod_eq)
qed

theorem marshal_time_round_trip:
  assumes "marshal_time off t = Some s"
  shows "parse_RFC3339 s = Some t"
proof -
  define l rest where "l = t + off * 60 * 1000000000" and "rest = l mod day_nanos"
  define sec nsec where "sec = nat (rest div 1000000000)" and "nsec = nat (rest mod 1000000000)"
  obtain y m d where ymd: "civil (l div day_nanos) = (y, m, d)" by (metis prod_cases3)
  note date = civil_sound [OF ymd]
  have y: "0 \<le> y" "y \<le> 9999" "\<bar>off\<bar> < 24 * 60"
    and s: "s = pad4 (nat y) @ ''-'' @ pad2 m @ ''-'' @ pad2 d @ ''T'' @ fmt_clock sec nsec @ fmt_zone off"
    using assms unfolding marshal_time_def Let_def l_def [symmetric] rest_def [symmetric]
      sec_def [symmetric] nsec_def [symmetric] ymd prod.case
    by (simp_all split: if_splits)
  have rest: "0 \<le> rest" "rest < day_nanos" by (simp_all add: rest_def day_nanos_def)
  then have sec: "sec < 86400" "nsec < 1000000000" "rest = int sec * 1000000000 + int nsec"
    by (auto simp: sec_def nsec_def day_nanos_def nat_less_iff)
  have "days_in m y \<le> 31" using date(2,3) by (simp add: days_in_def nth_Cons')
  then have d: "d < 100" "d \<noteq> 0" using date(4,5) by linarith+
  have "parse_date (pad4 (nat y) @ ''-'' @ pad2 m @ ''-'' @ pad2 d @ r) = Some ((nat y, m, d), r)" for r
    using y date(2,3,5) d by (simp add: parse_date_def)
  then have "parse_RFC3339 s = Some (date_time y m d (sec div 3600) (sec div 60 mod 60) (sec mod 60) nsec
      - off * 60 * 1000000000)"
    using y parse_clock_fmt [OF sec(1,2), of off] parse_zone_fmt [OF y(3)] by (simp add: parse_RFC3339_def s)
  moreover have "date_time y m d (sec div 3600) (sec div 60 mod 60) (sec mod 60) nsec = l"
  proof -
    have "((int (sec div 3600)) * 60 + int (sec div 60 mod 60)) * 60 + int (sec mod 60) = int sec"
      using arg_cong [OF clock_parts [of sec], of int] by simp
    then have "date_time y m d (sec div 3600) (sec div 60 mod 60) (sec mod 60) nsec
        = l div day_nanos * day_nanos + rest"
      unfolding date_time_def date(1) sec(3) day_nanos_def by (simp add: algebra_simps)
    then show ?thesis by (simp add: rest_def)
  qed
  ultimately show ?thesis by (simp add: l_def)
qed

text \<open>Every instant of the years 1 to 9999 can be written in UTC.\<close>

lemma years_days_mono: "y \<le> y' \<Longrightarrow> years_days y \<le> years_days y'"
proof -
  assume le: "y \<le> y'"
  then have "y div 4 \<le> y' div 4" "y div 400 \<le> y' div 400" by (simp_all add: zdiv_mono1)
  moreover have "y' div 100 \<le> (y + (y' - y) * 100) div 100" using le by (intro zdiv_mono1) simp_all
  then have "y' div 100 - y div 100 \<le> y' - y" by simp
  ultimately show ?thesis using le by (simp add: years_days_def)
qed

theorem marshal_time_defined:
  assumes "0 \<le> t" "t < 3652059 * day_nanos"
  shows "\<exists>s. marshal_time 0 t = Some s"
proof -
  obtain y m d where ymd: "civil (t div day_nanos) = (y, m, d)" by (metis prod_cases3)
  obtain yd where yd: "year_day (t div day_nanos) = (y, yd)"
    using ymd by (auto simp: civil_def split: prod.splits)
  note sound = year_day_sound [OF yd]
  have day: "0 \<le> t div day_nanos" "t div day_nanos < 3652059"
    using assms by (auto simp: day_nanos_def)
  have "\<not> y < 1"
  proof
    assume "y < 1"
    then have "years_days (y - 1) \<le> years_days (- 1)" by (intro years_days_mono) simp
    moreover have "years_days (- 1) = - 366" by (simp add: years_days_def)
    ultimately show False using sound day by (auto split: if_splits)
  qed
  moreover have "\<not> 9999 < y"
  proof
    assume "9999 < y"
    then have "years_days 9999 \<le> years_days (y - 1)" by (intro years_days_mono) simp
    then show False using sound(1) day by (simp add: years_days_def)
  qed
  ultimately show ?thesis using ymd by (simp add: marshal_time_def Let_def)
qed

end
