(* ===== verification/Go_Marshal.thy ===== *)
theory Go_Marshal
  imports Go_Json Go_Time
begin

text \<open>
  Encoding with \<open>encoding/json\<close>, at the level of JSON values as in \<open>Go_Json\<close>: fields in the
  order of the struct, \<open>omitempty\<close>, the keys of a map in byte order, invalid UTF-8 replaced by
  U+FFFD, numbers with the fewest digits that read back as the same \<open>float64\<close>. \<open>None\<close> is an
  encoding error: NaN, infinities, and times outside the years 0 to 9999. The argument \<open>z\<close>
  gives the zone offset at which an instant is written. A nil map is not distinguished from an
  empty one. What is encoded decodes to the same value.
\<close>

section \<open>Strings and numbers\<close>

fun to_valid :: "string \<Rightarrow> string" where
  "to_valid [] = []"
| "to_valid (c # cs) =
     (if byte c < 128 then c # to_valid cs
      else case decode_multibyte (c # cs) of
             None \<Rightarrow> map char_of [239, 191, 189 :: nat] @ to_valid cs
           | Some (_, w) \<Rightarrow> take w (c # cs) @ to_valid (drop (w - 1) cs))"

definition valid_utf8 :: "string \<Rightarrow> bool" where
  "valid_utf8 s \<longleftrightarrow> to_valid s = s"

definition enc_string :: "string \<Rightarrow> json" where
  "enc_string s = JStr (to_valid s)"

definition pow10 :: "int \<Rightarrow> rat" where
  "pow10 e = (if 0 \<le> e then 10 ^ nat e else 1 / 10 ^ nat (- e))"

definition floor_log10 :: "rat \<Rightarrow> int" where
  "floor_log10 q = (case quotient_of q of (n, d) \<Rightarrow>
     let e = int (floorlog 10 (nat n)) - int (floorlog 10 (nat d))
     in if pow10 e \<le> q then e else e - 1)"

text \<open>The nearest decimal with the unit \<open>u\<close> below and above \<open>q\<close> that rounds to \<open>q\<close>.\<close>

definition decimal_at :: "rat \<Rightarrow> rat \<Rightarrow> rat option" where
  "decimal_at q u =
     (let lo = of_int \<lfloor>q / u\<rfloor> * u; hi = lo + u
      in find (\<lambda>x. 0 < x \<and> rnd x = Fin q) (if q - lo \<le> hi - q then [lo, hi] else [hi, lo]))"

fun shortest :: "nat list \<Rightarrow> rat \<Rightarrow> rat" where
  "shortest [] q = q"
| "shortest (n # ns) q =
     (case decimal_at q (pow10 (floor_log10 q - int n)) of Some x \<Rightarrow> x | None \<Rightarrow> shortest ns q)"

text \<open>One to seventeen digits; the exact value ends the search, which never gets there.\<close>

definition enc_float :: "float64 \<Rightarrow> json option" where
  "enc_float x = (case x of
     NaN \<Rightarrow> None | PInf \<Rightarrow> None | NInf \<Rightarrow> None
   | NZero \<Rightarrow> Some (JNum True 0)
   | Fin q \<Rightarrow> Some (JNum (q < 0) (if q = 0 then 0 else shortest [0..<17] \<bar>q\<bar>)))"

definition enc_time :: "(time \<Rightarrow> int) \<Rightarrow> time \<Rightarrow> json option" where
  "enc_time z t = map_option JStr (marshal_time (z t) t)"

section \<open>Objects\<close>

fun enc_obj :: "(string \<times> json option) list \<Rightarrow> (string \<times> json) list option" where
  "enc_obj [] = Some []"
| "enc_obj ((k, j) # kvs) = (case (j, enc_obj kvs) of
     (Some v, Some r) \<Rightarrow> Some ((k, v) # r) | _ \<Rightarrow> None)"

definition enc_struct :: "(string \<times> json option) list \<Rightarrow> json option" where
  "enc_struct kvs = map_option JObj (enc_obj kvs)"

definition enc_map :: "('v \<Rightarrow> json option) \<Rightarrow> (string, 'v) gomap \<Rightarrow> json option" where
  "enc_map enc m = enc_struct (map (\<lambda>(k, v). (to_valid k, enc v)) (sorted_list_of_fmap m))"

fun all_some :: "'a option list \<Rightarrow> 'a list option" where
  "all_some [] = Some []"
| "all_some (x # xs) = (case (x, all_some xs) of (Some v, Some r) \<Rightarrow> Some (v # r) | _ \<Rightarrow> None)"

definition enc_strings :: "metadata \<Rightarrow> json option" where
  "enc_strings = enc_map (\<lambda>v. Some (enc_string v))"

primrec enc_any :: "any_value \<Rightarrow> json option" where
  "enc_any ANil = Some JNull"
| "enc_any (ABool b) = Some (JBool b)"
| "enc_any (AFloat x) = enc_float x"
| "enc_any (AString s) = Some (enc_string s)"
| "enc_any (ASlice vs) = map_option JArr (all_some (map enc_any vs))"
| "enc_any (AMap m) = enc_map (\<lambda>j. j) (fmmap enc_any m)"

section \<open>The structs of package models\<close>

definition enc_device :: "(time \<Rightarrow> int) \<Rightarrow> Device \<Rightarrow> json option" where
  "enc_device z d = enc_struct
     ([(''id'', Some (enc_string (dev_ID d))), (''name'', Some (enc_string (dev_Name d))),
       (''type'', Some (enc_string (dev_Type d))), (''location'', Some (enc_string (dev_Location d)))]
      @ (if dev_Metadata d = fmempty then [] else [(''metadata'', enc_strings (dev_Metadata d))])
      @ [(''status'', Some (enc_string (dev_Status d))), (''registered_at'', enc_time z (dev_RegisteredAt d)),
         (''last_seen_at'', enc_time z (dev_LastSeenAt d))])"

definition enc_telemetry :: "(time \<Rightarrow> int) \<Rightarrow> Telemetry \<Rightarrow> json option" where
  "enc_telemetry z t = enc_struct
     [(''device_id'', Some (enc_string (tel_DeviceID t))), (''timestamp'', enc_time z (tel_Timestamp t)),
      (''metrics'', enc_map enc_float (tel_Metrics t))]"

definition enc_alert :: "(time \<Rightarrow> int) \<Rightarrow> Alert \<Rightarrow> json option" where
  "enc_alert z a = enc_struct
     [(''id'', Some (enc_string (al_ID a))), (''device_id'', Some (enc_string (al_DeviceID a))),
      (''metric'', Some (enc_string (al_Metric a))), (''value'', enc_float (al_Value a)),
      (''threshold'', enc_float (al_Threshold a)), (''severity'', Some (enc_string (al_Severity a))),
      (''message'', Some (enc_string (al_Message a))), (''created_at'', enc_time z (al_CreatedAt a))]"

fun enc_payload :: "(time \<Rightarrow> int) \<Rightarrow> payload \<Rightarrow> json option" where
  "enc_payload z (PDevice d) = enc_device z d"
| "enc_payload z (PTelemetry t) = enc_telemetry z t"
| "enc_payload z (PAlert a) = enc_alert z a"
| "enc_payload z (PFields m) = enc_strings m"
| "enc_payload z (PAny v) = enc_any v"

definition enc_event :: "(time \<Rightarrow> int) \<Rightarrow> Event \<Rightarrow> json option" where
  "enc_event z e = enc_struct
     ([(''type'', Some (enc_string (ev_Type e)))]
      @ (if ev_DeviceID e = '''' then [] else [(''device_id'', Some (enc_string (ev_DeviceID e)))])
      @ [(''payload'', enc_payload z (ev_Payload e)), (''timestamp'', enc_time z (ev_Timestamp e))])"

section \<open>Decoding into an interface and into an event\<close>

fun dec_any :: "json \<Rightarrow> any_value option" where
  "dec_any JNull = Some ANil"
| "dec_any (JBool b) = Some (ABool b)"
| "dec_any (JNum neg m) = map_option AFloat (dec_float (JNum neg m))"
| "dec_any (JStr s) = Some (AString s)"
| "dec_any (JArr js) = map_option ASlice (all_some (map dec_any js))"
| "dec_any (JObj kvs) = map_option (\<lambda>vs. AMap (fmap_of_list (rev vs)))
     (all_some (map (\<lambda>(k, j). map_option (Pair k) (dec_any j)) kvs))"

text \<open>A \<open>null\<close> leaves a time as it is and makes an interface nil.\<close>

definition dec_event :: "json option \<Rightarrow> Event option" where
  "dec_event = dec_struct (\<lambda>k j e.
     if k = ''type'' then map_option (\<lambda>s. e\<lparr>ev_Type := s\<rparr>) (dec_string j (ev_Type e))
     else if k = ''device_id'' then map_option (\<lambda>s. e\<lparr>ev_DeviceID := s\<rparr>) (dec_string j (ev_DeviceID e))
     else if k = ''payload'' then map_option (\<lambda>v. e\<lparr>ev_Payload := PAny v\<rparr>) (dec_any j)
     else if k = ''timestamp'' then map_option (\<lambda>t. case t of Some u \<Rightarrow> e\<lparr>ev_Timestamp := u\<rparr> | None \<Rightarrow> e)
       (dec_time j)
     else Some e) \<lparr>ev_Type = '''', ev_DeviceID = '''', ev_Payload = PAny ANil, ev_Timestamp = 0\<rparr>"

section \<open>Numbers read back\<close>

text \<open>The values a \<open>float64\<close> can have.\<close>

definition float_ok :: "float64 \<Rightarrow> bool" where
  "float_ok x \<longleftrightarrow> (case x of Fin q \<Rightarrow> q = 0 \<or> rnd q = Fin q | _ \<Rightarrow> True)"

lemma shortest_reads: "\<lbrakk>0 < q; rnd q = Fin q\<rbrakk> \<Longrightarrow> 0 < shortest ns q \<and> rnd (shortest ns q) = Fin q"
  by (induction ns) (auto simp: decimal_at_def Let_def find_Some_iff nth_Cons' less_Suc_eq
      split: option.splits if_splits)

lemma rnd_abs: "\<lbrakk>rnd q = Fin q; q < 0\<rbrakk> \<Longrightarrow> rnd (- q) = Fin (- q)"
  by (auto simp: rnd_def Let_def signed_zero_def signed_inf_def split: if_splits)

lemma dec_enc_float:
  assumes "float_ok x" "enc_float x = Some j"
  shows "dec_float j = Some x"
proof (cases x)
  case (Fin q)
  show ?thesis
  proof (cases "q = 0")
    case True
    then show ?thesis using assms Fin by (auto simp: enc_float_def dec_float_def signed_zero_def)
  next
    case False
    with assms(1) Fin have q: "rnd q = Fin q" by (simp add: float_ok_def)
    then have "rnd \<bar>q\<bar> = Fin \<bar>q\<bar>" using rnd_abs [of q] by (simp add: abs_if)
    with False have s: "0 < shortest [0..<17] \<bar>q\<bar>" "rnd (shortest [0..<17] \<bar>q\<bar>) = Fin \<bar>q\<bar>"
      using shortest_reads [of "\<bar>q\<bar>"] by auto
    then have "rnd (if q < 0 then - shortest [0..<17] \<bar>q\<bar> else shortest [0..<17] \<bar>q\<bar>) = Fin q"
      using rnd_minus [OF s] False by (cases "q < 0") simp_all
    then show ?thesis using assms(2) Fin False s(1)
      by (auto simp: enc_float_def dec_float_def simp del: shortest.simps upt_conv_Cons)
  qed
qed (use assms in \<open>auto simp: enc_float_def dec_float_def signed_zero_def\<close>)


section \<open>Values read back\<close>

text \<open>The JSON value \<open>j\<close>, if there is one, is decoded to \<open>v\<close>.\<close>

definition reads :: "json option \<Rightarrow> any_value \<Rightarrow> bool" where
  "reads j v \<longleftrightarrow> (\<forall>x. j = Some x \<longrightarrow> dec_any x = Some v)"

definition any_obj :: "(string \<times> any_value) list \<Rightarrow> any_value" where
  "any_obj vs = AMap (fmap_of_list (rev vs))"

lemma reads_struct:
  assumes "list_all2 (\<lambda>(k, j) (k', v). k = k' \<and> reads j v) kvs vs"
  shows "reads (enc_struct kvs) (any_obj vs)"
proof -
  have "all_some (map (\<lambda>(k, j). map_option (Pair k) (dec_any j)) js) = Some vs"
    if "enc_obj kvs = Some js" for js
    using assms that
  proof (induction kvs vs arbitrary: js rule: list_all2_induct)
    case (Cons kj kvs kv vs)
    then show ?case by (auto simp: reads_def split: prod.splits option.splits)
  qed simp
  then show ?thesis by (auto simp: reads_def enc_struct_def any_obj_def)
qed

lemma reads_string: "valid_utf8 s \<Longrightarrow> reads (Some (enc_string s)) (AString s)"
  by (simp add: reads_def enc_string_def valid_utf8_def)

lemma reads_float: "float_ok x \<Longrightarrow> reads (enc_float x) (AFloat x)"
proof -
  assume "float_ok x"
  then have "dec_float j = Some x" if "enc_float x = Some j" for j using that by (rule dec_enc_float)
  moreover have "\<exists>neg m. j = JNum neg m" if "enc_float x = Some j" for j
    using that by (auto simp: enc_float_def split: float64.splits)
  ultimately show ?thesis unfolding reads_def by fastforce
qed

lemma reads_time: "reads (enc_time z t) (AString (the (marshal_time (z t) t)))"
  by (auto simp: reads_def enc_time_def)

lemma reads_map:
  assumes "\<And>k v. fmlookup m k = Some v \<Longrightarrow> valid_utf8 k \<and> reads (enc v) (f v)"
  shows "reads (enc_map enc m) (AMap (fmmap f m))"
proof -
  let ?ps = "sorted_list_of_fmap m"
  have dist: "distinct (map fst ?ps)"
    by (simp add: keys_sorted_list_of_fmap sorted_list_of_fset.rep_eq)
  have rev: "map_of (rev (map (\<lambda>(k, v). (k, f v)) ?ps)) = map_of (map (\<lambda>(k, v). (k, f v)) ?ps)"
    by (subst map_of_inject_set) (use dist in \<open>simp_all add: comp_def case_prod_beta flip: rev_map\<close>)
  have "map_of (map (\<lambda>(k, v). (k, f v)) ?ps) k = map_option f (fmlookup m k)" for k
    using map_of_map [of f ?ps] by (simp add: comp_def)
  then have "fmap_of_list (rev (map (\<lambda>(k, v). (k, f v)) ?ps)) = fmmap f m"
    by (intro fmap_ext) (simp add: fmlookup_of_list rev)
  moreover have "list_all2 (\<lambda>(k, j) (k', v). k = k' \<and> reads j v)
      (map (\<lambda>(k, v). (to_valid k, enc v)) ?ps) (map (\<lambda>(k, v). (k, f v)) ?ps)"
  proof -
    have "valid_utf8 k \<and> reads (enc v) (f v)" if "(k, v) \<in> set ?ps" for k v
      using that dist assms by (metis map_of_eq_Some_iff map_of_sorted_list)
    then show ?thesis by (auto simp: list_all2_map1 list_all2_map2 valid_utf8_def intro!: list.rel_refl_strong)
  qed
  ultimately show ?thesis using reads_struct unfolding enc_map_def any_obj_def by metis
qed

section \<open>The generic form of a payload\<close>

definition generic_time :: "(time \<Rightarrow> int) \<Rightarrow> time \<Rightarrow> any_value" where
  "generic_time z t = AString (the (marshal_time (z t) t))"

fun generic :: "(time \<Rightarrow> int) \<Rightarrow> payload \<Rightarrow> any_value" where
  "generic z (PDevice d) = any_obj
     ([(''id'', AString (dev_ID d)), (''name'', AString (dev_Name d)), (''type'', AString (dev_Type d)),
       (''location'', AString (dev_Location d))]
      @ (if dev_Metadata d = fmempty then [] else [(''metadata'', AMap (fmmap AString (dev_Metadata d)))])
      @ [(''status'', AString (dev_Status d)), (''registered_at'', generic_time z (dev_RegisteredAt d)),
         (''last_seen_at'', generic_time z (dev_LastSeenAt d))])"
| "generic z (PTelemetry t) = any_obj
     [(''device_id'', AString (tel_DeviceID t)), (''timestamp'', generic_time z (tel_Timestamp t)),
      (''metrics'', AMap (fmmap AFloat (tel_Metrics t)))]"
| "generic z (PAlert a) = any_obj
     [(''id'', AString (al_ID a)), (''device_id'', AString (al_DeviceID a)),
      (''metric'', AString (al_Metric a)), (''value'', AFloat (al_Value a)),
      (''threshold'', AFloat (al_Threshold a)), (''severity'', AString (al_Severity a)),
      (''message'', AString (al_Message a)), (''created_at'', generic_time z (al_CreatedAt a))]"
| "generic z (PFields m) = AMap (fmmap AString m)"
| "generic z (PAny v) = v"

definition strings_ok :: "metadata \<Rightarrow> bool" where
  "strings_ok m \<longleftrightarrow> fmpred (\<lambda>k v. valid_utf8 k \<and> valid_utf8 v) m"

fun payload_ok :: "payload \<Rightarrow> bool" where
  "payload_ok (PDevice d) \<longleftrightarrow> list_all valid_utf8
     [dev_ID d, dev_Name d, dev_Type d, dev_Location d, dev_Status d] \<and> strings_ok (dev_Metadata d)"
| "payload_ok (PTelemetry t) \<longleftrightarrow> valid_utf8 (tel_DeviceID t)
     \<and> fmpred (\<lambda>k x. valid_utf8 k \<and> float_ok x) (tel_Metrics t)"
| "payload_ok (PAlert a) \<longleftrightarrow> list_all valid_utf8
     [al_ID a, al_DeviceID a, al_Metric a, al_Severity a, al_Message a]
     \<and> float_ok (al_Value a) \<and> float_ok (al_Threshold a)"
| "payload_ok (PFields m) \<longleftrightarrow> strings_ok m"
| "payload_ok (PAny v) \<longleftrightarrow> False"

lemma reads_strings: "strings_ok m \<Longrightarrow> reads (enc_strings m) (AMap (fmmap AString m))"
  unfolding enc_strings_def by (rule reads_map) (auto simp: strings_ok_def reads_string)

lemma reads_payload: "payload_ok p \<Longrightarrow> reads (enc_payload z p) (generic z p)"
proof (cases p)
  case (PTelemetry t)
  assume "payload_ok p"
  then have "reads (enc_map enc_float (tel_Metrics t)) (AMap (fmmap AFloat (tel_Metrics t)))"
    using PTelemetry by (intro reads_map) (auto simp: reads_float)
  with \<open>payload_ok p\<close> PTelemetry show ?thesis
    by (simp add: enc_telemetry_def reads_struct reads_string reads_time generic_time_def)
qed (simp_all add: enc_device_def enc_alert_def reads_struct reads_string reads_float reads_time
    reads_strings generic_time_def)

text \<open>
  An event that \<open>json.Marshal\<close> accepts is read by \<open>json.Unmarshal\<close> as the same event, its
  payload in generic form.
\<close>

definition event_ok :: "Event \<Rightarrow> bool" where
  "event_ok e \<longleftrightarrow> valid_utf8 (ev_Type e) \<and> valid_utf8 (ev_DeviceID e) \<and> payload_ok (ev_Payload e)"

lemma event_round_trip:
  assumes "event_ok e" "enc_event z e = Some j"
  shows "dec_event (Some j) = Some (e\<lparr>ev_Payload := PAny (generic z (ev_Payload e))\<rparr>)"
proof -
  obtain p s where p: "enc_payload z (ev_Payload e) = Some p" "marshal_time (z (ev_Timestamp e)) (ev_Timestamp e) = Some s"
    using assms(2) by (auto simp: enc_event_def enc_struct_def enc_time_def split: option.splits if_splits)
  have "dec_any p = Some (generic z (ev_Payload e))"
    using reads_payload [of "ev_Payload e" z] assms(1) p(1) by (simp add: reads_def event_ok_def)
  moreover have "dec_time (JStr s) = Some (Some (ev_Timestamp e))"
    using marshal_time_round_trip [OF p(2)] by (simp add: dec_time_def)
  moreover have "j = JObj ([(''type'', JStr (ev_Type e))]
      @ (if ev_DeviceID e = '''' then [] else [(''device_id'', JStr (ev_DeviceID e))])
      @ [(''payload'', p), (''timestamp'', JStr s)])"
    using assms p by (auto simp: enc_event_def enc_struct_def enc_time_def enc_string_def event_ok_def
        valid_utf8_def split: if_splits)
  ultimately show ?thesis
    by (auto simp: dec_event_def dec_struct_def dec_string_def fold_char_def)
qed

end
