(* ===== verification/Alerts.thy ===== *)
theory Alerts
  imports Models Go_Format
begin

text \<open>
  The alert engine, \<open>internal/alerts/alerts.go\<close>. \<open>Evaluate\<close> draws a fresh identifier and a
  clock reading for each alert it raises; \<open>ids i\<close> and \<open>clock i\<close> are those of the \<open>i\<close>-th.
\<close>

record Engine =
  eng_rules :: "AlertRule list"

definition NewEngine :: "AlertRule list \<Rightarrow> Engine" where
  "NewEngine rules = \<lparr>eng_rules = rules\<rparr>"

definition AddRule :: "Engine \<Rightarrow> AlertRule \<Rightarrow> Engine" where
  "AddRule e r = e\<lparr>eng_rules := eng_rules e @ [r]\<rparr>"

definition Rules :: "Engine \<Rightarrow> AlertRule list" where
  "Rules e = eng_rules e"

definition breached :: "float64 \<Rightarrow> string \<Rightarrow> float64 \<Rightarrow> bool" where
  "breached value operator threshold =
     (if operator = ''>'' then fgt value threshold
      else if operator = ''>='' then fge value threshold
      else if operator = ''<'' then flt value threshold
      else if operator = ''<='' then fle value threshold
      else if operator = ''=='' then feq value threshold
      else False)"

definition alert_message :: "(nat \<Rightarrow> bool) \<Rightarrow> AlertRule \<Rightarrow> float64 \<Rightarrow> string" where
  "alert_message isPrint rule value =
     ''metric '' @ fmt_q isPrint (rule_Metric rule) @ '' value '' @ fmt_2f value @ '' ''
     @ rule_Operator rule @ '' threshold '' @ fmt_2f (rule_Threshold rule)"

fun evaluate_loop :: "(nat \<Rightarrow> bool) \<Rightarrow> (nat \<Rightarrow> string) \<Rightarrow> (nat \<Rightarrow> time) \<Rightarrow> Telemetry
    \<Rightarrow> AlertRule list \<Rightarrow> Alert list \<Rightarrow> Alert list" where
  "evaluate_loop isPrint ids clock t [] triggered = triggered"
| "evaluate_loop isPrint ids clock t (rule # rules) triggered =
     (case fmlookup (tel_Metrics t) (rule_Metric rule) of
        None \<Rightarrow> evaluate_loop isPrint ids clock t rules triggered
      | Some value \<Rightarrow>
          if breached value (rule_Operator rule) (rule_Threshold rule)
          then evaluate_loop isPrint ids clock t rules (triggered @
            [\<lparr>al_ID = ids (length triggered), al_DeviceID = tel_DeviceID t,
              al_Metric = rule_Metric rule, al_Value = value,
              al_Threshold = rule_Threshold rule, al_Severity = rule_Severity rule,
              al_Message = alert_message isPrint rule value,
              al_CreatedAt = clock (length triggered)\<rparr>])
          else evaluate_loop isPrint ids clock t rules triggered)"

definition Evaluate :: "(nat \<Rightarrow> bool) \<Rightarrow> (nat \<Rightarrow> string) \<Rightarrow> (nat \<Rightarrow> time) \<Rightarrow> Engine \<Rightarrow> Telemetry
    \<Rightarrow> Alert list" where
  "Evaluate isPrint ids clock e t = evaluate_loop isPrint ids clock t (eng_rules e) []"

text \<open>The rules the server starts with (\<open>cmd/server/main.go\<close>).\<close>

definition default_engine :: Engine where
  "default_engine = NewEngine
     [\<lparr>rule_Metric = ''temperature'', rule_Operator = ''>'', rule_Threshold = Fin 80,
       rule_Severity = SeverityCritical\<rparr>,
      \<lparr>rule_Metric = ''battery'', rule_Operator = ''<'', rule_Threshold = Fin 15,
       rule_Severity = SeverityWarning\<rparr>,
      \<lparr>rule_Metric = ''humidity'', rule_Operator = ''>'', rule_Threshold = Fin 95,
       rule_Severity = SeverityWarning\<rparr>]"

section \<open>What is raised\<close>

definition triggers :: "Telemetry \<Rightarrow> AlertRule \<Rightarrow> bool" where
  "triggers t rule \<longleftrightarrow> (case fmlookup (tel_Metrics t) (rule_Metric rule) of
     None \<Rightarrow> False | Some v \<Rightarrow> breached v (rule_Operator rule) (rule_Threshold rule))"

definition alert_of :: "(nat \<Rightarrow> bool) \<Rightarrow> (nat \<Rightarrow> string) \<Rightarrow> (nat \<Rightarrow> time) \<Rightarrow> Telemetry
    \<Rightarrow> nat \<Rightarrow> AlertRule \<Rightarrow> Alert" where
  "alert_of isPrint ids clock t i rule =
     (let v = the (fmlookup (tel_Metrics t) (rule_Metric rule)) in
      \<lparr>al_ID = ids i, al_DeviceID = tel_DeviceID t, al_Metric = rule_Metric rule, al_Value = v,
       al_Threshold = rule_Threshold rule, al_Severity = rule_Severity rule,
       al_Message = alert_message isPrint rule v, al_CreatedAt = clock i\<rparr>)"

lemma evaluate_loop_eq:
  "evaluate_loop isPrint ids clock t rules acc =
     acc @ map (\<lambda>(i, rule). alert_of isPrint ids clock t i rule)
       (enumerate (length acc) (filter (triggers t) rules))"
  by (induction rules arbitrary: acc)
    (auto simp: triggers_def alert_of_def Let_def split: option.splits)

lemma Evaluate_eq:
  "Evaluate isPrint ids clock e t = map (\<lambda>(i, rule). alert_of isPrint ids clock t i rule)
     (enumerate 0 (filter (triggers t) (eng_rules e)))"
  by (simp add: Evaluate_def evaluate_loop_eq)

lemma map_enumerate_ignore:
  "(\<And>i x. f (h i x) = g x) \<Longrightarrow> map f (map (\<lambda>(i, x). h i x) (enumerate n xs)) = map g xs"
  by (induction xs arbitrary: n) auto

lemma map_Evaluate:
  "(\<And>i r. f (alert_of isPrint ids clock t i r) = g r) \<Longrightarrow>
   map f (Evaluate isPrint ids clock e t) = map g (filter (triggers t) (eng_rules e))"
  unfolding Evaluate_eq by (rule map_enumerate_ignore)

lemma Evaluate_device: "a \<in> set (Evaluate isPrint ids clock e t) \<Longrightarrow> al_DeviceID a = tel_DeviceID t"
  by (auto simp: Evaluate_eq alert_of_def Let_def)

lemma length_Evaluate:
  "length (Evaluate isPrint ids clock e t) = length (filter (triggers t) (eng_rules e))"
  by (simp add: Evaluate_eq)

text \<open>
  C22: \<open>Evaluate\<close> raises exactly one alert for each configured rule whose metric the sample
  carries and whose condition holds, in the order of the rules; the \<open>i\<close>-th alert carries the
  sample's device and value and the rule's metric, threshold and severity.
\<close>

theorem evaluate_exact:
  "map (\<lambda>a. (al_DeviceID a, al_Metric a, al_Value a, al_Threshold a, al_Severity a))
     (Evaluate isPrint ids clock e t) =
   map (\<lambda>r. (tel_DeviceID t, rule_Metric r, the (fmlookup (tel_Metrics t) (rule_Metric r)),
             rule_Threshold r, rule_Severity r))
     (filter (\<lambda>r. \<exists>v. fmlookup (tel_Metrics t) (rule_Metric r) = Some v
                   \<and> breached v (rule_Operator r) (rule_Threshold r)) (eng_rules e))"
proof -
  have trig: "(\<lambda>r. \<exists>v. fmlookup (tel_Metrics t) (rule_Metric r) = Some v
      \<and> breached v (rule_Operator r) (rule_Threshold r)) = triggers t"
    by (auto simp: triggers_def fun_eq_iff split: option.splits)
  show ?thesis unfolding trig by (rule map_Evaluate) (simp add: alert_of_def Let_def)
qed

text \<open>
  The five operators are the IEEE comparisons: on ordinary numbers they agree with the
  order of the rationals, a NaN on either side breaches nothing, and an operator other than
  the five never fires.
\<close>

theorem breached_operators:
  "breached (Fin x) ''>'' (Fin y) = (y < x)
   \<and> breached (Fin x) ''>='' (Fin y) = (y \<le> x)
   \<and> breached (Fin x) ''<'' (Fin y) = (x < y)
   \<and> breached (Fin x) ''<='' (Fin y) = (x \<le> y)
   \<and> breached (Fin x) ''=='' (Fin y) = (x = y)
   \<and> \<not> breached NaN op w \<and> \<not> breached v op NaN
   \<and> {op. breached v op w} \<subseteq> {''>'', ''>='', ''<'', ''<='', ''==''}"
  by (auto simp: breached_def fgt_def fge_def fle_def feq_def split: if_splits)

definition reading :: "string \<Rightarrow> rat \<Rightarrow> Telemetry" where
  "reading m q = \<lparr>tel_DeviceID = ''d1'', tel_Timestamp = 1,
     tel_Metrics = fmupd m (Fin q) fmempty\<rparr>"

text \<open>
  The rules the server ships with are the documented ones: a reading raises an alert
  exactly when it is a temperature above 80 (critical), a battery level below 15 (warning)
  or a humidity above 95 (warning).
\<close>

theorem default_rules:
  "map (\<lambda>a. (al_Metric a, al_Severity a)) (Evaluate isPrint ids clock default_engine (reading m q)) =
    (if m = ''temperature'' \<and> 80 < q then [(m, ''critical'')]
     else if m = ''battery'' \<and> q < 15 then [(m, ''warning'')]
     else if m = ''humidity'' \<and> 95 < q then [(m, ''warning'')] else [])"
  by (auto simp: Evaluate_def default_engine_def NewEngine_def reading_def breached_def fgt_def
      SeverityCritical_def SeverityWarning_def)

end
