(* ===== verification/Go_Channels.thy ===== *)
theory Go_Channels
  imports Go_Base
begin

text \<open>
  Buffered Go channels. A send to a closed channel and a second close panic; both are the
  value \<open>None\<close> here, so that the absence of a panic is something to prove. A receive from an
  empty open channel and a send to a full one block; the callers of this development reach
  them only inside a \<open>select\<close>, which the models of those callers write out.
\<close>

record 'a chan =
  ch_buf :: "'a list"
  ch_cap :: nat
  ch_closed :: bool

definition make_chan :: "nat \<Rightarrow> 'a chan" where
  "make_chan n = \<lparr>ch_buf = [], ch_cap = n, ch_closed = False\<rparr>"

definition can_send :: "'a chan \<Rightarrow> bool" where
  "can_send c \<longleftrightarrow> length (ch_buf c) < ch_cap c"

definition enq :: "'a \<Rightarrow> 'a chan \<Rightarrow> 'a chan" where
  "enq x c = c\<lparr>ch_buf := ch_buf c @ [x]\<rparr>"

text \<open>\<open>select { case c <- x: default: }\<close>: deliver if there is room, drop otherwise.\<close>

definition send_or_drop :: "'a chan \<Rightarrow> 'a \<Rightarrow> 'a chan option" where
  "send_or_drop c x = (if ch_closed c then None else Some (if can_send c then enq x c else c))"

definition close_chan :: "'a chan \<Rightarrow> 'a chan option" where
  "close_chan c = (if ch_closed c then None else Some (c\<lparr>ch_closed := True\<rparr>))"

text \<open>
  \<open>x, ok := <-c\<close>: \<open>Some (Some x, c')\<close> for a value, \<open>Some (None, c)\<close> for a closed and drained
  channel (\<open>ok\<close> is false), \<open>None\<close> if the receiver has to wait.
\<close>

definition recv :: "'a chan \<Rightarrow> ('a option \<times> 'a chan) option" where
  "recv c = (case ch_buf c of
     x # xs \<Rightarrow> Some (Some x, c\<lparr>ch_buf := xs\<rparr>)
   | [] \<Rightarrow> if ch_closed c then Some (None, c) else None)"

definition chan_ok :: "'a chan \<Rightarrow> bool" where
  "chan_ok c \<longleftrightarrow> length (ch_buf c) \<le> ch_cap c"

lemma chan_ok_make [simp]: "chan_ok (make_chan n)"
  by (simp add: chan_ok_def make_chan_def)

lemma chan_ok_send: "\<lbrakk>chan_ok c; send_or_drop c x = Some c'\<rbrakk> \<Longrightarrow> chan_ok c'"
  by (auto simp: chan_ok_def send_or_drop_def can_send_def enq_def split: if_splits)

lemma chan_ok_recv: "\<lbrakk>chan_ok c; recv c = Some (r, c')\<rbrakk> \<Longrightarrow> chan_ok c'"
  by (auto simp: chan_ok_def recv_def split: list.splits if_splits)

lemma chan_ok_close: "\<lbrakk>chan_ok c; close_chan c = Some c'\<rbrakk> \<Longrightarrow> chan_ok c'"
  by (auto simp: chan_ok_def close_chan_def split: if_splits)

lemma closed_send: "send_or_drop c x = Some c' \<Longrightarrow> ch_closed c' = ch_closed c"
  by (auto simp: send_or_drop_def enq_def split: if_splits)

lemma closed_recv: "recv c = Some (r, c') \<Longrightarrow> ch_closed c' = ch_closed c"
  by (auto simp: recv_def split: list.splits if_splits)

end
