(* ===== verification/Hub.thy ===== *)
theory Hub
  imports Models Go_Channels
begin

text \<open>
  The event hub, \<open>internal/realtime/hub.go\<close>. A channel is an identity into the heap of
  channels; the hub holds the set of subscribed identities. \<open>Subscribe\<close> and \<open>Unsubscribe\<close>
  take the write lock and are atomic. \<open>Broadcast\<close> takes the read lock, so several broadcasts
  may run at once, sending to their subscribers one channel at a time: the function
  \<open>Broadcast\<close> is one broadcast running alone, and \<open>hub_step\<close> is the interleaving of any
  number of them with each other and with the clients that receive.
\<close>

section \<open>The code\<close>

record Hub =
  hub_subscribers :: "(nat, unit) gomap"
  hub_bufferSize :: int
  hub_chans :: "(nat, Event chan) gomap"
  hub_next :: nat

definition NewHub :: "int \<Rightarrow> Hub" where
  "NewHub bufferSize =
     \<lparr>hub_subscribers = fmempty, hub_bufferSize = (if bufferSize \<le> 0 then 16 else bufferSize),
      hub_chans = fmempty, hub_next = 0\<rparr>"

definition Subscribe :: "Hub \<Rightarrow> nat \<times> Hub" where
  "Subscribe h = (hub_next h,
     h\<lparr>hub_chans := fmupd (hub_next h) (make_chan (nat (hub_bufferSize h))) (hub_chans h),
       hub_subscribers := fmupd (hub_next h) () (hub_subscribers h),
       hub_next := Suc (hub_next h)\<rparr>)"

definition update_chan :: "(Event chan \<Rightarrow> Event chan option) \<Rightarrow> nat \<Rightarrow> Hub \<Rightarrow> Hub option" where
  "update_chan f ch h = (case fmlookup (hub_chans h) ch of
     None \<Rightarrow> None
   | Some c \<Rightarrow> map_option (\<lambda>c'. h\<lparr>hub_chans := fmupd ch c' (hub_chans h)\<rparr>) (f c))"

definition Unsubscribe :: "Hub \<Rightarrow> nat \<Rightarrow> Hub option" where
  "Unsubscribe h ch =
     (case fmlookup (hub_subscribers h) ch of
        Some _ \<Rightarrow> update_chan close_chan ch (h\<lparr>hub_subscribers := fmdrop ch (hub_subscribers h)\<rparr>)
      | None \<Rightarrow> Some h)"

definition send_to :: "Event \<Rightarrow> nat \<Rightarrow> Hub \<Rightarrow> Hub option" where
  "send_to event ch h = update_chan (\<lambda>c. send_or_drop c event) ch h"

fun broadcast_loop :: "Event \<Rightarrow> nat list \<Rightarrow> Hub \<Rightarrow> Hub option" where
  "broadcast_loop event [] h = Some h"
| "broadcast_loop event (ch # chs) h =
     (case send_to event ch h of None \<Rightarrow> None | Some h' \<Rightarrow> broadcast_loop event chs h')"

definition Broadcast :: "sched \<Rightarrow> Hub \<Rightarrow> Event \<Rightarrow> Hub option" where
  "Broadcast p h event = broadcast_loop event (map fst (range_map p (hub_subscribers h))) h"

definition SubscriberCount :: "Hub \<Rightarrow> nat" where
  "SubscriberCount h = len_map (hub_subscribers h)"

text \<open>A client's receive on its channel.\<close>

definition receive :: "nat \<Rightarrow> Hub \<Rightarrow> (Event option \<times> Hub) option" where
  "receive ch h = (case fmlookup (hub_chans h) ch of
     None \<Rightarrow> None
   | Some c \<Rightarrow> map_option (\<lambda>(r, c'). (r, h\<lparr>hub_chans := fmupd ch c' (hub_chans h)\<rparr>)) (recv c))"

section \<open>Well-formedness\<close>

definition subscribed :: "Hub \<Rightarrow> nat \<Rightarrow> bool" where
  "subscribed h ch \<longleftrightarrow> fmlookup (hub_subscribers h) ch \<noteq> None"

definition chan_good :: "Hub \<Rightarrow> nat \<Rightarrow> Event chan \<Rightarrow> bool" where
  "chan_good h ch c \<longleftrightarrow> chan_ok c \<and> ch < hub_next h
     \<and> ch_cap c = nat (hub_bufferSize h) \<and> (ch_closed c \<longleftrightarrow> \<not> subscribed h ch)"

text \<open>
  Every channel the hub ever made is within its capacity, and it is open exactly while it
  is subscribed.
\<close>

definition hub_wf :: "Hub \<Rightarrow> bool" where
  "hub_wf h \<longleftrightarrow> 0 < hub_bufferSize h
     \<and> (\<forall>ch. subscribed h ch \<longrightarrow> fmlookup (hub_chans h) ch \<noteq> None)
     \<and> (\<forall>ch c. fmlookup (hub_chans h) ch = Some c \<longrightarrow> chan_good h ch c)"

lemma hub_wfD:
  assumes "hub_wf h"
  shows "subscribed h ch \<Longrightarrow> \<exists>c. fmlookup (hub_chans h) ch = Some c \<and> \<not> ch_closed c"
    and "fmlookup (hub_chans h) ch = Some c \<Longrightarrow> chan_good h ch c"
  using assms by (fastforce simp: hub_wf_def chan_good_def)+

lemma NewHub_wf: "hub_wf (NewHub n)"
  by (simp add: hub_wf_def NewHub_def subscribed_def)

lemma Subscribe_wf:
  assumes "hub_wf h"
  shows "hub_wf (snd (Subscribe h))"
proof -
  have fresh: "fmlookup (hub_chans h) (hub_next h) = None" "\<not> subscribed h (hub_next h)"
    using hub_wfD [OF assms, of "hub_next h"] by (fastforce simp: chan_good_def)+
  show ?thesis
    using assms fresh
    by (fastforce simp: hub_wf_def Subscribe_def subscribed_def chan_good_def chan_ok_def
        make_chan_def less_Suc_eq)
qed

lemma update_chan_Some:
  "update_chan f ch h = Some h' \<longleftrightarrow>
     (\<exists>c c'. fmlookup (hub_chans h) ch = Some c \<and> f c = Some c'
        \<and> h' = h\<lparr>hub_chans := fmupd ch c' (hub_chans h)\<rparr>)"
  by (auto simp: update_chan_def split: option.splits)

lemma replace_chan_wf:
  assumes "hub_wf h" "fmlookup (hub_chans h) ch = Some c" "chan_ok c'"
    "ch_cap c' = ch_cap c" "ch_closed c' = ch_closed c"
  shows "hub_wf (h\<lparr>hub_chans := fmupd ch c' (hub_chans h)\<rparr>)"
  using assms hub_wfD(2) [OF assms(1,2)]
  by (auto simp: hub_wf_def subscribed_def chan_good_def)

lemma send_to_wf:
  assumes "hub_wf h" "send_to e ch h = Some h'"
  shows "hub_wf h'"
proof -
  from assms(2) obtain c c' where c: "fmlookup (hub_chans h) ch = Some c"
    "send_or_drop c e = Some c'" "h' = h\<lparr>hub_chans := fmupd ch c' (hub_chans h)\<rparr>"
    by (auto simp: send_to_def update_chan_Some)
  moreover have "chan_ok c" using hub_wfD(2) [OF assms(1) c(1)] by (simp add: chan_good_def)
  moreover have "ch_cap c' = ch_cap c"
    using c(2) by (auto simp: send_or_drop_def enq_def split: if_splits)
  ultimately show ?thesis
    using replace_chan_wf [OF assms(1)] chan_ok_send closed_send by metis
qed

lemma send_to_frame [simp]:
  assumes "send_to e ch h = Some h'"
  shows "hub_subscribers h' = hub_subscribers h" "hub_bufferSize h' = hub_bufferSize h"
    "hub_next h' = hub_next h"
  using assms by (auto simp: send_to_def update_chan_Some)

lemma send_to_ok:
  assumes "hub_wf h" "subscribed h ch"
  shows "\<exists>h'. send_to e ch h = Some h'"
proof -
  from hub_wfD(1) [OF assms] obtain c where "fmlookup (hub_chans h) ch = Some c" "\<not> ch_closed c"
    by blast
  then show ?thesis by (simp add: send_to_def update_chan_def send_or_drop_def)
qed

lemma receive_wf:
  assumes "hub_wf h" "receive ch h = Some (r, h')"
  shows "hub_wf h'"
proof -
  from assms(2) obtain c c' where c: "fmlookup (hub_chans h) ch = Some c"
    "recv c = Some (r, c')" "h' = h\<lparr>hub_chans := fmupd ch c' (hub_chans h)\<rparr>"
    by (auto simp: receive_def split: option.splits)
  moreover have "chan_ok c" using hub_wfD(2) [OF assms(1) c(1)] by (simp add: chan_good_def)
  moreover have "ch_cap c' = ch_cap c"
    using c(2) by (auto simp: recv_def split: list.splits if_splits)
  ultimately show ?thesis
    using replace_chan_wf [OF assms(1)] chan_ok_recv closed_recv by metis
qed

lemma Unsubscribe_wf:
  assumes "hub_wf h"
  shows "\<exists>h'. Unsubscribe h ch = Some h' \<and> hub_wf h' \<and> \<not> subscribed h' ch"
proof (cases "subscribed h ch")
  case False
  then have "fmlookup (hub_subscribers h) ch = None" by (simp add: subscribed_def del: not_None_eq)
  with assms False show ?thesis by (simp add: Unsubscribe_def)
next
  case True
  from hub_wfD(1) [OF assms True] obtain c where c: "fmlookup (hub_chans h) ch = Some c"
    "\<not> ch_closed c" by blast
  let ?h = "h\<lparr>hub_subscribers := fmdrop ch (hub_subscribers h),
      hub_chans := fmupd ch (c\<lparr>ch_closed := True\<rparr>) (hub_chans h)\<rparr>"
  from True c have un: "Unsubscribe h ch = Some ?h"
    by (auto simp: Unsubscribe_def subscribed_def update_chan_def close_chan_def)
  have sub: "subscribed ?h k \<longleftrightarrow> k \<noteq> ch \<and> subscribed h k" for k
    by (simp add: subscribed_def)
  have "chan_good ?h k d" if "fmlookup (hub_chans ?h) k = Some d" for k d
  proof (cases "k = ch")
    case True
    with that hub_wfD(2) [OF assms c(1)] show ?thesis
      unfolding chan_good_def sub by (auto simp: chan_ok_def)
  next
    case False
    with that have "chan_good h k d" by (intro hub_wfD(2) [OF assms]) simp
    with False show ?thesis unfolding chan_good_def sub by simp
  qed
  moreover have "fmlookup (hub_chans ?h) k \<noteq> None" if "subscribed ?h k" for k
    using that assms unfolding sub by (simp add: hub_wf_def)
  ultimately have "hub_wf ?h" using assms by (simp add: hub_wf_def)
  with un sub show ?thesis by blast
qed

section \<open>One broadcast\<close>

definition deliver :: "Event \<Rightarrow> Event chan \<Rightarrow> Event chan" where
  "deliver e c = (if can_send c then enq e c else c)"

lemma send_to_lookup:
  assumes "send_to e ch h = Some h'"
  shows "fmlookup (hub_chans h') k =
    (if k = ch then map_option (deliver e) (fmlookup (hub_chans h) k) else fmlookup (hub_chans h) k)"
proof -
  from assms obtain c c' where "fmlookup (hub_chans h) ch = Some c" "send_or_drop c e = Some c'"
    "h' = h\<lparr>hub_chans := fmupd ch c' (hub_chans h)\<rparr>"
    unfolding send_to_def update_chan_Some by blast
  then show ?thesis by (auto simp: send_or_drop_def deliver_def split: if_splits)
qed

lemma broadcast_loop_ok:
  assumes "hub_wf h" "\<forall>ch \<in> set chs. subscribed h ch" "distinct chs"
  shows "\<exists>h'. broadcast_loop e chs h = Some h' \<and> hub_wf h'
    \<and> hub_subscribers h' = hub_subscribers h
    \<and> (\<forall>k. fmlookup (hub_chans h') k =
        (if k \<in> set chs then map_option (deliver e) (fmlookup (hub_chans h) k)
         else fmlookup (hub_chans h) k))"
  using assms
proof (induction chs arbitrary: h)
  case Nil
  then show ?case by simp
next
  case (Cons ch chs)
  then have sub: "subscribed h ch" by simp
  from send_to_ok [OF Cons.prems(1) sub] obtain h1 where h1: "send_to e ch h = Some h1" by blast
  have wf1: "hub_wf h1" by (rule send_to_wf [OF Cons.prems(1) h1])
  have "\<forall>c \<in> set chs. subscribed h1 c" using Cons.prems(2) h1 by (simp add: subscribed_def)
  with Cons.IH [OF wf1] Cons.prems(3) obtain h' where h': "broadcast_loop e chs h1 = Some h'"
    "hub_wf h'" "hub_subscribers h' = hub_subscribers h1"
    "\<forall>k. fmlookup (hub_chans h') k =
        (if k \<in> set chs then map_option (deliver e) (fmlookup (hub_chans h1) k)
         else fmlookup (hub_chans h1) k)"
    by auto
  with h1 Cons.prems(3) show ?case
    by (auto simp: send_to_lookup [OF h1])
qed

lemma subscribed_iff: "subscribed h ch \<longleftrightarrow> (\<exists>u. fmlookup (hub_subscribers h) ch = Some u)"
  by (simp add: subscribed_def)

lemma keys_range_subscribers:
  "set (map fst (range_map p (hub_subscribers h))) = {ch. subscribed h ch}"
  by (auto simp: subscribed_iff image_iff Bex_def)

lemma Broadcast_ok:
  assumes "hub_wf h"
  shows "\<exists>h'. Broadcast p h e = Some h' \<and> hub_wf h' \<and> hub_subscribers h' = hub_subscribers h
    \<and> (\<forall>k. fmlookup (hub_chans h') k =
        (if subscribed h k then map_option (deliver e) (fmlookup (hub_chans h) k)
         else fmlookup (hub_chans h) k))"
proof -
  have "\<forall>ch \<in> set (map fst (range_map p (hub_subscribers h))). subscribed h ch"
    using keys_range_subscribers [of p h] by blast
  from broadcast_loop_ok [OF assms this distinct_range_map, of e] show ?thesis
    unfolding Broadcast_def [symmetric] keys_range_subscribers by auto
qed

text \<open>
  A broadcast never blocks and never panics; it appends the event to the buffer of every
  subscriber that has room and to no other channel, leaves full subscribers as they are, and
  gives the same result for every iteration order over the subscribers.
\<close>

theorem broadcast_delivers:
  assumes "hub_wf h"
  shows "\<exists>h'. Broadcast p h e = Some h' \<and> hub_wf h' \<and> hub_subscribers h' = hub_subscribers h
    \<and> (\<forall>ch c. fmlookup (hub_chans h) ch = Some c \<longrightarrow>
        fmlookup (hub_chans h') ch = Some
          (if subscribed h ch \<and> length (ch_buf c) < ch_cap c
           then c\<lparr>ch_buf := ch_buf c @ [e]\<rparr> else c))"
  using Broadcast_ok [OF assms, of p e] by (auto simp: deliver_def enq_def can_send_def)

definition sample_event :: Event where
  "sample_event = \<lparr>ev_Type = ''status'', ev_DeviceID = ''d1'', ev_Payload = PFields fmempty,
     ev_Timestamp = 9\<rparr>"

definition sample_hub :: Hub where
  "sample_hub = snd (Subscribe (NewHub 1))"

lemma sample_hub_wf: "hub_wf sample_hub"
  unfolding sample_hub_def by (rule Subscribe_wf [OF NewHub_wf])

theorem broadcast_delivers_witness:
  "\<exists>h'. Broadcast [] sample_hub sample_event = Some h'
     \<and> map_option ch_buf (fmlookup (hub_chans h') 0) = Some [sample_event]"
  using broadcast_delivers [OF sample_hub_wf, of "[]" sample_event]
  by (fastforce simp: sample_hub_def Subscribe_def NewHub_def make_chan_def subscribed_def)

section \<open>Concurrent broadcasts\<close>

text \<open>
  The hub and the broadcasts in flight, each with the event and the subscribers it has still
  to visit. The write lock keeps \<open>Subscribe\<close> and \<open>Unsubscribe\<close> out while any broadcast holds
  the read lock; receives need no lock.
\<close>

inductive hub_step :: "Hub \<times> (Event \<times> nat list) list \<Rightarrow> Hub \<times> (Event \<times> nat list) list \<Rightarrow> bool" where
  subscribe: "hub_step (h, []) (snd (Subscribe h), [])"
| unsubscribe: "Unsubscribe h ch = Some h' \<Longrightarrow> hub_step (h, []) (h', [])"
| begin_broadcast:
    "hub_step (h, bs) (h, (e, map fst (range_map p (hub_subscribers h))) # bs)"
| send: "\<lbrakk>i < length bs; bs ! i = (e, ch # chs); send_to e ch h = Some h'\<rbrakk>
    \<Longrightarrow> hub_step (h, bs) (h', bs[i := (e, chs)])"
| end_broadcast: "hub_step (h, bs1 @ (e, []) # bs2) (h, bs1 @ bs2)"
| client_receive: "receive ch h = Some (r, h') \<Longrightarrow> hub_step (h, bs) (h', bs)"

inductive hub_reachable :: "int \<Rightarrow> Hub \<times> (Event \<times> nat list) list \<Rightarrow> bool" for n where
  start: "hub_reachable n (NewHub n, [])"
| step: "\<lbrakk>hub_reachable n s; hub_step s s'\<rbrakk> \<Longrightarrow> hub_reachable n s'"

definition flight_ok :: "Hub \<times> (Event \<times> nat list) list \<Rightarrow> bool" where
  "flight_ok s \<longleftrightarrow> hub_wf (fst s)
     \<and> (\<forall>(e, chs) \<in> set (snd s). \<forall>ch \<in> set chs. subscribed (fst s) ch)"

lemma receive_frame: "receive ch h = Some (r, h') \<Longrightarrow> hub_subscribers h' = hub_subscribers h"
  by (auto simp: receive_def split: option.splits)

lemma hub_step_ok: "hub_step s s' \<Longrightarrow> flight_ok s \<Longrightarrow> flight_ok s'"
proof (induction rule: hub_step.induct)
  case (unsubscribe h ch h')
  with Unsubscribe_wf [of h ch] show ?case by (auto simp: flight_ok_def)
next
  case (begin_broadcast h bs e p)
  then show ?case using keys_range_subscribers [of p h] by (auto simp: flight_ok_def)
next
  case (send i bs e ch chs h h')
  have "\<forall>(e', chs') \<in> set (bs[i := (e, chs)]). \<forall>c \<in> set chs'. subscribed h c"
  proof -
    have "(e, ch # chs) \<in> set bs" using send.hyps(1,2) by (metis nth_mem)
    with send.prems have "\<forall>c \<in> set chs. subscribed h c" by (auto simp: flight_ok_def)
    then show ?thesis
      using send.prems set_update_subset_insert [of bs i "(e, chs)"]
      by (fastforce simp: flight_ok_def)
  qed
  with send show ?case by (auto simp: flight_ok_def subscribed_def dest: send_to_wf)
next
  case (client_receive ch h r h' bs)
  then show ?case by (auto simp: flight_ok_def subscribed_def receive_frame dest: receive_wf)
qed (auto simp: flight_ok_def Subscribe_wf)

lemma hub_reachable_ok: "hub_reachable n s \<Longrightarrow> flight_ok s"
proof (induction rule: hub_reachable.induct)
  case start
  then show ?case by (simp add: flight_ok_def NewHub_wf)
next
  case (step s s')
  then show ?case by (blast intro: hub_step_ok)
qed

text \<open>
  C18: In every interleaving of subscriptions, unsubscriptions, concurrent broadcasts and
  receives, no step panics: the next send of any broadcast in flight finds its channel open,
  an unsubscription closes a channel at most once, and no buffer exceeds its capacity.
\<close>

theorem hub_never_panics:
  assumes "hub_reachable n (h, bs)"
  shows "(\<forall>e ch chs. (e, ch # chs) \<in> set bs \<longrightarrow> (\<exists>h'. send_to e ch h = Some h'))
    \<and> (\<forall>ch. \<exists>h'. Unsubscribe h ch = Some h')
    \<and> (\<forall>ch c. fmlookup (hub_chans h) ch = Some c \<longrightarrow> length (ch_buf c) \<le> ch_cap c)"
proof -
  have ok: "flight_ok (h, bs)" by (rule hub_reachable_ok [OF assms])
  then have wf: "hub_wf h" by (simp add: flight_ok_def)
  have "\<exists>h'. send_to e ch h = Some h'" if "(e, ch # chs) \<in> set bs" for e ch chs
    using that ok send_to_ok [OF wf, of ch e] by (auto simp: flight_ok_def)
  moreover have "\<exists>h'. Unsubscribe h ch = Some h'" for ch
    using Unsubscribe_wf [OF wf] by blast
  moreover have "length (ch_buf c) \<le> ch_cap c" if "fmlookup (hub_chans h) ch = Some c" for ch c
    using hub_wfD(2) [OF wf that] by (simp add: chan_good_def chan_ok_def)
  ultimately show ?thesis by blast
qed

theorem hub_never_panics_witness: "\<exists>h'. Unsubscribe sample_hub 0 = Some h'"
proof -
  have "hub_step (NewHub 1, []) (sample_hub, [])"
    unfolding sample_hub_def by (rule hub_step.subscribe)
  then have "hub_reachable 1 (sample_hub, [])"
    by (rule hub_reachable.step [OF hub_reachable.start])
  from hub_never_panics [OF this] show ?thesis by blast
qed

text \<open>
  \<open>Unsubscribe\<close> ends a subscription for good: the channel is closed once, it keeps the
  events already buffered, a second call changes nothing, and later broadcasts leave it alone.
\<close>

theorem unsubscribe_final:
  assumes "hub_wf h" "Unsubscribe h ch = Some h'" "subscribed h ch"
  shows "map_option ch_closed (fmlookup (hub_chans h') ch) = Some True
    \<and> map_option ch_buf (fmlookup (hub_chans h') ch) = map_option ch_buf (fmlookup (hub_chans h) ch)
    \<and> Unsubscribe h' ch = Some h'
    \<and> (\<exists>h''. Broadcast p h' e = Some h''
        \<and> fmlookup (hub_chans h'') ch = fmlookup (hub_chans h') ch)"
proof -
  from hub_wfD(1) [OF assms(1,3)] obtain c where c: "fmlookup (hub_chans h) ch = Some c"
    "\<not> ch_closed c" by blast
  from assms(3) obtain u where u: "fmlookup (hub_subscribers h) ch = Some u"
    by (auto simp: subscribed_iff)
  from c u assms(2) have h': "h' = h\<lparr>hub_subscribers := fmdrop ch (hub_subscribers h),
      hub_chans := fmupd ch (c\<lparr>ch_closed := True\<rparr>) (hub_chans h)\<rparr>"
    by (auto simp: Unsubscribe_def update_chan_def close_chan_def)
  from Unsubscribe_wf [OF assms(1), of ch] assms(2) have wf': "hub_wf h'" and off: "\<not> subscribed h' ch"
    by auto
  have "\<forall>k \<in> set (map fst (range_map p (hub_subscribers h'))). subscribed h' k"
    using keys_range_subscribers [of p h'] by blast
  from broadcast_loop_ok [OF wf' this distinct_range_map, of e] off
  have "\<exists>h''. Broadcast p h' e = Some h'' \<and> fmlookup (hub_chans h'') ch = fmlookup (hub_chans h') ch"
    unfolding Broadcast_def [symmetric] keys_range_subscribers by auto
  with h' c show ?thesis by (simp add: Unsubscribe_def)
qed

theorem unsubscribe_final_witness:
  "\<exists>h'. Unsubscribe sample_hub 0 = Some h' \<and> Unsubscribe h' 0 = Some h'"
proof -
  have sub: "subscribed sample_hub 0"
    by (simp add: sample_hub_def Subscribe_def NewHub_def subscribed_def)
  from Unsubscribe_wf [OF sample_hub_wf] obtain h' where h': "Unsubscribe sample_hub 0 = Some h'"
    by blast
  from unsubscribe_final [OF sample_hub_wf h' sub] h' show ?thesis by blast
qed

end
