(* ===== verification/Pool.thy ===== *)
theory Pool
  imports Go_Channels "HOL-Library.Word"
begin

text \<open>
  The bounded worker pool, \<open>internal/worker/pool.go\<close>. A worker goroutine is at its \<open>select\<close>
  (\<open>Idle\<close>), inside a job (\<open>Busy\<close>) or gone (\<open>Exited\<close>); the wait group is the number of
  workers that are not gone. Where two cases of a \<open>select\<close> are ready Go picks one at random:
  the argument \<open>pick\<close> is true when it picks \<open>ctx.Done()\<close>. A \<open>select\<close> with no ready case and
  no default blocks, which is \<open>None\<close>. The counters are 64-bit and wrap.
\<close>

section \<open>The code\<close>

datatype 'j worker = Idle | Busy 'j | Exited

record 'j Pool =
  pool_workers :: int
  pool_queue :: "'j chan"
  pool_cancelled :: bool
  pool_started :: bool
  pool_threads :: "'j worker list"
  pool_processed :: "64 word"
  pool_dropped :: "64 word"

definition NewPool :: "int \<Rightarrow> int \<Rightarrow> 'j Pool" where
  "NewPool workers queueSize =
     (let w = (if workers \<le> 0 then 1 else workers);
          q = (if queueSize \<le> 0 then w else queueSize)
      in \<lparr>pool_workers = w, pool_queue = make_chan (nat q), pool_cancelled = False,
          pool_started = False, pool_threads = [], pool_processed = 0, pool_dropped = 0\<rparr>)"

definition Start :: "'j Pool \<Rightarrow> 'j Pool" where
  "Start p = (if pool_started p then p
     else p\<lparr>pool_started := True, pool_threads := replicate (nat (pool_workers p)) Idle\<rparr>)"

text \<open>The \<open>select\<close> at the head of \<open>run\<close>: the job taken, or \<open>None\<close> when the worker returns.\<close>

definition worker_select :: "bool \<Rightarrow> nat \<Rightarrow> 'j Pool \<Rightarrow> ('j option \<times> 'j Pool) option" where
  "worker_select pick i p =
     (if pool_cancelled p \<and> (pick \<or> recv (pool_queue p) = None)
      then Some (None, p\<lparr>pool_threads := (pool_threads p)[i := Exited]\<rparr>)
      else case recv (pool_queue p) of
        None \<Rightarrow> None
      | Some (None, _) \<Rightarrow> Some (None, p\<lparr>pool_threads := (pool_threads p)[i := Exited]\<rparr>)
      | Some (Some job, q) \<Rightarrow>
          Some (Some job, p\<lparr>pool_queue := q, pool_threads := (pool_threads p)[i := Busy job]\<rparr>))"

text \<open>The job returns and the worker goes back to its \<open>select\<close>.\<close>

definition worker_finish :: "nat \<Rightarrow> 'j Pool \<Rightarrow> 'j Pool" where
  "worker_finish i p = p\<lparr>pool_threads := (pool_threads p)[i := Idle],
     pool_processed := pool_processed p + 1\<rparr>"

definition Submit :: "bool \<Rightarrow> 'j Pool \<Rightarrow> 'j \<Rightarrow> (bool \<times> 'j Pool) option" where
  "Submit pick p job =
     (if pool_cancelled p \<and> (pick \<or> \<not> can_send (pool_queue p)) then Some (False, p)
      else if can_send (pool_queue p)
      then Some (True, p\<lparr>pool_queue := enq job (pool_queue p)\<rparr>)
      else None)"

definition TrySubmit :: "bool \<Rightarrow> 'j Pool \<Rightarrow> 'j \<Rightarrow> bool \<times> 'j Pool" where
  "TrySubmit pick p job =
     (if pool_cancelled p \<and> (pick \<or> \<not> can_send (pool_queue p)) then (False, p)
      else if can_send (pool_queue p)
      then (True, p\<lparr>pool_queue := enq job (pool_queue p)\<rparr>)
      else (False, p\<lparr>pool_dropped := pool_dropped p + 1\<rparr>))"

text \<open>\<open>Stop\<close> cancels the context and then waits until the wait group is zero.\<close>

definition stop_cancel :: "'j Pool \<Rightarrow> 'j Pool" where
  "stop_cancel p = p\<lparr>pool_cancelled := True\<rparr>"

definition stop_returns :: "'j Pool \<Rightarrow> bool" where
  "stop_returns p \<longleftrightarrow> list_all (\<lambda>w. w = Exited) (pool_threads p)"

definition Processed :: "'j Pool \<Rightarrow> 64 word" where
  "Processed p = pool_processed p"

definition Dropped :: "'j Pool \<Rightarrow> 64 word" where
  "Dropped p = pool_dropped p"

section \<open>The pool as a state machine\<close>

datatype 'j pool_event =
    Accepted 'j
  | Refused 'j
  | Taken 'j
  | Finished 'j
  | Internal

inductive worker_step :: "'j Pool \<Rightarrow> 'j pool_event \<Rightarrow> 'j Pool \<Rightarrow> bool" where
  take_job: "\<lbrakk>i < length (pool_threads p); pool_threads p ! i = Idle;
     worker_select pick i p = Some (Some job, p')\<rbrakk> \<Longrightarrow> worker_step p (Taken job) p'"
| leave: "\<lbrakk>i < length (pool_threads p); pool_threads p ! i = Idle;
     worker_select pick i p = Some (None, p')\<rbrakk> \<Longrightarrow> worker_step p Internal p'"
| finish: "\<lbrakk>i < length (pool_threads p); pool_threads p ! i = Busy job\<rbrakk>
     \<Longrightarrow> worker_step p (Finished job) (worker_finish i p)"

inductive pool_step :: "'j Pool \<Rightarrow> 'j pool_event \<Rightarrow> 'j Pool \<Rightarrow> bool" where
  start: "pool_step p Internal (Start p)"
| submit: "Submit pick p job = Some (ok, p')
     \<Longrightarrow> pool_step p (if ok then Accepted job else Refused job) p'"
| try_submit: "TrySubmit pick p job = (ok, p')
     \<Longrightarrow> pool_step p (if ok then Accepted job else Refused job) p'"
| cancel: "pool_step p Internal (stop_cancel p)"
| work: "worker_step p ev p' \<Longrightarrow> pool_step p ev p'"

inductive pool_run :: "'j Pool \<Rightarrow> 'j pool_event list \<Rightarrow> 'j Pool \<Rightarrow> bool" for p0 where
  none: "pool_run p0 [] p0"
| snoc: "\<lbrakk>pool_run p0 tr p; pool_step p ev p'\<rbrakk> \<Longrightarrow> pool_run p0 (tr @ [ev]) p'"

inductive_cases worker_stepE: "worker_step p ev p'"

primrec accepted_of :: "'j pool_event \<Rightarrow> 'j list" where
  "accepted_of (Accepted j) = [j]" | "accepted_of (Refused j) = []" | "accepted_of (Taken j) = []"
| "accepted_of (Finished j) = []" | "accepted_of Internal = []"

primrec taken_of :: "'j pool_event \<Rightarrow> 'j list" where
  "taken_of (Accepted j) = []" | "taken_of (Refused j) = []" | "taken_of (Taken j) = [j]"
| "taken_of (Finished j) = []" | "taken_of Internal = []"

primrec finished_of :: "'j pool_event \<Rightarrow> 'j list" where
  "finished_of (Accepted j) = []" | "finished_of (Refused j) = []" | "finished_of (Taken j) = []"
| "finished_of (Finished j) = [j]" | "finished_of Internal = []"

primrec busy_of :: "'j worker \<Rightarrow> 'j multiset" where
  "busy_of Idle = {#}" | "busy_of (Busy j) = {#j#}" | "busy_of Exited = {#}"

definition busy_jobs :: "'j Pool \<Rightarrow> 'j multiset" where
  "busy_jobs p = sum_list (map busy_of (pool_threads p))"

abbreviation queued :: "'j Pool \<Rightarrow> 'j list" where
  "queued p \<equiv> ch_buf (pool_queue p)"

text \<open>
  The accepted jobs are those taken followed by those still queued, in order; a taken job is
  finished or inside a worker; the counter counts the finished ones; the queue is bounded.
\<close>

definition pool_inv :: "'j pool_event list \<Rightarrow> 'j Pool \<Rightarrow> bool" where
  "pool_inv tr p \<longleftrightarrow>
     concat (map accepted_of tr) = concat (map taken_of tr) @ queued p
   \<and> mset (concat (map taken_of tr)) = mset (concat (map finished_of tr)) + busy_jobs p
   \<and> pool_processed p = of_nat (length (concat (map finished_of tr)))
   \<and> chan_ok (pool_queue p) \<and> \<not> ch_closed (pool_queue p)
   \<and> (\<not> pool_started p \<longrightarrow> pool_threads p = [])"

lemma busy_update:
  fixes ws :: "'j worker list"
  assumes "i < length ws"
  shows "sum_list (map busy_of (ws[i := w])) + busy_of (ws ! i) = sum_list (map busy_of ws) + busy_of w"
  using assms
proof (induction ws arbitrary: i)
  case Nil
  then show ?case by simp
next
  case (Cons x ws)
  then show ?case by (cases i) (auto simp: add_ac)
qed

lemma busy_jobs_set:
  assumes "i < length (pool_threads p)" "pool_threads p' = (pool_threads p)[i := w]"
  shows "busy_jobs p' + busy_of (pool_threads p ! i) = busy_jobs p + busy_of w"
  using busy_update [OF assms(1)] assms(2) by (simp add: busy_jobs_def)

lemma worker_select_cases:
  assumes "worker_select pick i p = Some (r, p')" "\<not> ch_closed (pool_queue p)"
  shows "r = None \<and> p' = p\<lparr>pool_threads := (pool_threads p)[i := Exited]\<rparr> \<and> pool_cancelled p
    \<or> (\<exists>job js. queued p = job # js \<and> r = Some job
        \<and> p' = p\<lparr>pool_queue := (pool_queue p)\<lparr>ch_buf := js\<rparr>,
                 pool_threads := (pool_threads p)[i := Busy job]\<rparr>)"
  using assms by (auto simp: worker_select_def recv_def split: if_splits list.splits)

lemma worker_step_inv: "worker_step p ev p' \<Longrightarrow> pool_inv tr p \<Longrightarrow> pool_inv (tr @ [ev]) p'"
proof (induction rule: worker_step.induct)
  case (take_job i p pick job p')
  then obtain js where q: "queued p = job # js"
    and p': "p' = p\<lparr>pool_queue := (pool_queue p)\<lparr>ch_buf := js\<rparr>,
                   pool_threads := (pool_threads p)[i := Busy job]\<rparr>"
    using worker_select_cases [of pick i p "Some job" p'] by (auto simp: pool_inv_def)
  have "busy_jobs p' = busy_jobs p + {#job#}"
    using busy_jobs_set [OF take_job.hyps(1), of p' "Busy job"] take_job.hyps(2) p' by simp
  with take_job.prems q p' show ?case by (auto simp: pool_inv_def chan_ok_def)
next
  case (leave i p pick p')
  then have p': "p' = p\<lparr>pool_threads := (pool_threads p)[i := Exited]\<rparr>"
    using worker_select_cases [of pick i p None p'] by (auto simp: pool_inv_def)
  have "busy_jobs p' = busy_jobs p"
    using busy_jobs_set [OF leave.hyps(1), of p' Exited] leave.hyps(2) p' by simp
  with leave.prems p' show ?case by (auto simp: pool_inv_def)
next
  case (finish i p job)
  have "busy_jobs (worker_finish i p) + {#job#} = busy_jobs p"
    using busy_jobs_set [OF finish.hyps(1), of "worker_finish i p" Idle] finish.hyps(2)
    by (simp add: worker_finish_def)
  then have "busy_jobs p = add_mset job (busy_jobs (worker_finish i p))" by simp
  with finish.prems show ?case by (auto simp: pool_inv_def worker_finish_def)
qed

lemma busy_replicate [simp]: "sum_list (map busy_of (replicate n Idle)) = {#}"
  by (induction n) auto

lemma enqueue_inv:
  "\<lbrakk>pool_inv tr p; can_send (pool_queue p)\<rbrakk>
     \<Longrightarrow> pool_inv (tr @ [Accepted job]) (p\<lparr>pool_queue := enq job (pool_queue p)\<rparr>)"
  by (auto simp: pool_inv_def busy_jobs_def chan_ok_def can_send_def enq_def)

lemma pool_step_inv: "pool_step p ev p' \<Longrightarrow> pool_inv tr p \<Longrightarrow> pool_inv (tr @ [ev]) p'"
proof (induction rule: pool_step.induct)
  case (start p)
  then show ?case
    by (auto simp: pool_inv_def Start_def busy_jobs_def simp del: map_replicate)
next
  case (submit pick p job ok p')
  then show ?case using enqueue_inv [of tr p job]
    by (auto simp: Submit_def pool_inv_def split: if_splits)
next
  case (try_submit pick p job ok p')
  then show ?case using enqueue_inv [of tr p job]
    by (auto simp: TrySubmit_def pool_inv_def busy_jobs_def split: if_splits)
next
  case (cancel p)
  then show ?case by (simp add: pool_inv_def stop_cancel_def busy_jobs_def)
next
  case (work p ev p')
  then show ?case by (blast intro: worker_step_inv)
qed

lemma NewPool_inv: "pool_inv [] (NewPool w q)"
  by (simp add: pool_inv_def NewPool_def Let_def make_chan_def busy_jobs_def chan_ok_def)

lemma pool_run_inv: "pool_run (NewPool w q) tr p \<Longrightarrow> pool_inv tr p"
  by (induction rule: pool_run.induct) (auto simp: NewPool_inv intro: pool_step_inv)

section \<open>No job is lost, none runs twice\<close>

text \<open>
  C19: In every run of the pool, whatever the interleaving of submitters, workers and
  \<open>Stop\<close>: workers take the accepted jobs in the order of acceptance; each accepted job is at
  any time exactly one of queued, running or finished; \<open>Processed\<close> counts the finished ones
  modulo \<open>2^64\<close>; and the queue never exceeds its capacity.
\<close>

theorem pool_conserves_jobs:
  assumes "pool_run (NewPool w q) tr p"
  shows "concat (map accepted_of tr) = concat (map taken_of tr) @ queued p
    \<and> mset (concat (map accepted_of tr)) =
        mset (queued p) + busy_jobs p + mset (concat (map finished_of tr))
    \<and> Processed p = of_nat (length (concat (map finished_of tr)))
    \<and> length (queued p) \<le> ch_cap (pool_queue p)"
proof -
  have inv: "pool_inv tr p" by (rule pool_run_inv [OF assms])
  then have "mset (concat (map accepted_of tr)) = mset (concat (map taken_of tr)) + mset (queued p)"
    by (simp add: pool_inv_def)
  with inv show ?thesis
    by (simp add: pool_inv_def Processed_def chan_ok_def add_ac)
qed

theorem pool_conserves_jobs_witness:
  "\<exists>p. pool_run (NewPool 1 1) [Internal, Accepted (7::nat)] p \<and> queued p = [7]"
proof -
  let ?p = "NewPool 1 1 :: nat Pool"
  obtain p2 where sub: "Submit False (Start ?p) 7 = Some (True, p2)"
    by (simp add: Submit_def Start_def NewPool_def make_chan_def can_send_def)
  have "pool_run ?p ([] @ [Internal]) (Start ?p)"
    by (rule pool_run.snoc [OF pool_run.none pool_step.start])
  moreover have "pool_step (Start ?p) (Accepted 7) p2"
    using pool_step.submit [OF sub] by simp
  ultimately have run: "pool_run ?p [Internal, Accepted 7] p2"
    using pool_run.snoc by fastforce
  from pool_conserves_jobs [OF run] show ?thesis using run by auto
qed

section \<open>Stop returns\<close>

primrec worker_weight :: "'j worker \<Rightarrow> nat" where
  "worker_weight Idle = 1" | "worker_weight (Busy j) = 2" | "worker_weight Exited = 0"

definition drain_measure :: "'j Pool \<Rightarrow> nat" where
  "drain_measure p = 2 * length (queued p) + sum_list (map worker_weight (pool_threads p))"

lemma weight_update:
  "i < length ws \<Longrightarrow> sum_list (map worker_weight (ws[i := w])) + worker_weight (ws ! i)
     = sum_list (map worker_weight ws) + worker_weight w"
proof (induction ws arbitrary: i)
  case Nil
  then show ?case by simp
next
  case (Cons x ws)
  then show ?case by (cases i) (auto simp: add_ac)
qed

lemma worker_weights: "sum_list (map worker_weight ws) \<le> 2 * length ws"
proof (induction ws)
  case (Cons x ws)
  then show ?case by (cases x) auto
qed simp

lemma worker_step_decreases:
  assumes "worker_step p ev p'" "\<not> ch_closed (pool_queue p)"
  shows "drain_measure p' < drain_measure p \<and> \<not> ch_closed (pool_queue p')
    \<and> pool_cancelled p' = pool_cancelled p"
  using assms
proof (induction rule: worker_step.induct)
  case (take_job i p pick job p')
  then show ?case
    using worker_select_cases [OF take_job.hyps(3) take_job.prems]
      weight_update [OF take_job.hyps(1), of "Busy job"]
    by (auto simp: drain_measure_def)
next
  case (leave i p pick p')
  then show ?case
    using worker_select_cases [OF leave.hyps(3) leave.prems]
      weight_update [OF leave.hyps(1), of Exited]
    by (auto simp: drain_measure_def)
next
  case (finish i p job)
  then show ?case
    using weight_update [OF finish.hyps(1), of Idle]
    by (auto simp: drain_measure_def worker_finish_def)
qed

lemma worker_progress:
  assumes "pool_cancelled p" "\<not> stop_returns p"
  shows "\<exists>ev p'. worker_step p ev p'"
proof -
  from assms(2) obtain i where i: "i < length (pool_threads p)" "pool_threads p ! i \<noteq> Exited"
    by (auto simp: stop_returns_def list_all_length)
  show ?thesis
  proof (cases "pool_threads p ! i")
    case Idle
    have "worker_select True i p = Some (None, p\<lparr>pool_threads := (pool_threads p)[i := Exited]\<rparr>)"
      using assms(1) by (simp add: worker_select_def)
    with i(1) Idle show ?thesis by (blast intro: worker_step.leave)
  next
    case (Busy job)
    with i(1) show ?thesis by (blast intro: worker_step.finish)
  next
    case Exited
    with i(2) show ?thesis by simp
  qed
qed

lemma stopped_stuck: "stop_returns p \<Longrightarrow> \<not> worker_step p ev p'"
  by (auto simp: stop_returns_def list_all_length elim!: worker_stepE)

inductive worker_steps :: "'j Pool \<Rightarrow> nat \<Rightarrow> 'j Pool \<Rightarrow> bool" where
  none: "worker_steps p 0 p"
| step: "\<lbrakk>worker_step p ev p1; worker_steps p1 n p2\<rbrakk> \<Longrightarrow> worker_steps p (Suc n) p2"

lemma worker_steps_bounded:
  "\<lbrakk>worker_steps p n p'; \<not> ch_closed (pool_queue p)\<rbrakk>
    \<Longrightarrow> n + drain_measure p' \<le> drain_measure p \<and> pool_cancelled p' = pool_cancelled p"
proof (induction rule: worker_steps.induct)
  case (step p ev p1 n p2)
  from worker_step_decreases [OF step.hyps(1) step.prems] step.IH show ?case by auto
qed simp

lemma run_queue_open: "pool_run (NewPool w q) tr p \<Longrightarrow> \<not> ch_closed (pool_queue p)"
  using pool_run_inv by (auto simp: pool_inv_def)

text \<open>
  C20: \<open>Stop\<close> returns. After the context is cancelled, and as long as jobs return and no
  further job is enqueued, every sequence of worker steps is finite (with an explicit bound),
  and the only states in which no worker can move are those where all workers have exited,
  which is when \<open>Stop\<close>'s wait ends.
\<close>

theorem stop_terminates:
  assumes "pool_run (NewPool w q) tr p" "pool_cancelled p" "worker_steps p n p'"
  shows "n \<le> 2 * length (queued p) + 2 * length (pool_threads p)
    \<and> ((\<nexists>ev p''. worker_step p' ev p'') \<longleftrightarrow> stop_returns p')"
proof -
  have opened: "\<not> ch_closed (pool_queue p)" by (rule run_queue_open [OF assms(1)])
  note bound = worker_steps_bounded [OF assms(3) opened]
  have "drain_measure p \<le> 2 * length (queued p) + 2 * length (pool_threads p)"
    using worker_weights [of "pool_threads p"] by (simp add: drain_measure_def)
  with bound assms(2) show ?thesis
    using worker_progress [of p'] stopped_stuck [of p'] by fastforce
qed

theorem stop_terminates_witness:
  "(\<nexists>ev p''. worker_step (stop_cancel (NewPool 1 1 :: nat Pool)) ev p'')
     \<longleftrightarrow> stop_returns (stop_cancel (NewPool 1 1 :: nat Pool))"
proof -
  have run: "pool_run (NewPool 1 1 :: nat Pool) [Internal] (stop_cancel (NewPool 1 1))"
    using pool_run.snoc [OF pool_run.none pool_step.cancel] by fastforce
  have "pool_cancelled (stop_cancel (NewPool 1 1 :: nat Pool))" by (simp add: stop_cancel_def)
  from stop_terminates [OF run this worker_steps.none] show ?thesis by blast
qed

section \<open>Every accepted job gets done\<close>

inductive worker_trace :: "'j Pool \<Rightarrow> 'j pool_event list \<Rightarrow> 'j Pool \<Rightarrow> bool" for p0 where
  none: "worker_trace p0 [] p0"
| snoc: "\<lbrakk>worker_trace p0 tr p; worker_step p ev p'\<rbrakk> \<Longrightarrow> worker_trace p0 (tr @ [ev]) p'"

lemma worker_trace_run: "\<lbrakk>worker_trace p tr' p'; pool_run p0 tr p\<rbrakk> \<Longrightarrow> pool_run p0 (tr @ tr') p'"
  by (induction rule: worker_trace.induct)
    (auto intro: pool_run.snoc pool_step.work simp flip: append_assoc)

lemma worker_trace_bounded:
  "\<lbrakk>worker_trace p tr p'; \<not> ch_closed (pool_queue p)\<rbrakk> \<Longrightarrow> length tr + drain_measure p' \<le> drain_measure p
     \<and> \<not> ch_closed (pool_queue p') \<and> pool_cancelled p' = pool_cancelled p"
proof (induction rule: worker_trace.induct)
  case (snoc tr p1 ev p2)
  then show ?case using worker_step_decreases [OF snoc.hyps(2)] by auto
qed simp

text \<open>Workers leave only after a cancel, and a pool has at least one.\<close>

definition staffed :: "'j Pool \<Rightarrow> bool" where
  "staffed p \<longleftrightarrow> 0 < pool_workers p
     \<and> (pool_started p \<and> \<not> pool_cancelled p \<longrightarrow> pool_threads p \<noteq> [] \<and> Exited \<notin> set (pool_threads p))"

lemma worker_step_fields:
  assumes "worker_step p ev p'" "\<not> ch_closed (pool_queue p)"
  shows "pool_cancelled p' = pool_cancelled p \<and> pool_started p' = pool_started p
    \<and> pool_workers p' = pool_workers p \<and> length (pool_threads p') = length (pool_threads p)
    \<and> (\<not> pool_cancelled p \<longrightarrow> Exited \<in> set (pool_threads p') \<longrightarrow> Exited \<in> set (pool_threads p))"
  using assms
proof (induction rule: worker_step.induct)
  case (take_job i p pick job p')
  then show ?case using worker_select_cases [OF take_job.hyps(3) take_job.prems]
    by (auto dest: set_update_subset_insert [THEN subsetD])
next
  case (leave i p pick p')
  then show ?case using worker_select_cases [OF leave.hyps(3) leave.prems] by auto
next
  case (finish i p job)
  then show ?case by (auto simp: worker_finish_def dest: set_update_subset_insert [THEN subsetD])
qed

lemma staffed_step: "\<lbrakk>pool_step p ev p'; staffed p; \<not> ch_closed (pool_queue p)\<rbrakk> \<Longrightarrow> staffed p'"
proof (induction rule: pool_step.induct)
  case (work p ev p')
  then show ?case using worker_step_fields [OF work.hyps] by (auto simp: staffed_def)
qed (auto simp: staffed_def Start_def Submit_def TrySubmit_def stop_cancel_def split: if_splits)

lemma staffed_run: "pool_run (NewPool w q) tr p \<Longrightarrow> staffed p"
proof (induction rule: pool_run.induct)
  case none
  then show ?case by (simp add: staffed_def NewPool_def Let_def)
next
  case (snoc tr p ev p')
  then show ?case using staffed_step run_queue_open by blast
qed

lemma staffed_moves:
  assumes "staffed p" "pool_started p" "\<not> pool_cancelled p" "\<not> ch_closed (pool_queue p)"
    and "\<nexists>ev p'. worker_step p ev p'"
  shows "queued p = [] \<and> busy_jobs p = {#}"
proof -
  have ws: "pool_threads p \<noteq> []" "Exited \<notin> set (pool_threads p)" using assms(1-3) by (auto simp: staffed_def)
  have "w = Idle" if w: "w \<in> set (pool_threads p)" for w
  proof (cases w)
    case (Busy job)
    with w assms(5) show ?thesis by (auto simp: in_set_conv_nth intro: worker_step.finish)
  qed (use w ws in auto)
  then have all: "pool_threads p = replicate (length (pool_threads p)) Idle" by (simp add: replicate_length_same)
  have "queued p = []"
  proof (rule ccontr)
    assume "queued p \<noteq> []"
    then have "\<exists>job p'. worker_select False 0 p = Some (Some job, p')"
      using assms(3,4) by (auto simp: worker_select_def recv_def split: list.splits)
    moreover have "pool_threads p ! 0 = Idle" "0 < length (pool_threads p)"
      using ws(1) all by (simp_all, metis length_greater_0_conv nth_replicate)
    ultimately show False using assms(5) by (blast intro: worker_step.take_job)
  qed
  moreover have "busy_jobs p = {#}" unfolding busy_jobs_def by (subst all) (rule busy_replicate)
  ultimately show ?thesis by blast
qed

text \<open>
  C21: Every accepted job is done in the end. On a running pool, as long as jobs return, the
  workers can make only a bounded number of steps before they have nothing to do, with the bound
  depending on the queue and the number of workers only; they can always make a step until then;
  and when they cannot, every job accepted so far has been finished, each as often as it was
  accepted.
\<close>

theorem pool_drains:
  assumes "pool_run (NewPool w q) tr p" "pool_started p" "\<not> pool_cancelled p"
    and "worker_trace p tr' p'"
  shows "length tr' \<le> 2 * length (queued p) + 2 * length (pool_threads p)
    \<and> ((\<exists>ev p''. worker_step p' ev p'')
       \<or> queued p' = [] \<and> mset (concat (map finished_of (tr @ tr'))) = mset (concat (map accepted_of tr)))"
proof -
  have opened: "\<not> ch_closed (pool_queue p)" by (rule run_queue_open [OF assms(1)])
  note bound = worker_trace_bounded [OF assms(4) opened]
  have run: "pool_run (NewPool w q) (tr @ tr') p'" by (rule worker_trace_run [OF assms(4,1)])
  have started: "pool_started p'"
    using assms(4,2) opened
  proof (induction rule: worker_trace.induct)
    case (snoc tr p1 ev p2)
    then show ?case
      using worker_step_fields [OF snoc.hyps(2)] worker_trace_bounded [OF snoc.hyps(1) snoc.prems(2)] by simp
  qed
  have acc: "concat (map accepted_of tr') = []"
    using assms(4) by (induction rule: worker_trace.induct) (auto elim: worker_stepE)
  have "mset (concat (map finished_of (tr @ tr'))) = mset (concat (map accepted_of tr)) \<and> queued p' = []"
    if "\<nexists>ev p''. worker_step p' ev p''"
    using staffed_moves [OF staffed_run [OF run] started _ _ that] bound assms(3) pool_run_inv [OF run] acc
    by (simp add: pool_inv_def)
  with bound worker_weights [of "pool_threads p"] show ?thesis by (auto simp: drain_measure_def)
qed

theorem pool_drains_witness:
  "\<exists>p p'. pool_run (NewPool 1 1) [Internal, Accepted (7::nat)] p
    \<and> worker_trace p [Taken 7, Finished 7] p'
    \<and> ((\<exists>ev p''. worker_step p' ev p'') \<or> queued p' = [])"
proof -
  let ?p = "Start (NewPool 1 1) :: nat Pool"
  let ?p1 = "?p\<lparr>pool_queue := enq 7 (pool_queue ?p)\<rparr>"
  let ?p2 = "?p\<lparr>pool_threads := [Busy 7]\<rparr>"
  have "pool_run (NewPool 1 1) ([] @ [Internal]) ?p"
    by (rule pool_run.snoc [OF pool_run.none pool_step.start])
  moreover have "pool_step ?p (Accepted 7) ?p1"
    using pool_step.submit [of False ?p 7 True ?p1]
    by (simp add: Submit_def Start_def NewPool_def make_chan_def can_send_def)
  ultimately have run: "pool_run (NewPool 1 1) [Internal, Accepted 7] ?p1"
    using pool_run.snoc by fastforce
  have "worker_select False 0 ?p1 = Some (Some 7, ?p2)"
    by (simp add: worker_select_def recv_def Start_def NewPool_def make_chan_def enq_def)
  then have s1: "worker_step ?p1 (Taken 7) ?p2"
    by (rule worker_step.take_job [rotated 2]) (simp_all add: Start_def NewPool_def)
  have s2: "worker_step ?p2 (Finished 7) (worker_finish 0 ?p2)" by (rule worker_step.finish) simp_all
  have trace: "worker_trace ?p1 [Taken 7, Finished 7] (worker_finish 0 ?p2)"
    using worker_trace.snoc [OF worker_trace.snoc [OF worker_trace.none s1] s2] by simp
  have "pool_started ?p1" "\<not> pool_cancelled ?p1" by (simp_all add: Start_def NewPool_def)
  from pool_drains [OF run this trace] show ?thesis using run trace by blast
qed

section \<open>After Stop\<close>

lemma stopped_stays:
  "\<lbrakk>pool_step p ev p'; stop_returns p; pool_started p\<rbrakk>
     \<Longrightarrow> stop_returns p' \<and> pool_started p' \<and> taken_of ev = [] \<and> finished_of ev = []"
proof (induction rule: pool_step.induct)
  case (work p ev p')
  then show ?case using stopped_stuck by blast
qed (auto simp: Start_def Submit_def TrySubmit_def stop_cancel_def stop_returns_def
      split: if_splits)

lemma stopped_run:
  "\<lbrakk>pool_run p tr p'; stop_returns p; pool_started p\<rbrakk>
     \<Longrightarrow> stop_returns p' \<and> pool_started p' \<and> concat (map taken_of tr) = []
       \<and> concat (map finished_of tr) = []"
proof (induction rule: pool_run.induct)
  case (snoc tr p1 ev p2)
  then show ?case using stopped_stays [OF snoc.hyps(2)] by auto
qed simp

text \<open>
  C36: A pool that has been stopped can still accept a job. If its queue has room, \<open>Submit\<close>
  and \<open>TrySubmit\<close> may return true, since Go chooses at random between two ready cases, and
  then no continuation of the run ever takes or finishes a job. When \<open>TrySubmit\<close> does refuse
  a job because the pool is stopped, it does not count it as dropped.
\<close>

theorem submit_after_stop:
  assumes "stop_returns p" "pool_started p" "pool_cancelled p"
    and "length (queued p) < ch_cap (pool_queue p)"
  shows "(\<exists>p'. Submit False p job = Some (True, p') \<and> TrySubmit False p job = (True, p')
      \<and> (\<forall>tr p''. pool_run p' tr p'' \<longrightarrow>
           concat (map taken_of tr) = [] \<and> concat (map finished_of tr) = []))
    \<and> TrySubmit True p job = (False, p)"
  using assms stopped_run [of "p\<lparr>pool_queue := enq job (pool_queue p)\<rparr>"]
  by (auto simp: Submit_def TrySubmit_def can_send_def stop_returns_def)

definition stopped_pool :: "nat Pool" where
  "stopped_pool = (stop_cancel (Start (NewPool 1 1)))\<lparr>pool_threads := [Exited]\<rparr>"

lemma stopped_pool_reachable: "pool_run (NewPool 1 1) [Internal, Internal, Internal] stopped_pool"
proof -
  let ?p = "Start (NewPool 1 1) :: nat Pool"
  have run1: "pool_run (NewPool 1 1) [Internal] ?p"
    using pool_run.snoc [OF pool_run.none pool_step.start] by fastforce
  have run2: "pool_run (NewPool 1 1) [Internal, Internal] (stop_cancel ?p)"
    using pool_run.snoc [OF run1 pool_step.cancel] by simp
  have "worker_select True 0 (stop_cancel ?p) = Some (None, stopped_pool)"
    by (simp add: worker_select_def stopped_pool_def stop_cancel_def Start_def NewPool_def)
  then have "worker_step (stop_cancel ?p) Internal stopped_pool"
    by (rule worker_step.leave [rotated 2]) (simp_all add: stop_cancel_def Start_def NewPool_def)
  from pool_run.snoc [OF run2 pool_step.work [OF this]] show ?thesis by simp
qed

theorem submit_after_stop_witness:
  "pool_run (NewPool 1 1) [Internal, Internal, Internal] stopped_pool
   \<and> (\<exists>p'. Submit False stopped_pool 7 = Some (True, p'))"
proof -
  have "stop_returns stopped_pool" "pool_started stopped_pool" "pool_cancelled stopped_pool"
    "length (queued stopped_pool) < ch_cap (pool_queue stopped_pool)"
    by (simp_all add: stopped_pool_def stop_returns_def stop_cancel_def Start_def NewPool_def
        make_chan_def)
  from submit_after_stop [OF this] stopped_pool_reachable show ?thesis by blast
qed

end
