(* ===== verification/Service.thy ===== *)
theory Service
  imports Memory_Store_Correct Alerts Hub Pool
begin

text \<open>
  The orchestrator, \<open>internal/service/service.go\<close>. The service value holds the interfaces it
  was built with; the mutable components behind them (store, cache, hub, the Redis side of
  the event bus, alert engine) form the state that every operation takes and returns. A
  publisher works on the local hub and on the bus, so that broadcasting locally and
  publishing to Redis are two values of the same interface. \<open>None\<close> as the result of an
  operation is a panic of the hub's channels.

  What the environment supplies to one call is its argument \<open>env\<close>: successive clock
  readings, successive UUIDs, iteration orders, the choice a \<open>select\<close> makes, and the
  printable code points. A job of the pool is the closure \<open>processTelemetry(t)\<close>, represented
  by the captured sample \<open>t\<close>.
\<close>

record env =
  env_now :: "nat \<Rightarrow> time"
  env_id :: "nat \<Rightarrow> string"
  env_sched :: "nat \<Rightarrow> sched"
  env_pick :: bool
  env_isPrint :: "nat \<Rightarrow> bool"

section \<open>The code\<close>

record 'b Publisher =
  Pub :: "sched \<Rightarrow> Event \<Rightarrow> Hub \<times> 'b \<Rightarrow> (Hub \<times> 'b) option"

record 'c StatusCache =
  SetDeviceStatus :: "time \<Rightarrow> 'c \<Rightarrow> string \<Rightarrow> DeviceStatus \<Rightarrow> time \<Rightarrow> error option \<times> 'c"
  GetDeviceStatus :: "time \<Rightarrow> 'c \<Rightarrow> string \<Rightarrow> error + (DeviceStatus \<times> time \<times> bool)"

record ('s, 'c, 'b) Service =
  svc_store :: "'s Store"
  svc_publisher :: "'b Publisher"
  svc_cache :: "'c StatusCache option"
  svc_offlineAfter :: duration

record ('s, 'c, 'b) world =
  w_store :: 's
  w_cache :: 'c
  w_hub :: Hub
  w_bus :: 'b
  w_engine :: Engine

text \<open>The hub is a publisher: it broadcasts to its own subscribers.\<close>

definition hub_publisher :: "'b Publisher" where
  "hub_publisher = \<lparr>Pub = (\<lambda>p e (h, b). map_option (\<lambda>h'. (h', b)) (Broadcast p h e))\<rparr>"

definition WithPublisher :: "'b Publisher option \<Rightarrow> ('s, 'c, 'b) Service \<Rightarrow> ('s, 'c, 'b) Service" where
  "WithPublisher p s = (case p of None \<Rightarrow> s | Some q \<Rightarrow> s\<lparr>svc_publisher := q\<rparr>)"

definition WithStatusCache :: "'c StatusCache option \<Rightarrow> ('s, 'c, 'b) Service \<Rightarrow> ('s, 'c, 'b) Service" where
  "WithStatusCache c s = s\<lparr>svc_cache := c\<rparr>"

definition svc_New :: "'s Store \<Rightarrow> duration \<Rightarrow> (('s, 'c, 'b) Service \<Rightarrow> ('s, 'c, 'b) Service) list
    \<Rightarrow> ('s, 'c, 'b) Service" where
  "svc_New st offlineAfter opts =
     fold (\<lambda>opt svc. opt svc) opts
       \<lparr>svc_store = st, svc_publisher = hub_publisher, svc_cache = None,
        svc_offlineAfter = (if offlineAfter \<le> 0 then 30 * Second else offlineAfter)\<rparr>"

definition publish :: "('s, 'c, 'b) Service \<Rightarrow> sched \<Rightarrow> Event \<Rightarrow> ('s, 'c, 'b) world
    \<Rightarrow> ('s, 'c, 'b) world option" where
  "publish svc p event w =
     map_option (\<lambda>(h, b). w\<lparr>w_hub := h, w_bus := b\<rparr>)
       (Pub (svc_publisher svc) p event (w_hub w, w_bus w))"

definition cacheStatus :: "('s, 'c, 'b) Service \<Rightarrow> time \<Rightarrow> string \<Rightarrow> DeviceStatus \<Rightarrow> time
    \<Rightarrow> ('s, 'c, 'b) world \<Rightarrow> ('s, 'c, 'b) world" where
  "cacheStatus svc now deviceID status lastSeen w =
     (case svc_cache svc of
        None \<Rightarrow> w
      | Some c \<Rightarrow> w\<lparr>w_cache := snd (SetDeviceStatus c now (w_cache w) deviceID status lastSeen)\<rparr>)"

definition svc_RegisterDevice :: "('s, 'c, 'b) Service \<Rightarrow> env \<Rightarrow> RegisterDeviceRequest
    \<Rightarrow> ('s, 'c, 'b) world \<Rightarrow> ((error + Device) \<times> ('s, 'c, 'b) world) option" where
  "svc_RegisterDevice svc env req w =
     (let now = env_now env 0;
          d = \<lparr>dev_ID = env_id env 0, dev_Name = reg_Name req, dev_Type = reg_Type req,
               dev_Location = reg_Location req, dev_Metadata = reg_Metadata req,
               dev_Status = StatusUnknown, dev_RegisteredAt = now, dev_LastSeenAt = 0\<rparr>
      in case CreateDevice (svc_store svc) (w_store w) d of
           (Some err, s) \<Rightarrow> Some (Inl err, w\<lparr>w_store := s\<rparr>)
         | (None, s) \<Rightarrow>
             map_option (\<lambda>w'. (Inr d, w'))
               (publish svc (env_sched env 0)
                  \<lparr>ev_Type = ''device'', ev_DeviceID = dev_ID d, ev_Payload = PDevice d,
                   ev_Timestamp = now\<rparr>
                  (cacheStatus svc (env_now env 1) (dev_ID d) (dev_Status d) 0
                     (w\<lparr>w_store := s\<rparr>))))"

definition svc_GetDevice :: "('s, 'c, 'b) Service \<Rightarrow> env \<Rightarrow> string \<Rightarrow> ('s, 'c, 'b) world
    \<Rightarrow> error + Device" where
  "svc_GetDevice svc env i w =
     (case GetDevice (svc_store svc) (w_store w) i of
        Inl err \<Rightarrow> Inl err
      | Inr d \<Rightarrow>
          (case svc_cache svc of
             None \<Rightarrow> Inr d
           | Some c \<Rightarrow>
               (case GetDeviceStatus c (env_now env 0) (w_cache w) i of
                  Inr (status, seen, True) \<Rightarrow>
                    (let d1 = d\<lparr>dev_Status := status\<rparr>
                     in Inr (if \<not> IsZero seen then d1\<lparr>dev_LastSeenAt := seen\<rparr> else d1))
                | _ \<Rightarrow> Inr d)))"

definition svc_ListDevices :: "('s, 'c, 'b) Service \<Rightarrow> env \<Rightarrow> ('s, 'c, 'b) world \<Rightarrow> Device list" where
  "svc_ListDevices svc env w =
     ListDevices (svc_store svc) (env_sched env 0) (env_sched env 1) (w_store w)"

definition svc_DeleteDevice :: "('s, 'c, 'b) Service \<Rightarrow> string \<Rightarrow> ('s, 'c, 'b) world
    \<Rightarrow> error option \<times> ('s, 'c, 'b) world" where
  "svc_DeleteDevice svc i w =
     (case DeleteDevice (svc_store svc) (w_store w) i of (e, s) \<Rightarrow> (e, w\<lparr>w_store := s\<rparr>))"

definition svc_UpdateDevice :: "('s, 'c, 'b) Service \<Rightarrow> env \<Rightarrow> string \<Rightarrow> UpdateDeviceRequest
    \<Rightarrow> ('s, 'c, 'b) world \<Rightarrow> ((error + Device) \<times> ('s, 'c, 'b) world) option" where
  "svc_UpdateDevice svc env i req w =
     (case UpdateDevice (svc_store svc) (w_store w) i (upd_Name req) (upd_Type req)
             (upd_Location req) (upd_Metadata req) of
        (Some err, s) \<Rightarrow> Some (Inl err, w\<lparr>w_store := s\<rparr>)
      | (None, s) \<Rightarrow>
          (let w1 = w\<lparr>w_store := s\<rparr> in
           case svc_GetDevice svc env i w1 of
             Inl err \<Rightarrow> Some (Inl err, w1)
           | Inr d \<Rightarrow>
               map_option (\<lambda>w'. (Inr d, w'))
                 (publish svc (env_sched env 0)
                    \<lparr>ev_Type = ''device'', ev_DeviceID = dev_ID d, ev_Payload = PDevice d,
                     ev_Timestamp = env_now env 1\<rparr> w1)))"

definition svc_IngestTelemetry :: "env \<Rightarrow> Telemetry Pool \<Rightarrow> Telemetry
    \<Rightarrow> (bool \<times> Telemetry Pool) option" where
  "svc_IngestTelemetry env pool t =
     Submit (env_pick env) pool
       (if IsZero (tel_Timestamp t) then t\<lparr>tel_Timestamp := env_now env 0\<rparr> else t)"

definition telemetry_event :: "Telemetry \<Rightarrow> Event" where
  "telemetry_event t = \<lparr>ev_Type = ''telemetry'', ev_DeviceID = tel_DeviceID t,
     ev_Payload = PTelemetry t, ev_Timestamp = tel_Timestamp t\<rparr>"

definition alert_event :: "Alert \<Rightarrow> Event" where
  "alert_event a = \<lparr>ev_Type = ''alert'', ev_DeviceID = al_DeviceID a, ev_Payload = PAlert a,
     ev_Timestamp = al_CreatedAt a\<rparr>"

fun alert_loop :: "('s, 'c, 'b) Service \<Rightarrow> env \<Rightarrow> nat \<Rightarrow> Alert list \<Rightarrow> ('s, 'c, 'b) world
    \<Rightarrow> ('s, 'c, 'b) world option" where
  "alert_loop svc env i [] w = Some w"
| "alert_loop svc env i (a # as) w =
     (case AddAlert (svc_store svc) (w_store w) a of
        (Some _, s) \<Rightarrow> alert_loop svc env (Suc i) as (w\<lparr>w_store := s\<rparr>)
      | (None, s) \<Rightarrow>
          (case publish svc (env_sched env i) (alert_event a) (w\<lparr>w_store := s\<rparr>) of
             None \<Rightarrow> None
           | Some w' \<Rightarrow> alert_loop svc env (Suc i) as w'))"

definition svc_processTelemetry :: "('s, 'c, 'b) Service \<Rightarrow> env \<Rightarrow> Telemetry
    \<Rightarrow> ('s, 'c, 'b) world \<Rightarrow> ('s, 'c, 'b) world option" where
  "svc_processTelemetry svc env t w =
     (case AddTelemetry (svc_store svc) (w_store w) t of
        (Some _, s) \<Rightarrow> Some (w\<lparr>w_store := s\<rparr>)
      | (None, s1) \<Rightarrow>
          (case UpdateDeviceStatus (svc_store svc) s1 (tel_DeviceID t) StatusOnline
                  (tel_Timestamp t) of
             (_, s2) \<Rightarrow>
               (case publish svc (env_sched env 0) (telemetry_event t)
                       (cacheStatus svc (env_now env 0) (tel_DeviceID t) StatusOnline
                          (tel_Timestamp t) (w\<lparr>w_store := s2\<rparr>)) of
                  None \<Rightarrow> None
                | Some w1 \<Rightarrow>
                    alert_loop svc env 1
                      (Evaluate (env_isPrint env) (env_id env) (\<lambda>i. env_now env (Suc i))
                         (w_engine w1) t) w1)))"

definition svc_GetTelemetry :: "('s, 'c, 'b) Service \<Rightarrow> string \<Rightarrow> time \<Rightarrow> int
    \<Rightarrow> ('s, 'c, 'b) world \<Rightarrow> Telemetry list" where
  "svc_GetTelemetry svc deviceID since limit w =
     GetTelemetry (svc_store svc) (w_store w) deviceID since limit"

definition svc_GetTelemetrySince :: "('s, 'c, 'b) Service \<Rightarrow> string \<Rightarrow> time
    \<Rightarrow> ('s, 'c, 'b) world \<Rightarrow> Telemetry list" where
  "svc_GetTelemetrySince svc deviceID since w =
     GetTelemetry (svc_store svc) (w_store w) deviceID since 0"

definition svc_ListAlerts :: "('s, 'c, 'b) Service \<Rightarrow> env \<Rightarrow> string \<Rightarrow> ('s, 'c, 'b) world
    \<Rightarrow> Alert list" where
  "svc_ListAlerts svc env deviceID w =
     ListAlerts (svc_store svc) (env_sched env 0) (env_sched env 1) (w_store w) deviceID"

definition svc_Subscribe :: "('s, 'c, 'b) world \<Rightarrow> nat \<times> ('s, 'c, 'b) world" where
  "svc_Subscribe w = (case Subscribe (w_hub w) of (ch, h) \<Rightarrow> (ch, w\<lparr>w_hub := h\<rparr>))"

definition svc_Unsubscribe :: "nat \<Rightarrow> ('s, 'c, 'b) world \<Rightarrow> ('s, 'c, 'b) world option" where
  "svc_Unsubscribe ch w = map_option (\<lambda>h. w\<lparr>w_hub := h\<rparr>) (Unsubscribe (w_hub w) ch)"

definition offline_event :: "time \<Rightarrow> string \<Rightarrow> Event" where
  "offline_event now i = \<lparr>ev_Type = ''status'', ev_DeviceID = i,
     ev_Payload = PFields (fmupd ''status'' StatusOffline fmempty), ev_Timestamp = now\<rparr>"

fun reconcile_loop :: "('s, 'c, 'b) Service \<Rightarrow> env \<Rightarrow> time \<Rightarrow> nat \<Rightarrow> Device list
    \<Rightarrow> ('s, 'c, 'b) world \<Rightarrow> ('s, 'c, 'b) world option" where
  "reconcile_loop svc env now i [] w = Some w"
| "reconcile_loop svc env now i (d # ds) w =
     (if IsZero (dev_LastSeenAt d) then reconcile_loop svc env now (Suc i) ds w
      else if svc_offlineAfter svc < Sub now (dev_LastSeenAt d) \<and> dev_Status d \<noteq> StatusOffline
      then (case UpdateDeviceStatus (svc_store svc) (w_store w) (dev_ID d) StatusOffline 0 of
              (Some _, s) \<Rightarrow> reconcile_loop svc env now (Suc i) ds (w\<lparr>w_store := s\<rparr>)
            | (None, s) \<Rightarrow>
                (case publish svc (env_sched env i) (offline_event now (dev_ID d))
                        (cacheStatus svc (env_now env (Suc i)) (dev_ID d) StatusOffline 0
                           (w\<lparr>w_store := s\<rparr>)) of
                   None \<Rightarrow> None
                 | Some w' \<Rightarrow> reconcile_loop svc env now (Suc i) ds w'))
      else reconcile_loop svc env now (Suc i) ds w)"

definition svc_ReconcileStatuses :: "('s, 'c, 'b) Service \<Rightarrow> env \<Rightarrow> ('s, 'c, 'b) world
    \<Rightarrow> ('s, 'c, 'b) world option" where
  "svc_ReconcileStatuses svc env w =
     reconcile_loop svc env (env_now env 0) 2
       (ListDevices (svc_store svc) (env_sched env 0) (env_sched env 1) (w_store w)) w"

text \<open>
  \<open>RunStatusReconciler\<close>: one element per turn of its loop, a tick of the ticker or the end of
  the context; the ticker's period defaults to ten seconds.
\<close>

datatype reconciler_turn = Tick env | CtxDone

definition reconciler_interval :: "duration \<Rightarrow> duration" where
  "reconciler_interval interval = (if interval \<le> 0 then 10 * Second else interval)"

fun svc_RunStatusReconciler :: "('s, 'c, 'b) Service \<Rightarrow> reconciler_turn list
    \<Rightarrow> ('s, 'c, 'b) world \<Rightarrow> ('s, 'c, 'b) world option" where
  "svc_RunStatusReconciler svc [] w = Some w"
| "svc_RunStatusReconciler svc (CtxDone # turns) w = Some w"
| "svc_RunStatusReconciler svc (Tick env # turns) w =
     (case svc_ReconcileStatuses svc env w of
        None \<Rightarrow> None | Some w' \<Rightarrow> svc_RunStatusReconciler svc turns w')"

end
