(* ===== verification/Redis.thy ===== *)
theory Redis
  imports Go_Marshal Service
begin

text \<open>
  The status cache and event bus, \<open>internal/cache/redis.go\<close>. The client of \<open>go-redis\<close> is a
  parameter: what it keeps under keys is the state \<open>'c\<close>, what goes through its channels the
  state \<open>'b\<close>. Payloads are JSON texts, \<open>None\<close> one that is not JSON. A call takes the time at
  which it happens, since entries expire. The function \<open>z\<close> gives the zone offset in which an
  instant is written. The texts of encoding errors, which nothing reads, are abbreviated.
\<close>

section \<open>The client\<close>

datatype redis_error = RedisNil | RedisFailure string

record ('c, 'b) redis =
  rd_NewClient :: "string \<Rightarrow> string \<Rightarrow> int \<Rightarrow> 'c \<times> 'b"
  rd_Ping :: "'c \<Rightarrow> redis_error option"
  rd_Set :: "time \<Rightarrow> 'c \<Rightarrow> string \<Rightarrow> json option \<Rightarrow> duration \<Rightarrow> redis_error option \<times> 'c"
  rd_Get :: "time \<Rightarrow> 'c \<Rightarrow> string \<Rightarrow> redis_error + json option"
  rd_Publish :: "'b \<Rightarrow> string \<Rightarrow> json option \<Rightarrow> redis_error option \<times> 'b"

fun redis_go_error :: "redis_error \<Rightarrow> error" where
  "redis_go_error RedisNil = ErrOther ''redis: nil''"
| "redis_go_error (RedisFailure s) = ErrOther s"

section \<open>The code\<close>

definition statusKeyPrefix :: string where
  "statusKeyPrefix = ''device:status:''"

definition eventsChannel :: string where
  "eventsChannel = ''iot:events''"

record Redis =
  rds_ttl :: duration

record RedisConfig =
  rc_Addr :: string
  rc_Password :: string
  rc_DB :: int
  rc_StatusTTL :: duration

definition rds_New :: "('c, 'b) redis \<Rightarrow> RedisConfig \<Rightarrow> error + Redis \<times> 'c \<times> 'b" where
  "rds_New R cfg =
     (let ttl = (if rc_StatusTTL cfg \<le> 0 then 5 * Minute else rc_StatusTTL cfg);
          (c, b) = rd_NewClient R (rc_Addr cfg) (rc_Password cfg) (rc_DB cfg)
      in case rd_Ping R c of
           Some err \<Rightarrow> Inl (redis_go_error err)
         | None \<Rightarrow> Inr (\<lparr>rds_ttl = ttl\<rparr>, c, b))"

record statusEntry =
  se_Status :: string
  se_LastSeen :: time

definition enc_statusEntry :: "(time \<Rightarrow> int) \<Rightarrow> statusEntry \<Rightarrow> json option" where
  "enc_statusEntry z e = enc_struct
     [(''status'', Some (enc_string (se_Status e))), (''last_seen'', enc_time z (se_LastSeen e))]"

definition dec_statusEntry :: "json option \<Rightarrow> statusEntry option" where
  "dec_statusEntry = dec_struct (\<lambda>k j e.
     if k = ''status'' then map_option (\<lambda>s. e\<lparr>se_Status := s\<rparr>) (dec_string j (se_Status e))
     else if k = ''last_seen'' then map_option (\<lambda>t. case t of Some u \<Rightarrow> e\<lparr>se_LastSeen := u\<rparr> | None \<Rightarrow> e)
       (dec_time j)
     else Some e) \<lparr>se_Status = '''', se_LastSeen = 0\<rparr>"

definition rds_SetDeviceStatus :: "('c, 'b) redis \<Rightarrow> (time \<Rightarrow> int) \<Rightarrow> Redis \<Rightarrow> time \<Rightarrow> 'c \<Rightarrow> string
    \<Rightarrow> DeviceStatus \<Rightarrow> time \<Rightarrow> error option \<times> 'c" where
  "rds_SetDeviceStatus R z r now c deviceID status lastSeen =
     (case enc_statusEntry z \<lparr>se_Status = status, se_LastSeen = lastSeen\<rparr> of
        None \<Rightarrow> (Some (ErrOther ''json: error calling MarshalJSON''), c)
      | Some payload \<Rightarrow>
          (case rd_Set R now c (statusKeyPrefix @ deviceID) (Some payload) (rds_ttl r) of
             (e, c') \<Rightarrow> (map_option redis_go_error e, c')))"

definition rds_GetDeviceStatus :: "('c, 'b) redis \<Rightarrow> time \<Rightarrow> 'c \<Rightarrow> string
    \<Rightarrow> error + (DeviceStatus \<times> time \<times> bool)" where
  "rds_GetDeviceStatus R now c deviceID =
     (case rd_Get R now c (statusKeyPrefix @ deviceID) of
        Inl RedisNil \<Rightarrow> Inr ('''', 0, False)
      | Inl err \<Rightarrow> Inl (redis_go_error err)
      | Inr raw \<Rightarrow>
          (case dec_statusEntry raw of
             None \<Rightarrow> Inl (ErrOther ''json: cannot unmarshal'')
           | Some entry \<Rightarrow> Inr (se_Status entry, se_LastSeen entry, True)))"

definition rds_Broadcast :: "('c, 'b) redis \<Rightarrow> (time \<Rightarrow> int) \<Rightarrow> Event \<Rightarrow> 'b \<Rightarrow> 'b" where
  "rds_Broadcast R z event b =
     (case enc_event z event of
        None \<Rightarrow> b
      | Some payload \<Rightarrow> snd (rd_Publish R b eventsChannel (Some payload)))"

text \<open>
  What \<open>Subscribe\<close> meets in its loop: the context is cancelled, the channel is closed, or a
  message arrives. The handler is called with the iteration order of the hub it broadcasts to;
  \<open>None\<close> is its panic. A loop that has used up its turns is still waiting.
\<close>

datatype sub_turn = SubDone | SubClosed | SubMsg sched "json option"

datatype sub_result = Waiting | Returned "error option"

fun subscribe_loop :: "(sched \<Rightarrow> Event \<Rightarrow> 'h \<Rightarrow> 'h option) \<Rightarrow> sub_turn list \<Rightarrow> 'h
    \<Rightarrow> (sub_result \<times> 'h) option" where
  "subscribe_loop handler [] h = Some (Waiting, h)"
| "subscribe_loop handler (SubDone # ts) h = Some (Returned (Some (ErrOther ''context canceled'')), h)"
| "subscribe_loop handler (SubClosed # ts) h = Some (Returned None, h)"
| "subscribe_loop handler (SubMsg p msg # ts) h =
     (case dec_event msg of
        None \<Rightarrow> subscribe_loop handler ts h
      | Some event \<Rightarrow> Option.bind (handler p event h) (subscribe_loop handler ts))"

definition rds_Subscribe :: "redis_error option \<Rightarrow> (sched \<Rightarrow> Event \<Rightarrow> 'h \<Rightarrow> 'h option) \<Rightarrow> sub_turn list
    \<Rightarrow> 'h \<Rightarrow> (sub_result \<times> 'h) option" where
  "rds_Subscribe confirmed handler turns h =
     (case confirmed of
        Some err \<Rightarrow> (case redis_go_error err of
            ErrOther s \<Rightarrow> Some (Returned (Some (ErrOther (''subscribe: '' @ s))), h)
          | err \<Rightarrow> Some (Returned (Some err), h))
      | None \<Rightarrow> subscribe_loop handler turns h)"

text \<open>The two interfaces of the service that Redis implements.\<close>

definition redis_cache :: "('c, 'b) redis \<Rightarrow> (time \<Rightarrow> int) \<Rightarrow> Redis \<Rightarrow> 'c StatusCache" where
  "redis_cache R z r = \<lparr>SetDeviceStatus = rds_SetDeviceStatus R z r,
     GetDeviceStatus = rds_GetDeviceStatus R\<rparr>"

definition redis_publisher :: "('c, 'b) redis \<Rightarrow> (time \<Rightarrow> int) \<Rightarrow> 'b Publisher" where
  "redis_publisher R z = \<lparr>Pub = (\<lambda>p e (h, b). Some (h, rds_Broadcast R z e b))\<rparr>"

section \<open>The documented behaviour of the client\<close>

text \<open>
  \<open>entries c k\<close> is the payload under a key with the time at which it expires, \<open>up c\<close> says that
  calls reach the server, \<open>sent b\<close> lists what was published. A lifetime counts in whole
  milliseconds, one at least.
\<close>

definition redis_life :: "duration \<Rightarrow> duration" where
  "redis_life ttl = max Millisecond (ttl div Millisecond * Millisecond)"

definition set_spec :: "('c, 'b) redis \<Rightarrow> ('c \<Rightarrow> string \<rightharpoonup> json option \<times> time) \<Rightarrow> ('c \<Rightarrow> bool) \<Rightarrow> bool" where
  "set_spec R entries up \<longleftrightarrow> (\<forall>now c k v ttl. up c \<longrightarrow> 0 < ttl \<longrightarrow>
     (\<exists>c'. rd_Set R now c k v ttl = (None, c') \<and> up c'
        \<and> entries c' = (entries c)(k \<mapsto> (v, now + redis_life ttl))))"

definition get_spec :: "('c, 'b) redis \<Rightarrow> ('c \<Rightarrow> string \<rightharpoonup> json option \<times> time) \<Rightarrow> ('c \<Rightarrow> bool) \<Rightarrow> bool" where
  "get_spec R entries up \<longleftrightarrow> (\<forall>now c k. up c \<longrightarrow>
     rd_Get R now c k = (case entries c k of
       Some (v, ex) \<Rightarrow> if now < ex then Inr v else Inl RedisNil | None \<Rightarrow> Inl RedisNil))"

definition publish_spec :: "('c, 'b) redis \<Rightarrow> ('b \<Rightarrow> (string \<times> json option) list) \<Rightarrow> bool" where
  "publish_spec R sent \<longleftrightarrow> (\<forall>b ch v. sent (snd (rd_Publish R b ch v)) = sent b @ [(ch, v)])"

definition redis_ok :: "('c, 'b) redis \<Rightarrow> ('c \<Rightarrow> string \<rightharpoonup> json option \<times> time) \<Rightarrow> ('c \<Rightarrow> bool)
    \<Rightarrow> ('b \<Rightarrow> (string \<times> json option) list) \<Rightarrow> bool" where
  "redis_ok R entries up sent \<longleftrightarrow> set_spec R entries up \<and> get_spec R entries up \<and> publish_spec R sent"

text \<open>A reference client that keeps the entries and the messages.\<close>

definition list_redis :: "(string \<rightharpoonup> json option \<times> time, (string \<times> json option) list) redis" where
  "list_redis = \<lparr>rd_NewClient = (\<lambda>_ _ _. (\<lambda>_. None, [])), rd_Ping = (\<lambda>_. None),
     rd_Set = (\<lambda>now c k v ttl. (None, c(k \<mapsto> (v, now + redis_life ttl)))),
     rd_Get = (\<lambda>now c k. case c k of
       Some (v, ex) \<Rightarrow> if now < ex then Inr v else Inl RedisNil | None \<Rightarrow> Inl RedisNil),
     rd_Publish = (\<lambda>b ch v. (None, b @ [(ch, v)]))\<rparr>"

lemma list_redis_ok: "redis_ok list_redis (\<lambda>c. c) (\<lambda>_. True) (\<lambda>b. b)"
  by (simp add: redis_ok_def set_spec_def get_spec_def publish_spec_def list_redis_def)

end
