(* ===== verification/Service_Correct.thy ===== *)
theory Service_Correct
  imports Service
begin

text \<open>
  What the orchestrator guarantees, whatever store and publisher it is built with. The locale
  \<open>service\<close> joins the contract of the store with that of the publisher; its lemmas say what
  \<open>processTelemetry\<close>, \<open>RegisterDevice\<close>, \<open>UpdateDevice\<close> and \<open>ReconcileStatuses\<close> do to the
  store and which events they publish, in order. It is interpreted on the in-memory store
  and the local hub.
\<close>

section \<open>Publishing a sequence of events\<close>

fun publish_all :: "'b Publisher \<Rightarrow> (sched \<times> Event) list \<Rightarrow> Hub \<times> 'b \<Rightarrow> (Hub \<times> 'b) option" where
  "publish_all pub [] x = Some x"
| "publish_all pub ((p, e) # es) x =
     (case Pub pub p e x of None \<Rightarrow> None | Some y \<Rightarrow> publish_all pub es y)"

definition outlets :: "('s, 'c, 'b) world \<Rightarrow> Hub \<times> 'b" where
  "outlets w = (w_hub w, w_bus w)"

lemma outlets_simps [simp]:
  "outlets (w\<lparr>w_store := s\<rparr>) = outlets w" "outlets (w\<lparr>w_cache := c\<rparr>) = outlets w"
  "outlets (w\<lparr>w_hub := h, w_bus := b\<rparr>) = (h, b)"
  by (simp_all add: outlets_def)

lemma cacheStatus_frame [simp]:
  "outlets (cacheStatus svc now i st seen w) = outlets w"
  "w_store (cacheStatus svc now i st seen w) = w_store w"
  "w_engine (cacheStatus svc now i st seen w) = w_engine w"
  by (simp_all add: cacheStatus_def split: option.splits)

lemma publish_eq:
  "publish svc p e w = map_option (\<lambda>(h, b). w\<lparr>w_hub := h, w_bus := b\<rparr>)
     (Pub (svc_publisher svc) p e (outlets w))"
  by (simp add: publish_def outlets_def)

locale publisher_contract =
  fixes pub :: "'b Publisher" and pinv :: "Hub \<times> 'b \<Rightarrow> bool"
  assumes pub_total: "pinv x \<Longrightarrow> \<exists>y. Pub pub p e x = Some y \<and> pinv y"
begin

lemma publish_all_total: "pinv x \<Longrightarrow> \<exists>y. publish_all pub es x = Some y \<and> pinv y"
proof (induction es arbitrary: x)
  case (Cons pe es)
  obtain p e where [simp]: "pe = (p, e)" by force
  from pub_total [OF Cons.prems, of p e] Cons.IH show ?case by auto
qed simp

end

section \<open>The service over any store and publisher\<close>

definition stale :: "('s, 'c, 'b) Service \<Rightarrow> time \<Rightarrow> Device \<Rightarrow> bool" where
  "stale svc now d \<longleftrightarrow> \<not> IsZero (dev_LastSeenAt d)
     \<and> svc_offlineAfter svc < Sub now (dev_LastSeenAt d) \<and> dev_Status d \<noteq> StatusOffline"

definition sweep :: "('s, 'c, 'b) Service \<Rightarrow> time \<Rightarrow> Device \<Rightarrow> Device" where
  "sweep svc now d = (if stale svc now d then d\<lparr>dev_Status := StatusOffline\<rparr> else d)"

definition sweep_events :: "('s, 'c, 'b) Service \<Rightarrow> env \<Rightarrow> time \<Rightarrow> nat \<Rightarrow> Device list
    \<Rightarrow> (sched \<times> Event) list" where
  "sweep_events svc env now i ds = map (\<lambda>(j, d). (env_sched env j, offline_event now (dev_ID d)))
     (filter (\<lambda>(j, d). stale svc now d) (enumerate i ds))"

locale service =
  store_contract "svc_store svc" keep inv dev tel alr cap + publisher_contract "svc_publisher svc" pinv
  for svc :: "('s, 'c, 'b) Service" and keep inv dev tel alr cap pinv
begin

definition winv :: "('s, 'c, 'b) world \<Rightarrow> bool" where
  "winv w \<longleftrightarrow> inv (w_store w) \<and> pinv (outlets w)"

lemma publish_step:
  assumes "pinv (outlets w)"
  obtains h b where "Pub (svc_publisher svc) p e (outlets w) = Some (h, b)"
    "publish svc p e w = Some (w\<lparr>w_hub := h, w_bus := b\<rparr>)" "pinv (h, b)"
  using pub_total [OF assms, of p e] by (auto simp: publish_eq)

lemma alert_loop_spec:
  assumes "winv w"
  shows "\<exists>w'. alert_loop svc env i as w = Some w' \<and> winv w'
    \<and> w_store w' = fold (\<lambda>a s. snd (AddAlert (svc_store svc) s a)) as (w_store w)
    \<and> dev (w_store w') = dev (w_store w) \<and> tel (w_store w') = tel (w_store w)
    \<and> w_cache w' = w_cache w \<and> w_engine w' = w_engine w
    \<and> (\<forall>k. alr (w_store w') k = alr (w_store w) k
         + image_mset (kept_alert keep) {#a \<in># mset as. al_DeviceID a = k#})
    \<and> publish_all (svc_publisher svc)
        (map (\<lambda>(j, a). (env_sched env j, alert_event a)) (enumerate i as)) (outlets w)
      = Some (outlets w')"
  using assms
proof (induction as arbitrary: i w)
  case Nil
  then show ?case by simp
next
  case (Cons a as)
  obtain s where s: "AddAlert (svc_store svc) (w_store w) a = (None, s)"
    using add_alert [of "w_store w" a] Cons.prems
    by (metis (no_types, lifting) surj_pair winv_def)
  have law: "inv s" "dev s = dev (w_store w)" "tel s = tel (w_store w)"
    "alr s = (alr (w_store w))(al_DeviceID a := add_mset (kept_alert keep a)
       (alr (w_store w) (al_DeviceID a)))"
    using add_alert [OF _ s] Cons.prems by (simp_all add: winv_def)
  let ?w = "w\<lparr>w_store := s\<rparr>"
  have "pinv (outlets ?w)" using Cons.prems by (simp add: winv_def)
  then obtain h b where p: "Pub (svc_publisher svc) (env_sched env i) (alert_event a) (outlets ?w)
      = Some (h, b)" "publish svc (env_sched env i) (alert_event a) ?w
      = Some (?w\<lparr>w_hub := h, w_bus := b\<rparr>)" "pinv (h, b)"
    by (rule publish_step)
  let ?v = "?w\<lparr>w_hub := h, w_bus := b\<rparr>"
  have "winv ?v" using p law by (simp add: winv_def outlets_def)
  from Cons.IH [OF this, of "Suc i"] s p law show ?case
    by (auto simp: outlets_def)
qed

lemma process_unknown:
  assumes "winv w" "dev (w_store w) (tel_DeviceID t) = None"
  shows "svc_processTelemetry svc env t w = Some w"
  using tel_unknown [of "w_store w" t] assms by (simp add: svc_processTelemetry_def winv_def)

lemma status_some:
  assumes "inv s" "dev s i \<noteq> None"
  obtains s' where "UpdateDeviceStatus (svc_store svc) s i st seen = (None, s')"
  using assms status_known [of s i]
  by (metis option.exhaust surj_pair)

lemma process_known:
  fixes env :: env and t :: Telemetry
  assumes "winv w" "dev (w_store w) (tel_DeviceID t) = Some d"
  defines "as \<equiv> Evaluate (env_isPrint env) (env_id env) (\<lambda>i. env_now env (Suc i)) (w_engine w) t"
  shows "\<exists>w'. svc_processTelemetry svc env t w = Some w' \<and> winv w'
    \<and> w_store w' = fold (\<lambda>a s. snd (AddAlert (svc_store svc) s a)) as
         (snd (UpdateDeviceStatus (svc_store svc) (snd (AddTelemetry (svc_store svc) (w_store w) t))
            (tel_DeviceID t) StatusOnline (tel_Timestamp t)))
    \<and> dev (w_store w') = (dev (w_store w))(tel_DeviceID t \<mapsto> d\<lparr>dev_Status := StatusOnline,
         dev_LastSeenAt := (if IsZero (tel_Timestamp t) then dev_LastSeenAt d
                            else keep (tel_Timestamp t))\<rparr>)
    \<and> tel (w_store w') = tel (snd (AddTelemetry (svc_store svc) (w_store w) t))
    \<and> (\<forall>k. alr (w_store w') k = alr (w_store w) k
         + (if k = tel_DeviceID t then image_mset (kept_alert keep) (mset as) else {#}))
    \<and> w_engine w' = w_engine w
    \<and> w_cache w' = w_cache (cacheStatus svc (env_now env 0) (tel_DeviceID t) StatusOnline
         (tel_Timestamp t) w)
    \<and> publish_all (svc_publisher svc)
        (map (\<lambda>(j, e). (env_sched env j, e)) (enumerate 0 (telemetry_event t # map alert_event as)))
        (outlets w) = Some (outlets w')"
proof -
  have inv: "inv (w_store w)" using assms by (simp add: winv_def)
  obtain s1 where s1: "AddTelemetry (svc_store svc) (w_store w) t = (None, s1)"
    using tel_known [OF inv assms(2)] by (metis surj_pair)
  have l1: "inv s1" "dev s1 = dev (w_store w)" "alr s1 = alr (w_store w)"
    using tel_known [OF inv assms(2) s1] by blast+
  have d1: "dev s1 (tel_DeviceID t) = Some d" using l1 assms(2) by simp
  then obtain s2 where s2: "UpdateDeviceStatus (svc_store svc) s1 (tel_DeviceID t) StatusOnline
      (tel_Timestamp t) = (None, s2)"
    using status_some [OF l1(1)] by (metis option.distinct(1))
  note l2 = status_known [OF l1(1) d1 s2] status_frame [OF l1(1) s2]
  let ?w = "cacheStatus svc (env_now env 0) (tel_DeviceID t) StatusOnline (tel_Timestamp t)
      (w\<lparr>w_store := s2\<rparr>)"
  have "pinv (outlets ?w)" using assms by (simp add: winv_def)
  then obtain h b where p: "Pub (svc_publisher svc) (env_sched env 0) (telemetry_event t) (outlets ?w)
      = Some (h, b)" "publish svc (env_sched env 0) (telemetry_event t) ?w
      = Some (?w\<lparr>w_hub := h, w_bus := b\<rparr>)" "pinv (h, b)"
    by (rule publish_step)
  let ?v = "?w\<lparr>w_hub := h, w_bus := b\<rparr>"
  have v: "winv ?v" using p l2 by (simp add: winv_def)
  have eng: "w_engine ?v = w_engine w" by simp
  have run: "svc_processTelemetry svc env t w = alert_loop svc env 1 as ?v"
    using s1 s2 p eng by (simp add: svc_processTelemetry_def as_def)
  have only: "{#a \<in># mset as. al_DeviceID a = k#} = (if k = tel_DeviceID t then mset as else {#})" for k
    using Evaluate_device unfolding as_def by (fastforce intro!: filter_mset_cong0 simp: filter_mset_eq_conv)
  have cache: "w_cache ?v = w_cache (cacheStatus svc (env_now env 0) (tel_DeviceID t) StatusOnline
      (tel_Timestamp t) w)"
    by (simp add: cacheStatus_def split: option.splits)
  have ev: "map (\<lambda>(j, e). (env_sched env j, e)) (enumerate (Suc 0) (map alert_event as))
      = map (\<lambda>(j, a). (env_sched env j, alert_event a)) (enumerate 1 as)"
    by (simp add: enumerate_map_upt enumerate_eq_zip zip_map2 case_prod_unfold comp_def)
  from alert_loop_spec [OF v, of env 1 as] show ?thesis
    using run l1 l2 s1 s2 p eng cache by (fastforce simp: only ev)
qed

text \<open>One turn of the sweep: a device that is not stale is passed over, a stale one marked offline.\<close>

lemma reconcile_skip:
  assumes "\<not> stale svc now d"
  shows "reconcile_loop svc env now i (d # ds) w = reconcile_loop svc env now (Suc i) ds w"
    and "sweep svc now d = d" and "sweep_events svc env now i (d # ds) = sweep_events svc env now (Suc i) ds"
  using assms by (auto simp: stale_def sweep_def sweep_events_def)

lemma reconcile_mark:
  assumes "winv w" "dev (w_store w) (dev_ID d) = Some d" "stale svc now d"
  obtains v where "winv v" "dev (w_store v) = (dev (w_store w))(dev_ID d \<mapsto> sweep svc now d)"
    "tel (w_store v) = tel (w_store w)" "alr (w_store v) = alr (w_store w)" "w_engine v = w_engine w"
    "\<forall>ds. reconcile_loop svc env now i (d # ds) w = reconcile_loop svc env now (Suc i) ds v"
    "Pub (svc_publisher svc) (env_sched env i) (offline_event now (dev_ID d)) (outlets w) = Some (outlets v)"
proof -
  let ?i = "dev_ID d"
  have inv: "inv (w_store w)" using assms(1) by (simp add: winv_def)
  obtain s where s: "UpdateDeviceStatus (svc_store svc) (w_store w) ?i StatusOffline 0 = (None, s)"
    using status_some [OF inv] assms(2) by (metis option.distinct(1))
  have dev_s: "inv s" "dev s = (dev (w_store w))(?i \<mapsto> sweep svc now d)"
    using status_known [OF inv assms(2) s] assms(3) by (simp_all add: IsZero_def sweep_def)
  let ?w = "cacheStatus svc (env_now env (Suc i)) ?i StatusOffline 0 (w\<lparr>w_store := s\<rparr>)"
  have "pinv (outlets ?w)" using assms(1) by (simp add: winv_def)
  then obtain h b where p: "Pub (svc_publisher svc) (env_sched env i) (offline_event now ?i) (outlets ?w) = Some (h, b)"
    "publish svc (env_sched env i) (offline_event now ?i) ?w = Some (?w\<lparr>w_hub := h, w_bus := b\<rparr>)" "pinv (h, b)"
    by (rule publish_step)
  show thesis
    using p dev_s status_frame [OF inv s] assms(3) s
    by (intro that [of "?w\<lparr>w_hub := h, w_bus := b\<rparr>"]) (simp_all add: winv_def stale_def)
qed

lemma reconcile_loop_spec:
  assumes "winv w" "distinct (map dev_ID ds)" "\<forall>d \<in> set ds. dev (w_store w) (dev_ID d) = Some d"
  shows "\<exists>w'. reconcile_loop svc env now i ds w = Some w' \<and> winv w'
    \<and> dev (w_store w') = (\<lambda>k. if k \<in> dev_ID ` set ds
         then map_option (sweep svc now) (dev (w_store w) k) else dev (w_store w) k)
    \<and> tel (w_store w') = tel (w_store w) \<and> alr (w_store w') = alr (w_store w)
    \<and> w_engine w' = w_engine w
    \<and> publish_all (svc_publisher svc) (sweep_events svc env now i ds) (outlets w) = Some (outlets w')"
  using assms
proof (induction ds arbitrary: i w)
  case Nil
  then show ?case by (simp add: sweep_events_def)
next
  case (Cons d ds)
  let ?i = "dev_ID d"
  have d: "dev (w_store w) ?i = Some d" and inv: "inv (w_store w)"
    and rest: "distinct (map dev_ID ds)" "?i \<notin> dev_ID ` set ds"
    using Cons.prems by (simp_all add: winv_def)
  show ?case
  proof (cases "stale svc now d")
    case False
    note skip = reconcile_skip [OF this]
    have "(\<lambda>k. if k \<in> dev_ID ` set (d # ds) then map_option (sweep svc now)
        (dev (w_store w) k) else dev (w_store w) k) = (\<lambda>k. if k \<in> dev_ID ` set ds
        then map_option (sweep svc now) (dev (w_store w) k) else dev (w_store w) k)"
      using d skip(2) by (simp add: fun_eq_iff)
    then show ?thesis
      using Cons.IH [OF Cons.prems(1) rest(1), of "Suc i"] Cons.prems(3) skip by simp
  next
    case True
    obtain v where v: "winv v" "dev (w_store v) = (dev (w_store w))(?i \<mapsto> sweep svc now d)"
      "tel (w_store v) = tel (w_store w)" "alr (w_store v) = alr (w_store w)" "w_engine v = w_engine w"
      "\<forall>ds. reconcile_loop svc env now i (d # ds) w = reconcile_loop svc env now (Suc i) ds v"
      "Pub (svc_publisher svc) (env_sched env i) (offline_event now ?i) (outlets w) = Some (outlets v)"
      by (rule reconcile_mark [OF Cons.prems(1) d True, of env i])
    have "dev_ID e \<noteq> ?i" if "e \<in> set ds" for e using that rest(2) by (metis imageI)
    then have known: "\<forall>e \<in> set ds. dev (w_store v) (dev_ID e) = Some e" using Cons.prems(3) by (simp add: v(2))
    have ev: "sweep_events svc env now i (d # ds)
        = (env_sched env i, offline_event now ?i) # sweep_events svc env now (Suc i) ds"
      using True by (simp add: sweep_events_def)
    from Cons.IH [OF v(1) rest(1) known, of "Suc i"] obtain w' where w': "winv w'"
      "reconcile_loop svc env now (Suc i) ds v = Some w'"
      "dev (w_store w') = (\<lambda>k. if k \<in> dev_ID ` set ds
         then map_option (sweep svc now) (dev (w_store v) k) else dev (w_store v) k)"
      "tel (w_store w') = tel (w_store v)" "alr (w_store w') = alr (w_store v)" "w_engine w' = w_engine v"
      "publish_all (svc_publisher svc) (sweep_events svc env now (Suc i) ds) (outlets v) = Some (outlets w')"
      by blast
    have "dev (w_store w') = (\<lambda>k. if k \<in> dev_ID ` set (d # ds)
        then map_option (sweep svc now) (dev (w_store w) k) else dev (w_store w) k)"
      unfolding w'(3) v(2) using rest(2) d by (simp add: fun_eq_iff)
    with w' v(3-7) ev show ?thesis by simp
  qed
qed

lemma reconcile_spec:
  assumes "winv w"
  shows "\<exists>w'. svc_ReconcileStatuses svc env w = Some w' \<and> winv w'
    \<and> dev (w_store w') = map_option (sweep svc (env_now env 0)) \<circ> dev (w_store w)
    \<and> tel (w_store w') = tel (w_store w) \<and> alr (w_store w') = alr (w_store w)
    \<and> w_engine w' = w_engine w
    \<and> publish_all (svc_publisher svc) (sweep_events svc env (env_now env 0) 2
         (ListDevices (svc_store svc) (env_sched env 0) (env_sched env 1) (w_store w)))
        (outlets w) = Some (outlets w')"
proof -
  let ?ds = "ListDevices (svc_store svc) (env_sched env 0) (env_sched env 1) (w_store w)"
  have inv: "inv (w_store w)" using assms by (simp add: winv_def)
  have known: "\<forall>d \<in> set ?ds. dev (w_store w) (dev_ID d) = Some d"
    using list_lookup [OF inv] by blast
  have all: "k \<in> dev_ID ` set ?ds" if "dev (w_store w) k = Some d" for k d
    using list_set [OF inv] dev_keyed [OF inv that] that by (metis imageI ranI)
  have "(\<lambda>k. if k \<in> dev_ID ` set ?ds then map_option (sweep svc now) (dev (w_store w) k)
      else dev (w_store w) k) = map_option (sweep svc now) \<circ> dev (w_store w)" for now
  proof
    show "(if k \<in> dev_ID ` set ?ds then map_option (sweep svc now) (dev (w_store w) k)
        else dev (w_store w) k) = (map_option (sweep svc now) \<circ> dev (w_store w)) k" for k
      using all [of k] by (cases "dev (w_store w) k") simp_all
  qed
  with reconcile_loop_spec [OF assms list_distinct [OF inv] known] show ?thesis
    by (simp add: svc_ReconcileStatuses_def)
qed

lemma register_spec:
  assumes "winv w" "dev (w_store w) (env_id env 0) = None"
  shows "\<exists>d w'. svc_RegisterDevice svc env req w = Some (Inr d, w') \<and> winv w'
    \<and> dev_ID d = env_id env 0 \<and> dev_Name d = reg_Name req \<and> dev_Type d = reg_Type req
    \<and> dev_Location d = reg_Location req \<and> dev_Metadata d = reg_Metadata req
    \<and> dev_Status d = StatusUnknown \<and> dev_RegisteredAt d = env_now env 0 \<and> dev_LastSeenAt d = 0
    \<and> dev (w_store w') = (dev (w_store w))(dev_ID d \<mapsto> kept_device keep d)
    \<and> tel (w_store w') = tel (w_store w) \<and> alr (w_store w') = alr (w_store w)
    \<and> publish_all (svc_publisher svc) [(env_sched env 0, \<lparr>ev_Type = ''device'',
         ev_DeviceID = dev_ID d, ev_Payload = PDevice d, ev_Timestamp = dev_RegisteredAt d\<rparr>)]
        (outlets w) = Some (outlets w')"
proof -
  define d where "d = \<lparr>dev_ID = env_id env 0, dev_Name = reg_Name req, dev_Type = reg_Type req,
    dev_Location = reg_Location req, dev_Metadata = reg_Metadata req,
    dev_Status = StatusUnknown, dev_RegisteredAt = env_now env 0, dev_LastSeenAt = 0\<rparr>"
  have inv: "inv (w_store w)" using assms by (simp add: winv_def)
  have new: "dev (w_store w) (dev_ID d) = None" using assms(2) by (simp add: d_def)
  obtain s where s: "CreateDevice (svc_store svc) (w_store w) d = (None, s)"
    using create_fresh [OF inv new] by (metis surj_pair)
  note law = create_fresh [OF inv new s] create_frame [OF inv s]
  let ?w = "cacheStatus svc (env_now env 1) (dev_ID d) (dev_Status d) 0 (w\<lparr>w_store := s\<rparr>)"
  let ?e = "\<lparr>ev_Type = ''device'', ev_DeviceID = dev_ID d, ev_Payload = PDevice d,
    ev_Timestamp = env_now env 0\<rparr>"
  have "pinv (outlets ?w)" using assms by (simp add: winv_def)
  then obtain h b where p: "Pub (svc_publisher svc) (env_sched env 0) ?e (outlets ?w) = Some (h, b)"
    "publish svc (env_sched env 0) ?e ?w = Some (?w\<lparr>w_hub := h, w_bus := b\<rparr>)" "pinv (h, b)"
    by (rule publish_step)
  have "svc_RegisterDevice svc env req w = Some (Inr d, ?w\<lparr>w_hub := h, w_bus := b\<rparr>)"
    using s p by (simp add: svc_RegisterDevice_def d_def [symmetric] Let_def)
  then show ?thesis
    using p law by (auto simp: winv_def d_def)
qed

lemma register_taken:
  assumes "winv w" "dev (w_store w) (env_id env 0) \<noteq> None"
  shows "svc_RegisterDevice svc env req w = Some (Inl ErrDeviceExists, w)"
  using assms create_taken [of "w_store w"]
  by (simp add: svc_RegisterDevice_def winv_def Let_def)

end

section \<open>The local hub as publisher\<close>

lemma take_absorb: "take n (take n xs @ ys) = take n (xs @ ys)"
  by (cases "length xs \<le> n") auto

lemma fold_deliver:
  "chan_ok c \<Longrightarrow> fold deliver es c = c\<lparr>ch_buf := take (ch_cap c) (ch_buf c @ es)\<rparr>"
proof (induction es arbitrary: c)
  case (Cons e es)
  have step: "ch_cap (deliver e c) = ch_cap c"
    "deliver e c = c\<lparr>ch_buf := take (ch_cap c) (ch_buf c @ [e])\<rparr>"
    using Cons.prems by (auto simp: deliver_def enq_def can_send_def chan_ok_def)
  have "chan_ok (deliver e c)" by (simp add: step chan_ok_def)
  from Cons.IH [OF this] have "fold deliver (e # es) c = (deliver e c)\<lparr>ch_buf :=
      take (ch_cap c) (take (ch_cap c) (ch_buf c @ [e]) @ es)\<rparr>"
    by (simp add: step del: take_append)
  also have "\<dots> = c\<lparr>ch_buf := take (ch_cap c) (ch_buf c @ e # es)\<rparr>"
    unfolding take_absorb by (simp add: step(2) del: take_append)
  finally show ?case .
qed (simp add: chan_ok_def)

interpretation hub_pub: publisher_contract hub_publisher "\<lambda>x. hub_wf (fst x)"
proof
  fix x :: "Hub \<times> 'b" and p e
  assume "hub_wf (fst x)"
  from Broadcast_ok [OF this, of p e] show "\<exists>y. Pub hub_publisher p e x = Some y \<and> hub_wf (fst y)"
    by (auto simp: hub_publisher_def split: prod.splits)
qed

lemma publish_all_hub:
  assumes "hub_wf h" "publish_all hub_publisher es (h, b) = Some (h', b')"
  shows "b' = b \<and> hub_subscribers h' = hub_subscribers h \<and> (\<forall>k. fmlookup (hub_chans h') k =
    (if subscribed h k then map_option (fold deliver (map snd es)) (fmlookup (hub_chans h) k)
     else fmlookup (hub_chans h) k))"
  using assms
proof (induction es arbitrary: h)
  case Nil
  then show ?case by (simp add: option.map_id0 id_def [symmetric])
next
  case (Cons pe es)
  obtain p e where pe: "pe = (p, e)" by force
  from Broadcast_ok [OF Cons.prems(1), of p e] obtain h1 where h1: "Broadcast p h e = Some h1"
    "hub_wf h1" "hub_subscribers h1 = hub_subscribers h"
    "\<forall>k. fmlookup (hub_chans h1) k =
        (if subscribed h k then map_option (deliver e) (fmlookup (hub_chans h) k)
         else fmlookup (hub_chans h) k)"
    by blast
  have "publish_all hub_publisher es (h1, b) = Some (h', b')"
    using Cons.prems(2) h1(1) by (simp add: pe hub_publisher_def)
  from Cons.IH [OF h1(2) this] h1 show ?case
    by (simp add: pe subscribed_def option.map_comp comp_def)
qed

text \<open>What a subscriber finds in its buffer after a sequence of published events.\<close>

lemma subscriber_sees:
  assumes "hub_wf h" "publish_all hub_publisher es (h, b) = Some (h', b')"
    and "subscribed h ch" "fmlookup (hub_chans h) ch = Some c"
  shows "fmlookup (hub_chans h') ch =
    Some (c\<lparr>ch_buf := take (ch_cap c) (ch_buf c @ map snd es)\<rparr>)"
  using publish_all_hub [OF assms(1,2)] assms(3,4) hub_wfD(2) [OF assms(1,4)]
  by (simp add: fold_deliver chan_good_def)

section \<open>The service on the in-memory store\<close>

definition local_service :: "'c StatusCache option \<Rightarrow> duration \<Rightarrow> (MemoryStore, 'c, 'b) Service" where
  "local_service c n = svc_New mem_store n [WithStatusCache c]"

lemma local_service_fields [simp]:
  "svc_store (local_service c n) = mem_store" "svc_publisher (local_service c n) = hub_publisher"
  "svc_cache (local_service c n) = c"
  "svc_offlineAfter (local_service c n) = (if n \<le> 0 then 30 * Second else n)"
  by (simp_all add: local_service_def svc_New_def WithStatusCache_def)

interpretation loc: service "local_service c n" id mem_wf "\<lambda>s. fmlookup (ms_devices s)"
  "\<lambda>s k. mset (series_of (ms_telemetry s) k)" "\<lambda>s k. mset (series_of (ms_alerts s) k)"
  ms_maxHistory "\<lambda>x. hub_wf (fst x)"
  for c :: "'c StatusCache option" and n :: duration
  unfolding service_def local_service_fields
  by (intro conjI mem.store_contract_axioms hub_pub.publisher_contract_axioms)

lemma fold_AddAlert:
  assumes "\<forall>a \<in> set as. al_DeviceID a = k"
  shows "series_of (ms_alerts (fold (\<lambda>a s. snd (mem_AddAlert s a)) as s)) j =
      (if j = k then series_of (ms_alerts s) k @ as else series_of (ms_alerts s) j)
    \<and> ms_telemetry (fold (\<lambda>a s. snd (mem_AddAlert s a)) as s) = ms_telemetry s"
  using assms by (induction as arbitrary: s) (auto simp: mem_AddAlert_def)

lemma publish_all_subs:
  assumes "hub_wf (w_hub w)" "publish_all hub_publisher es (outlets w) = Some (outlets w')"
  shows "subscribed (w_hub w) ch \<and> fmlookup (hub_chans (w_hub w)) ch = Some cc \<Longrightarrow>
    fmlookup (hub_chans (w_hub w')) ch =
      Some (cc\<lparr>ch_buf := take (ch_cap cc) (ch_buf cc @ map snd es)\<rparr>)"
  using subscriber_sees [OF assms(1), of es "w_bus w" "w_hub w'" "w_bus w'"] assms(2)
  by (simp add: outlets_def)

lemma local_process:
  assumes "mem_wf (w_store w)" "hub_wf (w_hub w)"
    and "fmlookup (ms_devices (w_store w)) (tel_DeviceID t) = Some d"
    and "as = Evaluate (env_isPrint env) (env_id env) (\<lambda>i. env_now env (Suc i)) (w_engine w) t"
  shows "\<exists>w'. svc_processTelemetry (local_service c n) env t w = Some w'
    \<and> mem_wf (w_store w') \<and> hub_wf (w_hub w')
    \<and> fmlookup (ms_devices (w_store w')) (tel_DeviceID t) = Some (d\<lparr>dev_Status := StatusOnline,
         dev_LastSeenAt := (if IsZero (tel_Timestamp t) then dev_LastSeenAt d else tel_Timestamp t)\<rparr>)
    \<and> series_of (ms_telemetry (w_store w')) (tel_DeviceID t) = capped (ms_maxHistory (w_store w))
         (series_of (ms_telemetry (w_store w)) (tel_DeviceID t) @ [t])
    \<and> series_of (ms_alerts (w_store w')) (tel_DeviceID t)
        = series_of (ms_alerts (w_store w)) (tel_DeviceID t) @ as
    \<and> (\<forall>k. k \<noteq> tel_DeviceID t \<longrightarrow>
        fmlookup (ms_devices (w_store w')) k = fmlookup (ms_devices (w_store w)) k
        \<and> series_of (ms_telemetry (w_store w')) k = series_of (ms_telemetry (w_store w)) k
        \<and> series_of (ms_alerts (w_store w')) k = series_of (ms_alerts (w_store w)) k)
    \<and> (\<forall>ch cc. subscribed (w_hub w) ch \<and> fmlookup (hub_chans (w_hub w)) ch = Some cc \<longrightarrow>
        fmlookup (hub_chans (w_hub w')) ch = Some (cc\<lparr>ch_buf :=
          take (ch_cap cc) (ch_buf cc @ telemetry_event t # map alert_event as)\<rparr>))"
proof -
  let ?svc = "local_service c n"
  let ?es = "map (\<lambda>(j, e). (env_sched env j, e)) (enumerate 0 (telemetry_event t # map alert_event as))"
  have winv: "loc.winv w" using assms by (simp add: loc.winv_def outlets_def)
  from loc.process_known [OF winv assms(3), of c n env, folded assms(4), unfolded local_service_fields id_apply]
  obtain w' where w': "svc_processTelemetry ?svc env t w = Some w'" "loc.winv w'"
    "w_store w' = fold (\<lambda>a s. snd (AddAlert mem_store s a)) as
       (snd (UpdateDeviceStatus mem_store (snd (AddTelemetry mem_store (w_store w) t))
          (tel_DeviceID t) StatusOnline (tel_Timestamp t)))"
    "fmlookup (ms_devices (w_store w')) = (fmlookup (ms_devices (w_store w)))(tel_DeviceID t \<mapsto>
       d\<lparr>dev_Status := StatusOnline, dev_LastSeenAt :=
          (if IsZero (tel_Timestamp t) then dev_LastSeenAt d else tel_Timestamp t)\<rparr>)"
    "publish_all hub_publisher ?es (outlets w) = Some (outlets w')"
    by blast
  let ?s = "snd (mem_UpdateDeviceStatus (snd (mem_AddTelemetry (w_store w) t)) (tel_DeviceID t)
      StatusOnline (tel_Timestamp t))"
  have same: "ms_telemetry ?s = ms_telemetry (snd (mem_AddTelemetry (w_store w) t))"
    "ms_alerts ?s = ms_alerts (w_store w)"
    using assms(3) by (simp_all add: mem_UpdateDeviceStatus_def mem_AddTelemetry_capped Let_def)
  have "\<forall>a \<in> set as. al_DeviceID a = tel_DeviceID t" using Evaluate_device assms(4) by blast
  note store = fold_AddAlert [OF this, of ?s, unfolded same]
  have st: "w_store w' = fold (\<lambda>a s. snd (mem_AddAlert s a)) as ?s"
    using w'(3) by (simp add: mem_store_def)
  have "map snd ?es = telemetry_event t # map alert_event as"
    by (simp add: case_prod_unfold comp_def enumerate_eq_zip zip_map2)
  note heard = publish_all_subs [OF assms(2) w'(5), unfolded this]
  have inv': "mem_wf (w_store w')" "hub_wf (w_hub w')"
    using w'(2) by (simp_all add: loc.winv_def outlets_def)
  show ?thesis
    using w'(1,4) inv' store heard assms(3)
    by (intro exI [of _ w']) (simp add: st series_AddTelemetry)
qed

text \<open>
  C5: Processing a sample of a registered device: the device is online and last seen at the
  sample's time, the sample is the last point of its bounded history, exactly the alerts the
  engine raises for it are appended to its alerts, every subscriber gets the telemetry event
  followed by one event per alert as far as its buffer has room, and no other device is
  touched.
\<close>

theorem process_telemetry_effect:
  assumes "mem_wf (w_store w)" "hub_wf (w_hub w)"
    and "fmlookup (ms_devices (w_store w)) (tel_DeviceID t) = Some d"
    and "as = Evaluate (env_isPrint env) (env_id env) (\<lambda>i. env_now env (Suc i)) (w_engine w) t"
  shows "\<exists>w'. svc_processTelemetry (local_service c n) env t w = Some w'
    \<and> mem_wf (w_store w') \<and> hub_wf (w_hub w')
    \<and> fmlookup (ms_devices (w_store w')) (tel_DeviceID t) = Some (d\<lparr>dev_Status := StatusOnline,
         dev_LastSeenAt := (if IsZero (tel_Timestamp t) then dev_LastSeenAt d else tel_Timestamp t)\<rparr>)
    \<and> series_of (ms_telemetry (w_store w')) (tel_DeviceID t) = capped (ms_maxHistory (w_store w))
         (series_of (ms_telemetry (w_store w)) (tel_DeviceID t) @ [t])
    \<and> series_of (ms_alerts (w_store w')) (tel_DeviceID t)
        = series_of (ms_alerts (w_store w)) (tel_DeviceID t) @ as
    \<and> (\<forall>k. k \<noteq> tel_DeviceID t \<longrightarrow>
        fmlookup (ms_devices (w_store w')) k = fmlookup (ms_devices (w_store w)) k
        \<and> series_of (ms_telemetry (w_store w')) k = series_of (ms_telemetry (w_store w)) k
        \<and> series_of (ms_alerts (w_store w')) k = series_of (ms_alerts (w_store w)) k)
    \<and> (\<forall>ch cc. subscribed (w_hub w) ch \<and> fmlookup (hub_chans (w_hub w)) ch = Some cc \<longrightarrow>
        fmlookup (hub_chans (w_hub w')) ch = Some (cc\<lparr>ch_buf :=
          take (ch_cap cc) (ch_buf cc @ telemetry_event t # map alert_event as)\<rparr>))"
  by (rule local_process [OF assms])

definition sample_env :: env where
  "sample_env = \<lparr>env_now = (\<lambda>i. 100 * Second + int i), env_id = (\<lambda>i. replicate (Suc i) CHR ''x''),
     env_sched = (\<lambda>_. []), env_pick = True, env_isPrint = (\<lambda>_. False)\<rparr>"

definition sample_world :: "(MemoryStore, unit, unit) world" where
  "sample_world = \<lparr>w_store = sample_store 2, w_cache = (), w_hub = snd (Subscribe (NewHub 4)),
     w_bus = (), w_engine = default_engine\<rparr>"

lemma sample_world_ok: "mem_wf (w_store sample_world)" "hub_wf (w_hub sample_world)"
  by (simp_all add: sample_world_def sample_store_wf Subscribe_wf NewHub_wf)

lemma sample_hub_chan:
  "subscribed (snd (Subscribe (NewHub 4))) 0
   \<and> fmlookup (hub_chans (snd (Subscribe (NewHub 4)))) 0 = Some (make_chan 4)"
  by (simp add: Subscribe_def NewHub_def subscribed_def)

lemma sample_point_alerts:
  "length (Evaluate isPrint ids clock default_engine (sample_point i ts)) = 1"
  by (simp add: length_Evaluate default_engine_def NewEngine_def triggers_def sample_point_def
      breached_def fgt_def flt.simps)

theorem process_telemetry_effect_witness:
  "\<exists>w'. svc_processTelemetry (local_service None 0) sample_env (sample_point ''d1'' 7) sample_world
      = Some w'
    \<and> map_option dev_Status (fmlookup (ms_devices (w_store w')) ''d1'') = Some StatusOnline
    \<and> length (series_of (ms_alerts (w_store w')) ''d1'') = 1
    \<and> map_option (length \<circ> ch_buf) (fmlookup (hub_chans (w_hub w')) 0) = Some 2"
proof -
  have known: "fmlookup (ms_devices (w_store sample_world)) (tel_DeviceID (sample_point ''d1'' 7))
      = Some sample_device"
    by (simp add: sample_world_def sample_store_device sample_point_def)
  have none: "series_of (ms_alerts (w_store sample_world)) ''d1'' = []"
    by (simp add: sample_world_def sample_store_def mem_CreateDevice_def NewMemoryStore_def)
  have eng: "w_engine sample_world = default_engine" by (simp add: sample_world_def)
  have chan: "subscribed (w_hub sample_world) 0 \<and>
      fmlookup (hub_chans (w_hub sample_world)) 0 = Some (make_chan 4)"
    using sample_hub_chan by (simp add: sample_world_def)
  show ?thesis
    using process_telemetry_effect [OF sample_world_ok known refl, of None 0 sample_env] chan none
      sample_point_alerts
    by (fastforce simp: eng sample_point_def make_chan_def)
qed

text \<open>
  A sample for a device that is not registered is dropped whole: nothing is stored, no
  status changes, nothing is published and no alert is raised.
\<close>

theorem process_telemetry_unknown:
  assumes "mem_wf (w_store w)" "hub_wf (w_hub w)"
    and "fmlookup (ms_devices (w_store w)) (tel_DeviceID t) = None"
  shows "svc_processTelemetry (local_service c n) env t w = Some w"
  using loc.process_unknown [of w t] assms by (simp add: loc.winv_def outlets_def)

theorem process_telemetry_unknown_witness:
  "svc_processTelemetry (local_service None 0) sample_env (sample_point ''ghost'' 7) sample_world
   = Some sample_world"
  by (rule process_telemetry_unknown [OF sample_world_ok])
    (simp add: sample_world_def sample_point_def sample_store_def mem_CreateDevice_def
      NewMemoryStore_def sample_device_def)

text \<open>
  C16: One sweep of the reconciler marks offline exactly the devices that have been seen, were
  last seen more than \<open>offlineAfter\<close> ago and are not offline yet; it keeps their last-seen
  time, changes nothing else in the store, and does so for every iteration order of the
  store's map.
\<close>

theorem reconcile_exact:
  assumes "mem_wf (w_store w)" "hub_wf (w_hub w)"
  shows "\<exists>w'. svc_ReconcileStatuses (local_service c n) env w = Some w'
    \<and> mem_wf (w_store w') \<and> hub_wf (w_hub w')
    \<and> (\<forall>i. fmlookup (ms_devices (w_store w')) i = map_option
        (\<lambda>d. if \<not> IsZero (dev_LastSeenAt d) \<and> dev_Status d \<noteq> StatusOffline
               \<and> (if n \<le> 0 then 30 * Second else n) < Sub (env_now env 0) (dev_LastSeenAt d)
             then d\<lparr>dev_Status := StatusOffline\<rparr> else d)
        (fmlookup (ms_devices (w_store w)) i))
    \<and> (\<forall>k. mset (series_of (ms_telemetry (w_store w')) k) = mset (series_of (ms_telemetry (w_store w)) k)
         \<and> mset (series_of (ms_alerts (w_store w')) k) = mset (series_of (ms_alerts (w_store w)) k))"
proof -
  have winv: "loc.winv w" using assms by (simp add: loc.winv_def outlets_def)
  have sw: "sweep (local_service c n) now = (\<lambda>d. if \<not> IsZero (dev_LastSeenAt d)
      \<and> dev_Status d \<noteq> StatusOffline \<and> (if n \<le> 0 then 30 * Second else n) < Sub now (dev_LastSeenAt d)
      then d\<lparr>dev_Status := StatusOffline\<rparr> else d)" for now
    by (auto simp: sweep_def stale_def fun_eq_iff)
  show ?thesis
    using loc.reconcile_spec [OF winv, of c n env] unfolding sw
    by (auto simp: loc.winv_def outlets_def fun_eq_iff)
qed

definition stale_world :: "(MemoryStore, unit, unit) world" where
  "stale_world = sample_world\<lparr>w_store := snd (mem_UpdateDeviceStatus (sample_store 2) ''d1'' StatusOnline 5)\<rparr>"

lemma stale_world_ok:
  "mem_wf (w_store stale_world)" "hub_wf (w_hub stale_world)"
  "fmlookup (ms_devices (w_store stale_world)) ''d1''
      = Some (sample_device\<lparr>dev_Status := StatusOnline, dev_LastSeenAt := 5\<rparr>)"
  using wf_UpdateDeviceStatus [OF sample_store_wf, of 2 "''d1''" StatusOnline 5] sample_world_ok(2)
  by (simp_all add: stale_world_def prod_eq_iff mem_UpdateDeviceStatus_def sample_store_device Let_def IsZero_def)

theorem reconcile_exact_witness:
  "\<exists>w'. svc_ReconcileStatuses (local_service None 0) sample_env stale_world = Some w'
    \<and> map_option dev_Status (fmlookup (ms_devices (w_store w')) ''d1'') = Some StatusOffline"
  using reconcile_exact [OF stale_world_ok(1,2), of None 0 sample_env] stale_world_ok(3)
  by (auto simp: sample_env_def IsZero_def Sub_def max_duration_def min_duration_def
      duration_units status_defs)



end
