(* ===== verification/Redis_Correct.thy ===== *)
theory Redis_Correct
  imports Redis Service_Correct
begin

text \<open>
  What Redis guarantees as status cache and as event bus. The locale \<open>status_cache\<close> is the
  contract the service relies on, \<open>redis_client\<close> a client with the documented behaviour, over
  which the code of the cache keeps that contract.
\<close>

section \<open>The contract of a status cache\<close>

text \<open>
  \<open>entry c i\<close> is the cached status of a device, when it was last seen, and when the entry
  expires; \<open>writable\<close> says which values can be cached.
\<close>

locale status_cache =
  fixes cache :: "'c StatusCache" and cinv :: "'c \<Rightarrow> bool"
    and entry :: "'c \<Rightarrow> string \<rightharpoonup> DeviceStatus \<times> time \<times> time"
    and life :: duration and writable :: "DeviceStatus \<Rightarrow> time \<Rightarrow> bool"
  assumes cache_set: "\<lbrakk>cinv c; writable st seen; SetDeviceStatus cache now c i st seen = (e, c')\<rbrakk>
      \<Longrightarrow> e = None \<and> cinv c' \<and> entry c' = (entry c)(i \<mapsto> (st, seen, now + life))"
    and cache_set_keeps: "cinv c \<Longrightarrow> cinv (snd (SetDeviceStatus cache now c i st seen))"
    and cache_get: "cinv c \<Longrightarrow> GetDeviceStatus cache now c i = Inr (case entry c i of
        Some (st, seen, ex) \<Rightarrow> if now < ex then (st, seen, True) else ('''', 0, False)
      | None \<Rightarrow> ('''', 0, False))"
begin

lemma get_after_set:
  assumes "cinv c" "writable st seen"
  shows "GetDeviceStatus cache now' (snd (SetDeviceStatus cache now c i st seen)) j =
    (if i = j then Inr (if now' < now + life then (st, seen, True) else ('''', 0, False))
     else GetDeviceStatus cache now' c j)"
proof -
  obtain e c' where run: "SetDeviceStatus cache now c i st seen = (e, c')" by force
  note set = cache_set [OF assms run]
  then show ?thesis using run cache_get [of c' now' j] cache_get [OF assms(1), of now' j] by simp
qed

text \<open>Reading a device through the cache.\<close>

lemma read_through:
  assumes "svc_cache svc = Some cache" "cinv (w_cache w)" "GetDevice (svc_store svc) (w_store w) i = Inr d"
  shows "svc_GetDevice svc env i w = Inr (case entry (w_cache w) i of
      Some (st, seen, ex) \<Rightarrow>
        if env_now env 0 < ex
        then d\<lparr>dev_Status := st, dev_LastSeenAt := (if IsZero seen then dev_LastSeenAt d else seen)\<rparr>
        else d
    | None \<Rightarrow> d)"
  using assms by (auto simp: svc_GetDevice_def cache_get Let_def split: option.splits)

end

section \<open>Redis as a status cache\<close>

lemma redis_okD:
  assumes "redis_ok R entries up sent"
  shows "set_spec R entries up" "get_spec R entries up" "publish_spec R sent"
  using assms by (simp_all add: redis_ok_def)

definition cacheable :: "(time \<Rightarrow> int) \<Rightarrow> DeviceStatus \<Rightarrow> time \<Rightarrow> bool" where
  "cacheable z st seen \<longleftrightarrow> valid_utf8 st \<and> marshal_time (z seen) seen \<noteq> None"

lemma statusEntry_round_trip:
  assumes "enc_statusEntry z e = Some j" "valid_utf8 (se_Status e)"
  shows "dec_statusEntry (Some j) = Some e"
proof -
  obtain s where s: "marshal_time (z (se_LastSeen e)) (se_LastSeen e) = Some s"
    using assms(1) by (auto simp: enc_statusEntry_def enc_struct_def enc_time_def split: option.splits)
  then have "j = JObj [(''status'', JStr (se_Status e)), (''last_seen'', JStr s)]"
    using assms by (simp add: enc_statusEntry_def enc_struct_def enc_time_def enc_string_def valid_utf8_def)
  then show ?thesis
    using marshal_time_round_trip [OF s]
    by (simp add: dec_statusEntry_def dec_struct_def dec_string_def dec_time_def fold_char_def)
qed

text \<open>Whatever is under the keys of the cache was written by it.\<close>

definition cache_inv :: "('c \<Rightarrow> string \<rightharpoonup> json option \<times> time) \<Rightarrow> ('c \<Rightarrow> bool) \<Rightarrow> 'c \<Rightarrow> bool" where
  "cache_inv entries up c \<longleftrightarrow> up c
     \<and> (\<forall>i v ex. entries c (statusKeyPrefix @ i) = Some (v, ex) \<longrightarrow> dec_statusEntry v \<noteq> None)"

definition cache_entry :: "('c \<Rightarrow> string \<rightharpoonup> json option \<times> time) \<Rightarrow> 'c
    \<Rightarrow> string \<rightharpoonup> DeviceStatus \<times> time \<times> time" where
  "cache_entry entries c i = (case entries c (statusKeyPrefix @ i) of
     None \<Rightarrow> None
   | Some (v, ex) \<Rightarrow> map_option (\<lambda>e. (se_Status e, se_LastSeen e, ex)) (dec_statusEntry v))"

locale redis_client =
  fixes R :: "('c, 'b) redis" and entries :: "'c \<Rightarrow> string \<rightharpoonup> json option \<times> time"
    and up :: "'c \<Rightarrow> bool" and sent :: "'b \<Rightarrow> (string \<times> json option) list"
    and z :: "time \<Rightarrow> int" and r :: Redis
  assumes documented: "redis_ok R entries up sent" and ttl_positive: "0 < rds_ttl r"
begin

lemma set_status:
  assumes "cache_inv entries up c" "enc_statusEntry z \<lparr>se_Status = st, se_LastSeen = seen\<rparr> = Some j"
  obtains c' where "rds_SetDeviceStatus R z r now c i st seen = (None, c')" "up c'"
    "entries c' = (entries c)(statusKeyPrefix @ i \<mapsto> (Some j, now + redis_life (rds_ttl r)))"
proof -
  from assms(1) have "up c" by (simp add: cache_inv_def)
  with redis_okD(1) [OF documented] ttl_positive obtain c' where
    "rd_Set R now c (statusKeyPrefix @ i) (Some j) (rds_ttl r) = (None, c')" "up c'"
    "entries c' = (entries c)(statusKeyPrefix @ i \<mapsto> (Some j, now + redis_life (rds_ttl r)))"
    unfolding set_spec_def by blast
  with assms(2) that show thesis by (simp add: rds_SetDeviceStatus_def)
qed

lemma redis_set:
  assumes "cache_inv entries up c" "cacheable z st seen"
    "rds_SetDeviceStatus R z r now c i st seen = (e, c')"
  shows "e = None \<and> cache_inv entries up c'
    \<and> cache_entry entries c' = (cache_entry entries c)(i \<mapsto> (st, seen, now + redis_life (rds_ttl r)))"
proof -
  let ?e = "\<lparr>se_Status = st, se_LastSeen = seen\<rparr>"
  from assms(2) obtain j where j: "enc_statusEntry z ?e = Some j"
    by (auto simp: cacheable_def enc_statusEntry_def enc_struct_def enc_time_def)
  from set_status [OF assms(1) j, where now = now and i = i] assms(3) have
    c': "e = None" "up c'"
      "entries c' = (entries c)(statusKeyPrefix @ i \<mapsto> (Some j, now + redis_life (rds_ttl r)))"
    by auto
  have dec: "dec_statusEntry (Some j) = Some ?e"
    using statusEntry_round_trip [OF j] assms(2) by (simp add: cacheable_def)
  have "cache_inv entries up c'" using assms(1) c' dec by (auto simp: cache_inv_def)
  moreover have "cache_entry entries c' = (cache_entry entries c)(i \<mapsto> (st, seen, now + redis_life (rds_ttl r)))"
    using c' dec by (auto simp: cache_entry_def fun_eq_iff)
  ultimately show ?thesis using c'(1) by blast
qed

lemma redis_set_keeps: "cache_inv entries up c \<Longrightarrow> cache_inv entries up (snd (rds_SetDeviceStatus R z r now c i st seen))"
proof (cases "enc_statusEntry z \<lparr>se_Status = st, se_LastSeen = seen\<rparr>")
  case (Some j)
  assume inv: "cache_inv entries up c"
  have "dec_statusEntry (Some j) \<noteq> None"
  proof -
    obtain s where s: "marshal_time (z seen) seen = Some s" "j = JObj [(''status'', JStr (to_valid st)), (''last_seen'', JStr s)]"
      using Some by (auto simp: enc_statusEntry_def enc_struct_def enc_time_def enc_string_def split: option.splits)
    then show ?thesis using marshal_time_round_trip [OF s(1)]
      by (simp add: dec_statusEntry_def dec_struct_def dec_string_def dec_time_def fold_char_def)
  qed
  moreover obtain c' where "rds_SetDeviceStatus R z r now c i st seen = (None, c')" "up c'"
    "entries c' = (entries c)(statusKeyPrefix @ i \<mapsto> (Some j, now + redis_life (rds_ttl r)))"
    by (rule set_status [OF inv Some])
  ultimately show ?thesis using inv by (auto simp: cache_inv_def)
qed (simp add: rds_SetDeviceStatus_def)

lemma redis_get:
  assumes "cache_inv entries up c"
  shows "rds_GetDeviceStatus R now c i = Inr (case cache_entry entries c i of
      Some (st, seen, ex) \<Rightarrow> if now < ex then (st, seen, True) else ('''', 0, False)
    | None \<Rightarrow> ('''', 0, False))"
proof -
  have "rd_Get R now c (statusKeyPrefix @ i) = (case entries c (statusKeyPrefix @ i) of
       Some (v, ex) \<Rightarrow> if now < ex then Inr v else Inl RedisNil | None \<Rightarrow> Inl RedisNil)"
    using redis_okD(2) [OF documented] assms by (simp add: get_spec_def cache_inv_def)
  moreover have "dec_statusEntry v \<noteq> None" if "entries c (statusKeyPrefix @ i) = Some (v, ex)" for v ex
    using that assms unfolding cache_inv_def by blast
  ultimately show ?thesis
    by (cases "entries c (statusKeyPrefix @ i)")
      (auto simp: rds_GetDeviceStatus_def cache_entry_def split: option.splits)
qed

end

sublocale redis_client \<subseteq> status_cache "redis_cache R z r" "cache_inv entries up" "cache_entry entries"
  "redis_life (rds_ttl r)" "cacheable z"
  by unfold_locales (simp_all add: redis_cache_def redis_set redis_set_keeps redis_get)

context redis_client
begin

lemma as_status_cache: "status_cache (redis_cache R z r) (cache_inv entries up) (cache_entry entries)
    (redis_life (rds_ttl r)) (cacheable z)"
  by unfold_locales

end

interpretation list_client: redis_client list_redis "\<lambda>c. c" "\<lambda>_. True" "\<lambda>b. b" z "\<lparr>rds_ttl = 5 * Minute\<rparr>"
  for z
  by unfold_locales (simp_all add: list_redis_ok duration_units)

lemma new_client:
  assumes "redis_ok R entries up sent" "rds_New R cfg = Inr (r, c0, b0)"
  shows "redis_client R entries up sent r"
    "rds_ttl r = (if rc_StatusTTL cfg \<le> 0 then 5 * Minute else rc_StatusTTL cfg)"
proof -
  show r: "rds_ttl r = (if rc_StatusTTL cfg \<le> 0 then 5 * Minute else rc_StatusTTL cfg)"
    using assms(2) by (auto simp: rds_New_def Let_def split: prod.splits option.splits)
  show "redis_client R entries up sent r"
    using assms(1) by (simp add: redis_client_def r duration_units)
qed

text \<open>
  C15: The status cache. After \<open>SetDeviceStatus\<close> with a status and an instant that can be
  written, \<open>GetDeviceStatus\<close> returns exactly these two until the entry expires, and a miss from
  then on; entries of other devices are not touched; a lifetime that is not positive is five
  minutes. A status that cannot be written is an error and leaves the cache as it was.
\<close>

theorem redis_status_cached:
  assumes "redis_ok R entries up sent" "rds_New R cfg = Inr (r, c0, b0)" "cache_inv entries up c"
    and "ttl = (if rc_StatusTTL cfg \<le> 0 then 5 * Minute else rc_StatusTTL cfg)" "valid_utf8 st"
  shows "if marshal_time (z seen) seen = None
    then \<exists>err. rds_SetDeviceStatus R z r now c i st seen = (Some err, c)
    else \<exists>c'. rds_SetDeviceStatus R z r now c i st seen = (None, c') \<and> cache_inv entries up c'
      \<and> (\<forall>later j. rds_GetDeviceStatus R later c' j =
           (if j \<noteq> i then rds_GetDeviceStatus R later c j
            else Inr (if later < now + redis_life ttl then (st, seen, True) else ('''', 0, False))))"
proof (cases "marshal_time (z seen) seen = None")
  case False
  note client = new_client(1) [OF assms(1,2)]
  have ttl: "rds_ttl r = ttl" using new_client(2) [OF assms(1,2)] assms(4) by simp
  have ok: "cacheable z st seen" using False assms(5) by (simp add: cacheable_def)
  obtain e c' where run: "rds_SetDeviceStatus R z r now c i st seen = (e, c')" by force
  with redis_client.redis_set [OF client assms(3) ok run]
    status_cache.get_after_set [OF redis_client.as_status_cache [OF client] assms(3) ok, of _ now i]
  show ?thesis using False by (auto simp: redis_cache_def ttl)
qed (simp add: rds_SetDeviceStatus_def enc_statusEntry_def enc_struct_def enc_time_def)

definition sample_redis_config :: RedisConfig where
  "sample_redis_config = \<lparr>rc_Addr = ''localhost:6379'', rc_Password = '''', rc_DB = 0, rc_StatusTTL = 0\<rparr>"

lemma sample_redis_new:
  "rds_New list_redis sample_redis_config = Inr (\<lparr>rds_ttl = 5 * Minute\<rparr>, \<lambda>_. None, [])"
  by (simp add: rds_New_def list_redis_def sample_redis_config_def)

theorem redis_status_cached_witness:
  "\<exists>c'. rds_SetDeviceStatus list_redis (\<lambda>_. 0) \<lparr>rds_ttl = 5 * Minute\<rparr> 7 (\<lambda>_. None) ''d1'' StatusOnline 5 = (None, c')
    \<and> rds_GetDeviceStatus list_redis 8 c' ''d1'' = Inr (StatusOnline, 5, True)"
proof -
  have "valid_utf8 StatusOnline" by (simp add: valid_utf8_def StatusOnline_def)
  from redis_status_cached [OF list_redis_ok sample_redis_new _ refl this, where z = "\<lambda>_. 0" and seen = 5
      and now = 7 and i = "''d1''" and c = "\<lambda>_. None"] marshal_time_defined [of 5]
  show ?thesis
    by (fastforce simp: cache_inv_def sample_redis_config_def redis_life_def duration_units day_nanos_def)
qed

section \<open>Redis as a publisher\<close>

interpretation redis_pub: publisher_contract "redis_publisher R z" "\<lambda>x. hub_wf (fst x)" for R z
  by unfold_locales (auto simp: redis_publisher_def)

section \<open>Redis as an event bus\<close>

text \<open>What an instance hears of an event that another one published.\<close>

definition received :: "(time \<Rightarrow> int) \<Rightarrow> Event \<Rightarrow> Event" where
  "received z e = e\<lparr>ev_Payload := PAny (generic z (ev_Payload e))\<rparr>"

definition audible :: "(time \<Rightarrow> int) \<Rightarrow> Event \<Rightarrow> bool" where
  "audible z e \<longleftrightarrow> enc_event z e \<noteq> None"

definition message :: "(time \<Rightarrow> int) \<Rightarrow> Event \<Rightarrow> string \<times> json option" where
  "message z e = (eventsChannel, enc_event z e)"

text \<open>What \<open>Subscribe\<close> meets when the messages arrive in the order in which they were published.\<close>

definition arrivals :: "sched list \<Rightarrow> (string \<times> json option) list \<Rightarrow> sub_turn list" where
  "arrivals ps msgs = map2 SubMsg ps (map snd (filter (\<lambda>(ch, _). ch = eventsChannel) msgs))"

lemma redis_publish_all:
  assumes "redis_ok R entries up sent"
  shows "\<exists>b'. publish_all (redis_publisher R z) es (h, b) = Some (h, b')
    \<and> sent b' = sent b @ map (message z) (filter (audible z) (map snd es))"
proof (induction es arbitrary: b)
  case (Cons pe es)
  obtain p e where [simp]: "pe = (p, e)" by force
  have "sent (rds_Broadcast R z e b) = (if audible z e then sent b @ [message z e] else sent b)"
    using redis_okD(3) [OF assms]
    by (auto simp: rds_Broadcast_def publish_spec_def audible_def message_def split: option.splits)
  with Cons.IH [of "rds_Broadcast R z e b"] show ?case by (simp add: redis_publisher_def split: if_splits)
qed simp

lemma subscribe_all:
  assumes "list_all event_ok es" "list_all (audible z) es" "length ps = length es"
  shows "subscribe_loop (\<lambda>p e h. Broadcast p h e) (arrivals ps (map (message z) es)) h
    = map_option (\<lambda>(h', b'). (Waiting, h')) (publish_all hub_publisher (zip ps (map (received z) es)) (h, b))"
  using assms
proof (induction es arbitrary: ps h)
  case Nil
  then show ?case by (simp add: arrivals_def)
next
  case (Cons e es)
  then obtain p ps' where ps: "ps = p # ps'" by (cases ps) auto
  obtain j where j: "enc_event z e = Some j" using Cons.prems(2) by (auto simp: audible_def)
  have dec: "dec_event (Some j) = Some (received z e)"
    using event_round_trip [OF _ j] Cons.prems(1) by (simp add: received_def)
  have turns: "arrivals (p # ps') (message z e # map (message z) es)
      = SubMsg p (Some j) # arrivals ps' (map (message z) es)"
    by (simp add: arrivals_def message_def j)
  show ?case
  proof (cases "Broadcast p h (received z e)")
    case (Some h1)
    with Cons.IH [of ps' h1] Cons.prems show ?thesis by (simp add: turns dec ps hub_publisher_def)
  qed (simp add: turns dec ps hub_publisher_def)
qed

text \<open>
  C14: The event bus. Publishing a sequence of events sends one message for each event that JSON
  can express, in order, and none for the others (a NaN or an infinity in the payload), and never
  blocks or fails. An instance that hears these messages broadcasts to its own hub the same
  events in the same order, with type, device and instant unchanged and the payload in generic
  form; each of its subscribers gets them as far as its buffer has room.
\<close>

theorem redis_fan_out:
  assumes "redis_ok R entries up sent" "list_all event_ok (map snd es)" "hub_wf h2"
    and "heard = filter (audible z) (map snd es)" "length ps = length heard"
  shows "\<exists>b' h'. publish_all (redis_publisher R z) es (h, b) = Some (h, b')
    \<and> sent b' = sent b @ map (message z) heard
    \<and> rds_Subscribe None (\<lambda>p e h. Broadcast p h e) (arrivals ps (drop (length (sent b)) (sent b'))) h2
        = Some (Waiting, h')
    \<and> hub_wf h'
    \<and> (\<forall>ch c. subscribed h2 ch \<and> fmlookup (hub_chans h2) ch = Some c \<longrightarrow>
         fmlookup (hub_chans h') ch =
           Some (c\<lparr>ch_buf := take (ch_cap c) (ch_buf c @ map (received z) heard)\<rparr>))"
proof -
  from redis_publish_all [OF assms(1)] obtain b' where b': "publish_all (redis_publisher R z) es (h, b) = Some (h, b')"
    "sent b' = sent b @ map (message z) heard" unfolding assms(4) by blast
  let ?es = "zip ps (map (received z) heard)"
  from hub_pub.publish_all_total [of "(h2, ())" ?es] assms(3) obtain h' where
    h': "publish_all hub_publisher ?es (h2, ()) = Some (h', ())" "hub_wf h'" by auto
  have "list_all event_ok heard" "list_all (audible z) heard"
    using assms(2,4) by (auto simp: list_all_iff)
  from subscribe_all [OF this assms(5), of h2 "()"] h' b'(2)
  have run: "rds_Subscribe None (\<lambda>p e h. Broadcast p h e) (arrivals ps (drop (length (sent b)) (sent b'))) h2
      = Some (Waiting, h')" by (simp add: rds_Subscribe_def)
  have "map snd ?es = map (received z) heard" using assms(5) by simp
  with subscriber_sees [OF assms(3) h'(1)] run b' h' show ?thesis by metis
qed

definition sample_status_event :: Event where
  "sample_status_event = \<lparr>ev_Type = ''status'', ev_DeviceID = ''d1'',
     ev_Payload = PFields (fmupd ''status'' ''offline'' fmempty), ev_Timestamp = 9\<rparr>"

lemma sample_status_event_ok: "event_ok sample_status_event" "audible (\<lambda>_. 0) sample_status_event"
proof -
  show "event_ok sample_status_event"
    by (auto simp: event_ok_def sample_status_event_def strings_ok_def valid_utf8_def intro!: fmpredI split: if_splits)
  have "marshal_time 0 9 \<noteq> None" using marshal_time_defined [of 9] by (auto simp: day_nanos_def)
  then show "audible (\<lambda>_. 0) sample_status_event"
    by (auto simp: audible_def enc_event_def enc_struct_def enc_time_def sample_status_event_def
        enc_strings_def enc_map_def sorted_list_of_fmap_def sorted_list_of_fset.rep_eq)
qed

theorem redis_fan_out_witness:
  "\<exists>b' h'. publish_all (redis_publisher list_redis (\<lambda>_. 0)) [([], sample_status_event)] (NewHub 1, []) = Some (NewHub 1, b')
    \<and> rds_Subscribe None (\<lambda>p e h. Broadcast p h e) (arrivals [[]] b') sample_hub = Some (Waiting, h')
    \<and> map_option ch_buf (fmlookup (hub_chans h') 0) = Some [received (\<lambda>_. 0) sample_status_event]"
proof -
  have chan: "subscribed sample_hub 0 \<and> fmlookup (hub_chans sample_hub) 0 = Some (make_chan 1)"
    by (simp add: sample_hub_def Subscribe_def NewHub_def subscribed_def)
  have "list_all event_ok (map snd [([] :: sched, sample_status_event)])"
    "[sample_status_event] = filter (audible (\<lambda>_. 0)) (map snd [([] :: sched, sample_status_event)])"
    using sample_status_event_ok by simp_all
  from redis_fan_out [OF list_redis_ok this(1) sample_hub_wf this(2), of "[[]]" "NewHub 1" "[]"] chan
  show ?thesis by (fastforce simp: make_chan_def)
qed

end
