(* ===== verification/Deployment.thy ===== *)
theory Deployment
  imports Mongo_Users Redis_Correct
begin

text \<open>
  The service as it runs in production, on MongoDB and Redis: the contracts of the MongoDB store,
  of the Redis publisher and of the Redis status cache together give what a client of the
  service sees.
\<close>

definition cloud_service :: "'db mongo \<Rightarrow> ('c, 'b) redis \<Rightarrow> (time \<Rightarrow> int) \<Rightarrow> Redis \<Rightarrow> duration
    \<Rightarrow> ('db MongoStore, 'c, 'b) Service" where
  "cloud_service M R z r n = svc_New (mongo_store M) n
     [WithPublisher (Some (redis_publisher R z)), WithStatusCache (Some (redis_cache R z r))]"

lemma cloud_service_fields [simp]:
  "svc_store (cloud_service M R z r n) = mongo_store M"
  "svc_publisher (cloud_service M R z r n) = redis_publisher R z"
  "svc_cache (cloud_service M R z r n) = Some (redis_cache R z r)"
  by (simp_all add: cloud_service_def svc_New_def WithPublisher_def WithStatusCache_def)

lemma cloud_service_contract:
  assumes "mongo_ok M docs uniq up"
  shows "service (cloud_service M R z r n) (mongo_Date M) (mongo_inv docs uniq up) (mdev docs)
    (mtel docs) (malr docs) mgs_maxHistory (\<lambda>x. hub_wf (fst x))"
  unfolding service_def cloud_service_fields
  using mongo_store_contract [OF assms] redis_pub.publisher_contract_axioms by blast

text \<open>
  C13: Processing a sample in production. The alerts raised are added to the alerts in MongoDB,
  one message per event that JSON can express goes out on the bus, telemetry first and then the
  alerts in the order of the rules, and the local hub is left to the subscription. From then on
  the device is online for every reader, last seen at the sample's time: to the nanosecond as
  long as the cache holds the status, in the precision of MongoDB afterwards.
\<close>

theorem cloud_process_telemetry:
  assumes "mongo_ok M docs uniq up" "redis_ok R entries rup sent" "rds_New R cfg = Inr (r, c0, b0)"
    and "mongo_inv docs uniq up (w_store w)" "cache_inv entries rup (w_cache w)" "hub_wf (w_hub w)"
    and "mdev docs (w_store w) (tel_DeviceID t) = Some d"
    and "marshal_time (z (tel_Timestamp t)) (tel_Timestamp t) \<noteq> None"
    and "as = Evaluate (env_isPrint env) (env_id env) (\<lambda>i. env_now env (Suc i)) (w_engine w) t"
  shows "\<exists>w'. svc_processTelemetry (cloud_service M R z r n) env t w = Some w'
    \<and> mongo_inv docs uniq up (w_store w') \<and> cache_inv entries rup (w_cache w') \<and> w_hub w' = w_hub w
    \<and> malr docs (w_store w') (tel_DeviceID t) = malr docs (w_store w) (tel_DeviceID t)
        + image_mset (kept_alert (mongo_Date M)) (mset as)
    \<and> sent (w_bus w') = sent (w_bus w)
        @ map (message z) (filter (audible z) (telemetry_event t # map alert_event as))
    \<and> (\<forall>env'. svc_GetDevice (cloud_service M R z r n) env' (tel_DeviceID t) w' =
         Inr (d\<lparr>dev_Status := StatusOnline, dev_LastSeenAt :=
           (if tel_Timestamp t = 0 then dev_LastSeenAt d
            else if env_now env' 0 < env_now env 0 + redis_life (rds_ttl r) then tel_Timestamp t
            else mongo_Date M (tel_Timestamp t))\<rparr>))"
proof -
  let ?svc = "cloud_service M R z r n" and ?i = "tel_DeviceID t"
  note contract = cloud_service_contract [OF assms(1), of R z r n]
  have winv: "service.winv (mongo_inv docs uniq up) (\<lambda>x. hub_wf (fst x)) w"
    using assms(4,6) by (simp add: service.winv_def [OF contract] outlets_def)
  from service.process_known [OF contract, OF winv, OF assms(7), of env] obtain w' where
    run: "svc_processTelemetry ?svc env t w = Some w'"
    and inv: "service.winv (mongo_inv docs uniq up) (\<lambda>x. hub_wf (fst x)) w'"
    and dev: "mdev docs (w_store w') ?i = Some (d\<lparr>dev_Status := StatusOnline, dev_LastSeenAt :=
        (if IsZero (tel_Timestamp t) then dev_LastSeenAt d else mongo_Date M (tel_Timestamp t))\<rparr>)"
    and alr: "malr docs (w_store w') ?i = malr docs (w_store w) ?i
        + image_mset (kept_alert (mongo_Date M)) (mset as)"
    and cache: "w_cache w' = w_cache (cacheStatus ?svc (env_now env 0) ?i StatusOnline (tel_Timestamp t) w)"
    and pub: "publish_all (svc_publisher ?svc) (map (\<lambda>(j, e). (env_sched env j, e))
        (enumerate 0 (telemetry_event t # map alert_event as))) (outlets w) = Some (outlets w')"
    unfolding assms(9) by auto
  have store: "mongo_inv docs uniq up (w_store w')" using inv by (simp add: service.winv_def [OF contract])
  have events: "map snd (map (\<lambda>(j, e). (env_sched env j, e)) (enumerate 0 es)) = es" for es :: "Event list"
    by (simp add: case_prod_unfold comp_def enumerate_eq_zip)
  have bus: "w_hub w' = w_hub w \<and> sent (w_bus w') = sent (w_bus w)
      @ map (message z) (filter (audible z) (telemetry_event t # map alert_event as))"
    using redis_publish_all [OF assms(2), of z "map (\<lambda>(j, e). (env_sched env j, e))
        (enumerate 0 (telemetry_event t # map alert_event as))" "w_hub w" "w_bus w"] pub
    unfolding events by (auto simp: outlets_def)
  note client = new_client(1) [OF assms(2,3)]
  have ok: "cacheable z StatusOnline (tel_Timestamp t)"
    using assms(8) by (simp add: cacheable_def valid_utf8_def StatusOnline_def)
  have set: "cache_inv entries rup (w_cache w') \<and> cache_entry entries (w_cache w') ?i
      = Some (StatusOnline, tel_Timestamp t, env_now env 0 + redis_life (rds_ttl r))"
    using redis_client.redis_set [OF client assms(5) ok, of "env_now env 0" ?i]
    by (simp add: cache cacheStatus_def redis_cache_def prod_eq_iff)
  have "GetDevice (svc_store ?svc) (w_store w') ?i = Inr (d\<lparr>dev_Status := StatusOnline, dev_LastSeenAt :=
        (if IsZero (tel_Timestamp t) then dev_LastSeenAt d else mongo_Date M (tel_Timestamp t))\<rparr>)"
    using mongo_get_device [OF assms(1) store, of ?i] dev by (simp add: mongo_store_def)
  from status_cache.read_through [OF redis_client.as_status_cache [OF client, where z = z] _ _ this] set
  have "svc_GetDevice ?svc env' ?i w' = Inr (d\<lparr>dev_Status := StatusOnline, dev_LastSeenAt :=
           (if tel_Timestamp t = 0 then dev_LastSeenAt d
            else if env_now env' 0 < env_now env 0 + redis_life (rds_ttl r) then tel_Timestamp t
            else mongo_Date M (tel_Timestamp t))\<rparr>)" for env'
    by (auto simp: IsZero_def)
  with run store set bus alr show ?thesis by blast
qed

definition sample_cloud :: "(listdb MongoStore, string \<rightharpoonup> json option \<times> time, (string \<times> json option) list) world" where
  "sample_cloud = \<lparr>w_store = sample_mongo, w_cache = (\<lambda>_. None), w_hub = NewHub 4, w_bus = [],
     w_engine = default_engine\<rparr>"

theorem cloud_process_telemetry_witness:
  "\<exists>w' d. svc_processTelemetry (cloud_service list_mongo list_redis (\<lambda>_. 0) \<lparr>rds_ttl = 5 * Minute\<rparr> 0)
      sample_env (sample_point ''d1'' 7) sample_cloud = Some w'
    \<and> svc_GetDevice (cloud_service list_mongo list_redis (\<lambda>_. 0) \<lparr>rds_ttl = 5 * Minute\<rparr> 0)
      sample_env ''d1'' w' = Inr d \<and> dev_Status d = StatusOnline \<and> dev_LastSeenAt d = 7"
proof -
  have w: "mongo_inv ld_docs ld_uniq ld_ok (w_store sample_cloud)"
    "cache_inv (\<lambda>c. c) (\<lambda>_. True) (w_cache sample_cloud)" "hub_wf (w_hub sample_cloud)"
    by (simp_all add: sample_cloud_def sample_mongo_facts cache_inv_def NewHub_wf)
  have dev: "mdev ld_docs (w_store sample_cloud) (tel_DeviceID (sample_point ''d1'' 7))
      = Some (kept_device (mongo_Date list_mongo) sample_device)"
    by (simp add: sample_cloud_def sample_mongo_facts sample_point_def)
  have "marshal_time 0 (tel_Timestamp (sample_point ''d1'' 7)) \<noteq> None"
    using marshal_time_defined [of 7] by (auto simp: sample_point_def day_nanos_def)
  from cloud_process_telemetry [OF list_mongo_ok list_redis_ok sample_redis_new w dev this refl, of 0 sample_env]
  obtain w' where "svc_processTelemetry (cloud_service list_mongo list_redis (\<lambda>_. 0) \<lparr>rds_ttl = 5 * Minute\<rparr> 0)
      sample_env (sample_point ''d1'' 7) sample_cloud = Some w'"
    and "\<forall>env'. svc_GetDevice (cloud_service list_mongo list_redis (\<lambda>_. 0) \<lparr>rds_ttl = 5 * Minute\<rparr> 0) env'
        (tel_DeviceID (sample_point ''d1'' 7)) w' = Inr ((kept_device (mongo_Date list_mongo) sample_device)
          \<lparr>dev_Status := StatusOnline, dev_LastSeenAt :=
           (if tel_Timestamp (sample_point ''d1'' 7) = 0 then dev_LastSeenAt (kept_device (mongo_Date list_mongo) sample_device)
            else if env_now env' 0 < env_now sample_env 0 + redis_life (5 * Minute) then tel_Timestamp (sample_point ''d1'' 7)
            else mongo_Date list_mongo (tel_Timestamp (sample_point ''d1'' 7)))\<rparr>)"
    by auto
  moreover have "env_now sample_env 0 < env_now sample_env 0 + redis_life (5 * Minute)"
    by (simp add: redis_life_def duration_units)
  ultimately show ?thesis
    by (intro exI [of _ w'] exI) (auto simp: sample_point_def)
qed

end
