(* ===== verification/Auth.thy ===== *)
theory Auth
  imports Store_Contract Tokens
begin

text \<open>
  Access tokens, users and refresh tokens: \<open>internal/auth/auth.go\<close> and \<open>service.go\<close>.

  The JWT package, bcrypt and the UUID generator are not part of the repository. They are the
  record \<open>lib\<close>: signing claims under a method and a key, parsing a token string under a key
  function, a list of valid methods and an expected issuer, hashing a password with a salt and
  comparing a password with a hash. What the theorems rely on is said by \<open>jwt_ok\<close> and
  \<open>bcrypt_ok\<close>, the documented behaviour of those packages. Clock readings, identifiers, random
  bytes and iteration orders of one call are its argument \<open>auth_env\<close>.
\<close>

section \<open>The packages behind the code\<close>

record Claims =
  cl_Roles :: "string list"
  cl_Subject :: string
  cl_Issuer :: string
  cl_IssuedAt :: time
  cl_ExpiresAt :: time

record lib =
  jwt_NumericDate :: "time \<Rightarrow> time"
  jwt_Sign :: "string \<Rightarrow> Claims \<Rightarrow> string \<Rightarrow> error + string"
  jwt_Parse :: "time \<Rightarrow> string \<Rightarrow> (string \<Rightarrow> error + string) \<Rightarrow> string list \<Rightarrow> string
    \<Rightarrow> error + (Claims \<times> bool)"
  jwt_isHMAC :: "string \<Rightarrow> bool"
  bcrypt_Generate :: "string \<Rightarrow> int \<Rightarrow> string \<Rightarrow> error + string"
  bcrypt_Compare :: "string \<Rightarrow> string \<Rightarrow> error option"
  bcrypt_DefaultCost :: int

text \<open>
  Claims survive the encoding of a token when their dates are of the package's precision and
  their strings are ASCII. The parser accepts a token with such claims that was signed with the
  key the key function gives for its method, when the method is a valid one, the issuer is the
  expected one and the expiry is ahead; and it returns only claims with the expected issuer and
  with an expiry that is absent or ahead, of a token whose method is valid and whose key the
  key function gave. \<open>HS256\<close> is an HMAC method.
\<close>

definition ascii :: "string \<Rightarrow> bool" where
  "ascii s \<longleftrightarrow> list_all (\<lambda>c. byte c < 128) s"

definition portable_claims :: "lib \<Rightarrow> Claims \<Rightarrow> bool" where
  "portable_claims lib c \<longleftrightarrow> (\<exists>t u. cl_IssuedAt c = jwt_NumericDate lib t
       \<and> cl_ExpiresAt c = jwt_NumericDate lib u)
     \<and> ascii (cl_Subject c) \<and> ascii (cl_Issuer c) \<and> list_all ascii (cl_Roles c)"

definition jwt_ok :: "lib \<Rightarrow> bool" where
  "jwt_ok lib \<longleftrightarrow> jwt_isHMAC lib ''HS256''
     \<and> (\<forall>alg c key tok now kf methods iss.
          portable_claims lib c \<and> jwt_Sign lib alg c key = Inr tok \<and> alg \<in> set methods
          \<and> kf alg = Inr key \<and> cl_Issuer c = iss \<and> Before now (cl_ExpiresAt c)
          \<longrightarrow> tok \<noteq> '''' \<and> jwt_Parse lib now tok kf methods iss = Inr (c, True))
     \<and> (\<forall>now tok kf methods iss c v. jwt_Parse lib now tok kf methods iss = Inr (c, v)
          \<longrightarrow> cl_Issuer c = iss \<and> (IsZero (cl_ExpiresAt c) \<or> Before now (cl_ExpiresAt c))
              \<and> (\<exists>alg \<in> set methods. \<exists>key. kf alg = Inr key))"

text \<open>A password matches the hash generated from it.\<close>

definition bcrypt_ok :: "lib \<Rightarrow> bool" where
  "bcrypt_ok lib \<longleftrightarrow> (\<forall>salt cost pw h. bcrypt_Generate lib salt cost pw = Inr h
     \<longrightarrow> bcrypt_Compare lib h pw = None)"

section \<open>The JWT manager\<close>

record Manager =
  mgr_secret :: string
  mgr_issuer :: string
  mgr_ttl :: duration

record AuthConfig =
  acfg_Secret :: string
  acfg_Issuer :: string
  acfg_TTL :: duration

definition NewManager :: "AuthConfig \<Rightarrow> Manager option" where
  "NewManager cfg =
     (if acfg_Secret cfg = '''' then None
      else Some \<lparr>mgr_secret = acfg_Secret cfg,
                 mgr_issuer = (if acfg_Issuer cfg = '''' then ''iot-api'' else acfg_Issuer cfg),
                 mgr_ttl = (if acfg_TTL cfg \<le> 0 then 15 * Minute else acfg_TTL cfg)\<rparr>)"

definition TTL :: "Manager \<Rightarrow> duration" where
  "TTL m = mgr_ttl m"

definition mgr_Generate :: "lib \<Rightarrow> time \<Rightarrow> Manager \<Rightarrow> string \<Rightarrow> string list \<Rightarrow> error + string" where
  "mgr_Generate lib now m subject roles =
     jwt_Sign lib ''HS256''
       \<lparr>cl_Roles = roles, cl_Subject = subject, cl_Issuer = mgr_issuer m,
        cl_IssuedAt = jwt_NumericDate lib now,
        cl_ExpiresAt = jwt_NumericDate lib (Add now (mgr_ttl m))\<rparr> (mgr_secret m)"

definition key_func :: "lib \<Rightarrow> Manager \<Rightarrow> string \<Rightarrow> error + string" where
  "key_func lib m alg = (if \<not> jwt_isHMAC lib alg then Inl ErrInvalidToken else Inr (mgr_secret m))"

definition mgr_Parse :: "lib \<Rightarrow> time \<Rightarrow> Manager \<Rightarrow> string \<Rightarrow> error + Claims" where
  "mgr_Parse lib now m tokenStr =
     (if tokenStr = '''' then Inl ErrInvalidToken
      else case jwt_Parse lib now tokenStr (key_func lib m) [''HS256''] (mgr_issuer m) of
             Inl _ \<Rightarrow> Inl ErrInvalidToken
           | Inr (claims, valid) \<Rightarrow> if \<not> valid then Inl ErrInvalidToken else Inr claims)"

section \<open>Users and refresh tokens\<close>

record TokenPair =
  tp_AccessToken :: string
  tp_RefreshToken :: string
  tp_TokenType :: string
  tp_ExpiresIn :: int

record 's AuthService =
  as_users :: "'s UserStore"
  as_tokens :: Manager
  as_refreshTTL :: duration
  as_bcryptCost :: int

record auth_env =
  ae_now :: "nat \<Rightarrow> time"
  ae_id :: string
  ae_sched :: "nat \<Rightarrow> sched"
  ae_random :: "error + nat list"
  ae_salt :: string

definition NewService :: "lib \<Rightarrow> 's UserStore \<Rightarrow> Manager \<Rightarrow> duration \<Rightarrow> 's AuthService" where
  "NewService lib users tokens refreshTTL =
     \<lparr>as_users = users, as_tokens = tokens,
      as_refreshTTL = (if refreshTTL \<le> 0 then 7 * 24 * Hour else refreshTTL),
      as_bcryptCost = bcrypt_DefaultCost lib\<rparr>"

definition auth_CreateUser :: "lib \<Rightarrow> auth_env \<Rightarrow> 's AuthService \<Rightarrow> string \<Rightarrow> string \<Rightarrow> string list
    \<Rightarrow> 's \<Rightarrow> (error + User) \<times> 's" where
  "auth_CreateUser lib env svc username password roles s =
     (if length password < 8 then (Inl ErrWeakPassword, s)
      else let roles' = (if roles = [] then [RoleViewer] else roles) in
        case bcrypt_Generate lib (ae_salt env) (as_bcryptCost svc) password of
          Inl err \<Rightarrow> (Inl err, s)
        | Inr hash \<Rightarrow>
            (let u = \<lparr>usr_ID = ae_id env, usr_Username = username, usr_PasswordHash = hash,
                      usr_Roles = roles', usr_CreatedAt = ae_now env 0\<rparr>
             in case CreateUser (as_users svc) (ae_sched env 0) s u of
                  (Some err, s') \<Rightarrow> (Inl err, s')
                | (None, s') \<Rightarrow> (Inr u, s')))"

definition auth_EnsureUser :: "lib \<Rightarrow> auth_env \<Rightarrow> 's AuthService \<Rightarrow> string \<Rightarrow> string \<Rightarrow> string list
    \<Rightarrow> 's \<Rightarrow> (error + bool) \<times> 's" where
  "auth_EnsureUser lib env svc username password roles s =
     (case GetUserByUsername (as_users svc) (ae_sched env 1) s username of
        Inr _ \<Rightarrow> (Inr False, s)
      | Inl err \<Rightarrow>
          if err \<noteq> ErrNotFound then (Inl err, s)
          else case auth_CreateUser lib env svc username password roles s of
                 (Inl e, s') \<Rightarrow> (Inl e, s')
               | (Inr _, s') \<Rightarrow> (Inr True, s'))"

definition auth_ListUsers :: "auth_env \<Rightarrow> 's AuthService \<Rightarrow> 's \<Rightarrow> User list" where
  "auth_ListUsers env svc s = ListUsers (as_users svc) (ae_sched env 0) (ae_sched env 1) s"

definition auth_GetUser :: "'s AuthService \<Rightarrow> string \<Rightarrow> 's \<Rightarrow> error + User" where
  "auth_GetUser svc i s = GetUserByID (as_users svc) s i"

text \<open>A nil \<open>roles\<close> slice is \<open>None\<close>.\<close>

definition auth_UpdateUser :: "lib \<Rightarrow> auth_env \<Rightarrow> 's AuthService \<Rightarrow> string \<Rightarrow> string list option
    \<Rightarrow> string \<Rightarrow> 's \<Rightarrow> (error + User) \<times> 's" where
  "auth_UpdateUser lib env svc i roles password s =
     (case GetUserByID (as_users svc) s i of
        Inl err \<Rightarrow> (Inl err, s)
      | Inr u0 \<Rightarrow>
          (let u1 = (case roles of None \<Rightarrow> u0 | Some rs \<Rightarrow> u0\<lparr>usr_Roles := rs\<rparr>);
               upd = (if password = '''' then Inr u1
                      else if length password < 8 then Inl ErrWeakPassword
                      else case bcrypt_Generate lib (ae_salt env) (as_bcryptCost svc) password of
                             Inl err \<Rightarrow> Inl err
                           | Inr hash \<Rightarrow> Inr (u1\<lparr>usr_PasswordHash := hash\<rparr>))
           in case upd of
                Inl err \<Rightarrow> (Inl err, s)
              | Inr u \<Rightarrow>
                  (case UpdateUser (as_users svc) s u of
                     (Some err, s1) \<Rightarrow> (Inl err, s1)
                   | (None, s1) \<Rightarrow>
                       if password = '''' then (Inr u, s1)
                       else (Inr u, snd (DeleteUserRefreshTokens (as_users svc) (ae_sched env 0)
                                           s1 (usr_ID u))))))"

definition auth_DeleteUser :: "auth_env \<Rightarrow> 's AuthService \<Rightarrow> string \<Rightarrow> 's \<Rightarrow> error option \<times> 's" where
  "auth_DeleteUser env svc i s = DeleteUser (as_users svc) (ae_sched env 0) s i"

text \<open>
  The comparison with a dummy hash on an unknown username only spends time: its result is
  discarded.
\<close>

definition authenticate :: "lib \<Rightarrow> auth_env \<Rightarrow> 's AuthService \<Rightarrow> string \<Rightarrow> string \<Rightarrow> 's
    \<Rightarrow> error + User" where
  "authenticate lib env svc username password s =
     (case GetUserByUsername (as_users svc) (ae_sched env 0) s username of
        Inl _ \<Rightarrow> Inl ErrInvalidCredentials
      | Inr u \<Rightarrow> (case bcrypt_Compare lib (usr_PasswordHash u) password of
                    Some _ \<Rightarrow> Inl ErrInvalidCredentials
                  | None \<Rightarrow> Inr u))"

text \<open>\<open>Duration.Seconds\<close> is a \<open>float64\<close>; the conversion to \<open>int\<close> truncates.\<close>

definition quot_int :: "int \<Rightarrow> int \<Rightarrow> int" where
  "quot_int a b = sgn a * (\<bar>a\<bar> div b)"

definition Seconds :: "duration \<Rightarrow> float64" where
  "Seconds d = fadd (float64_of_int (quot_int d Second))
     (fdiv (float64_of_int (d - quot_int d Second * Second)) (Fin 1000000000))"

definition int_of_float :: "float64 \<Rightarrow> int" where
  "int_of_float x = (let q = fval x in if q < 0 then - \<lfloor>- q\<rfloor> else \<lfloor>q\<rfloor>)"

definition issueTokens :: "lib \<Rightarrow> auth_env \<Rightarrow> 's AuthService \<Rightarrow> User \<Rightarrow> 's
    \<Rightarrow> (error + TokenPair) \<times> 's" where
  "issueTokens lib env svc u s =
     (case mgr_Generate lib (ae_now env 1) (as_tokens svc) (usr_ID u) (usr_Roles u) of
        Inl err \<Rightarrow> (Inl err, s)
      | Inr access \<Rightarrow>
          (case newOpaqueToken (ae_random env) of
             Inl err \<Rightarrow> (Inl err, s)
           | Inr refresh \<Rightarrow>
               (case StoreRefreshToken (as_users svc) s
                       \<lparr>rt_TokenHash = hashToken refresh, rt_UserID = usr_ID u,
                        rt_ExpiresAt = Add (ae_now env 2) (as_refreshTTL svc),
                        rt_CreatedAt = ae_now env 3\<rparr> of
                  (Some err, s') \<Rightarrow> (Inl err, s')
                | (None, s') \<Rightarrow>
                    (Inr \<lparr>tp_AccessToken = access, tp_RefreshToken = refresh,
                          tp_TokenType = ''Bearer'',
                          tp_ExpiresIn = int_of_float (Seconds (TTL (as_tokens svc)))\<rparr>, s'))))"

definition auth_Login :: "lib \<Rightarrow> auth_env \<Rightarrow> 's AuthService \<Rightarrow> string \<Rightarrow> string \<Rightarrow> 's
    \<Rightarrow> (error + TokenPair) \<times> 's" where
  "auth_Login lib env svc username password s =
     (case authenticate lib env svc username password s of
        Inl err \<Rightarrow> (Inl err, s)
      | Inr u \<Rightarrow> issueTokens lib env svc u s)"

text \<open>
  \<open>Refresh\<close> is a lookup followed by the rotation; the two are separate calls on the store, so
  they are separate definitions and other calls may come between them.
\<close>

definition refresh_lookup :: "auth_env \<Rightarrow> 's AuthService \<Rightarrow> string \<Rightarrow> 's \<Rightarrow> error + RefreshToken" where
  "refresh_lookup env svc refreshToken s =
     (case GetRefreshToken (as_users svc) (ae_now env 0) s (hashToken refreshToken) of
        Inl _ \<Rightarrow> Inl ErrInvalidToken | Inr rt \<Rightarrow> Inr rt)"

definition refresh_rotate :: "lib \<Rightarrow> auth_env \<Rightarrow> 's AuthService \<Rightarrow> string \<Rightarrow> RefreshToken \<Rightarrow> 's
    \<Rightarrow> (error + TokenPair) \<times> 's" where
  "refresh_rotate lib env svc refreshToken rt s =
     (let s1 = snd (DeleteRefreshToken (as_users svc) s (hashToken refreshToken))
      in case GetUserByID (as_users svc) s1 (rt_UserID rt) of
           Inl _ \<Rightarrow> (Inl ErrInvalidToken, s1)
         | Inr u \<Rightarrow> issueTokens lib env svc u s1)"

definition auth_Refresh :: "lib \<Rightarrow> auth_env \<Rightarrow> 's AuthService \<Rightarrow> string \<Rightarrow> 's
    \<Rightarrow> (error + TokenPair) \<times> 's" where
  "auth_Refresh lib env svc refreshToken s =
     (case refresh_lookup env svc refreshToken s of
        Inl err \<Rightarrow> (Inl err, s)
      | Inr rt \<Rightarrow> refresh_rotate lib env svc refreshToken rt s)"

definition auth_Logout :: "'s AuthService \<Rightarrow> string \<Rightarrow> 's \<Rightarrow> error option \<times> 's" where
  "auth_Logout svc refreshToken s = DeleteRefreshToken (as_users svc) s (hashToken refreshToken)"

end
