(* ===== verification/Middleware.thy ===== *)
theory Middleware
  imports Auth Go_Json Analytics Service
begin

text \<open>
  Requests, responses and the authentication middleware, \<open>internal/auth/middleware.go\<close>.

  A request carries what the handlers read: the method, the path, the \<open>id\<close> variable of the
  matched route, the \<open>Authorization\<close> header (empty when missing), the decoded query parameters,
  the JSON value of the body and the claims its context holds. A handler takes the request and
  the state of the server and returns a response and the new state, or \<open>None\<close> while it is
  blocked. The body of a response is the value handed to the JSON encoder, or \<open>None\<close> when
  nothing was written.
\<close>

section \<open>Requests and responses\<close>

record request =
  rq_Method :: string
  rq_Path :: string
  rq_id :: string
  rq_Authorization :: string
  rq_Query :: "(string \<times> string) list"
  rq_Body :: "json option"
  rq_Claims :: "Claims option"

datatype body =
    BFields "(string \<times> string) list"
  | BTokens TokenPair
  | BUser User
  | BUsers "User list"
  | BDevice Device
  | BDevices "Device list"
  | BTelemetry "Telemetry list"
  | BAnalytics string "(string, MetricStats) gomap" "Point list option"
  | BAlerts "Alert list"

record response =
  rs_Status :: nat
  rs_ContentType :: string
  rs_Body :: "body option"
  rs_Events :: "Event list"

record ('s, 'c, 'b) server =
  sv_world :: "('s, 'c, 'b) world"
  sv_pool :: "Telemetry Pool"

type_synonym ('s, 'c, 'b) handler =
  "request \<Rightarrow> ('s, 'c, 'b) server \<Rightarrow> (response \<times> ('s, 'c, 'b) server) option"

definition query_Get :: "request \<Rightarrow> string \<Rightarrow> string" where
  "query_Get r k = (case map_of (rq_Query r) k of Some v \<Rightarrow> v | None \<Rightarrow> '''')"

section \<open>The code\<close>

definition defaultPublicPaths :: "string list" where
  "defaultPublicPaths = [''/health'', ''/api/auth/login'', ''/api/auth/refresh'', ''/api/auth/logout'']"

definition writeJSONError :: "nat \<Rightarrow> string \<Rightarrow> response" where
  "writeJSONError status message = \<lparr>rs_Status = status, rs_ContentType = ''application/json'',
     rs_Body = Some (BFields [(''error'', message)]), rs_Events = []\<rparr>"

definition extractToken :: "request \<Rightarrow> string" where
  "extractToken r =
     (let h = rq_Authorization r
      in case (if h \<noteq> '''' then CutPrefix h ''Bearer '' else None) of
           Some after \<Rightarrow> TrimSpace after
         | None \<Rightarrow> query_Get r ''token'')"

fun hasRole :: "string list \<Rightarrow> string \<Rightarrow> bool" where
  "hasRole [] want = False"
| "hasRole (r # roles) want = (if r = want then True else hasRole roles want)"

definition ClaimsFrom :: "request \<Rightarrow> Claims option" where
  "ClaimsFrom r = rq_Claims r"

definition SubjectFrom :: "request \<Rightarrow> string option" where
  "SubjectFrom r = map_option cl_Subject (ClaimsFrom r)"

definition mw_Middleware :: "lib \<Rightarrow> time \<Rightarrow> Manager \<Rightarrow> ('s, 'c, 'b) handler \<Rightarrow> ('s, 'c, 'b) handler" where
  "mw_Middleware lib now m handler r st =
     (if rq_Path r \<in> set defaultPublicPaths then handler r st
      else case mgr_Parse lib now m (extractToken r) of
             Inl _ \<Rightarrow> Some (writeJSONError 401 ''unauthorized'', st)
           | Inr claims \<Rightarrow> handler (r\<lparr>rq_Claims := Some claims\<rparr>) st)"

definition RequireRole :: "string \<Rightarrow> ('s, 'c, 'b) handler \<Rightarrow> ('s, 'c, 'b) handler" where
  "RequireRole role handler r st =
     (case ClaimsFrom r of
        None \<Rightarrow> Some (writeJSONError 401 ''unauthorized'', st)
      | Some claims \<Rightarrow>
          if \<not> hasRole (cl_Roles claims) role \<and> \<not> hasRole (cl_Roles claims) ''admin''
          then Some (writeJSONError 403 ''insufficient permissions'', st)
          else handler r st)"

lemma hasRole_iff: "hasRole roles want \<longleftrightarrow> want \<in> set roles"
  by (induction roles) auto

end
