(* ===== verification/Api.thy ===== *)
theory Api
  imports Middleware
begin

text \<open>
  The HTTP and WebSocket interface, \<open>internal/api/handlers.go\<close>. The router is the package
  \<open>gorilla/mux\<close>, which is not part of the repository: it is the argument \<open>mux\<close>, from the route
  table, the method and the path to the matched route and its \<open>id\<close> variable, or to the status of
  one of its own answers (not found, wrong method, redirect), given outside the middleware. The
  table itself, and what runs for each entry, is the source's.
\<close>

section \<open>Helpers\<close>

text \<open>
  The environment of a request: clocks, identifiers and orders for the service and for the
  authentication service, the time the middleware reads, and, for a WebSocket, either the answer
  of the upgrader (the package \<open>gorilla/websocket\<close>) that refuses the upgrade, or what happens
  while the connection is open: the client going away, the turn of an event with the outcome of
  writing it, or a broadcast of another goroutine.
\<close>

datatype ws_turn = WsClosed | WsEvent bool | WsBroadcast sched Event

record api_env =
  ap_env :: env
  ap_auth :: auth_env
  ap_now :: time
  ap_ws :: "response + ws_turn list"

record ('s, 'c, 'b) Handler =
  h_svc :: "('s, 'c, 'b) Service"
  h_auth :: "Manager option"
  h_authSvc :: "'s AuthService option"

definition NewHandler :: "('s, 'c, 'b) Service \<Rightarrow> Manager option \<Rightarrow> 's AuthService option
    \<Rightarrow> ('s, 'c, 'b) Handler" where
  "NewHandler svc authManager authSvc =
     \<lparr>h_svc = svc, h_auth = authManager, h_authSvc = authSvc\<rparr>"

text \<open>The encoder refuses infinities and NaN and then writes nothing.\<close>

definition encodable_float :: "float64 \<Rightarrow> bool" where
  "encodable_float x \<longleftrightarrow> \<not> is_nan x \<and> x \<noteq> PInf \<and> x \<noteq> NInf"

definition encodable_stats :: "MetricStats \<Rightarrow> bool" where
  "encodable_stats s \<longleftrightarrow> encodable_float (ms_Min s) \<and> encodable_float (ms_Max s)
     \<and> encodable_float (ms_Avg s) \<and> encodable_float (ms_Sum s) \<and> encodable_float (ms_Last s)"

fun encodable :: "body \<Rightarrow> bool" where
  "encodable (BTelemetry ts) \<longleftrightarrow>
     list_all (\<lambda>t. fmpred (\<lambda>_ x. encodable_float x) (tel_Metrics t)) ts"
| "encodable (BAnalytics _ stats series) \<longleftrightarrow> fmpred (\<lambda>_ s. encodable_stats s) stats
     \<and> (case series of None \<Rightarrow> True | Some ps \<Rightarrow> list_all (\<lambda>p. encodable_float (pt_Value p)) ps)"
| "encodable (BAlerts as) \<longleftrightarrow>
     list_all (\<lambda>a. encodable_float (al_Value a) \<and> encodable_float (al_Threshold a)) as"
| "encodable _ \<longleftrightarrow> True"

definition writeJSON :: "nat \<Rightarrow> body \<Rightarrow> response" where
  "writeJSON status payload = \<lparr>rs_Status = status, rs_ContentType = '''',
     rs_Body = (if encodable payload then Some payload else None), rs_Events = []\<rparr>"

definition writeError :: "nat \<Rightarrow> string \<Rightarrow> response" where
  "writeError status message = writeJSON status (BFields [(''error'', message)])"

definition no_content :: response where
  "no_content = \<lparr>rs_Status = 204, rs_ContentType = '''', rs_Body = None, rs_Events = []\<rparr>"

text \<open>
  The header is set before the handler runs; one that sets it again wins. A switch of protocols
  (101) is written by the upgrader and carries none of the headers set here.
\<close>

definition jsonContentType :: "('s, 'c, 'b) handler \<Rightarrow> ('s, 'c, 'b) handler" where
  "jsonContentType handler r st =
     map_option (\<lambda>(resp, st').
       (if rs_ContentType resp = '''' \<and> rs_Status resp \<noteq> 101
        then resp\<lparr>rs_ContentType := ''application/json''\<rparr> else resp, st')) (handler r st)"

fun error_string :: "error \<Rightarrow> string" where
  "error_string ErrNotFound = ''not found''"
| "error_string ErrDeviceExists = ''device already exists''"
| "error_string ErrDuplicateUser = ''username already exists''"
| "error_string ErrInvalidToken = ''invalid or expired token''"
| "error_string ErrInvalidCredentials = ''invalid credentials''"
| "error_string ErrWeakPassword = ''password must be at least 8 characters''"
| "error_string (ErrOther s) = s"

definition parseSince :: "time \<Rightarrow> request \<Rightarrow> time" where
  "parseSince now r =
     (let raw = query_Get r ''since''
      in if raw = '''' then 0
         else case parse_RFC3339 raw of
                Some t \<Rightarrow> t
              | None \<Rightarrow> (case ParseDuration raw of
                           Some d \<Rightarrow> Add now (neg_duration d)
                         | None \<Rightarrow> 0))"

definition parseLimit :: "request \<Rightarrow> int" where
  "parseLimit r =
     (let raw = query_Get r ''limit''
      in if raw = '''' then 0
         else case Atoi raw of Some n \<Rightarrow> if n < 0 then 0 else n | None \<Rightarrow> 0)"

section \<open>Request bodies\<close>

record credentials =
  cr_Username :: string
  cr_Password :: string

record user_request =
  ur_Username :: string
  ur_Password :: string
  ur_Roles :: "string list option"

definition dec_credentials :: "json option \<Rightarrow> credentials option" where
  "dec_credentials = dec_struct (\<lambda>k j r.
     if k = ''username'' then map_option (\<lambda>s. r\<lparr>cr_Username := s\<rparr>) (dec_string j (cr_Username r))
     else if k = ''password'' then map_option (\<lambda>s. r\<lparr>cr_Password := s\<rparr>) (dec_string j (cr_Password r))
     else Some r) \<lparr>cr_Username = '''', cr_Password = ''''\<rparr>"

definition dec_refresh_token :: "json option \<Rightarrow> string option" where
  "dec_refresh_token = dec_struct (\<lambda>k j r.
     if k = ''refresh_token'' then dec_string j r else Some r) ''''"

definition dec_create_user :: "json option \<Rightarrow> user_request option" where
  "dec_create_user = dec_struct (\<lambda>k j r.
     if k = ''username'' then map_option (\<lambda>s. r\<lparr>ur_Username := s\<rparr>) (dec_string j (ur_Username r))
     else if k = ''password'' then map_option (\<lambda>s. r\<lparr>ur_Password := s\<rparr>) (dec_string j (ur_Password r))
     else if k = ''roles'' then map_option (\<lambda>rs. r\<lparr>ur_Roles := rs\<rparr>) (dec_strings j)
     else Some r) \<lparr>ur_Username = '''', ur_Password = '''', ur_Roles = None\<rparr>"

definition dec_update_user :: "json option \<Rightarrow> user_request option" where
  "dec_update_user = dec_struct (\<lambda>k j r.
     if k = ''password'' then map_option (\<lambda>s. r\<lparr>ur_Password := s\<rparr>) (dec_string j (ur_Password r))
     else if k = ''roles'' then map_option (\<lambda>rs. r\<lparr>ur_Roles := rs\<rparr>) (dec_strings j)
     else Some r) \<lparr>ur_Username = '''', ur_Password = '''', ur_Roles = None\<rparr>"

definition dec_device :: "json option \<Rightarrow> RegisterDeviceRequest option" where
  "dec_device = dec_struct (\<lambda>k j r.
     if k = ''name'' then map_option (\<lambda>s. r\<lparr>reg_Name := s\<rparr>) (dec_string j (reg_Name r))
     else if k = ''type'' then map_option (\<lambda>s. r\<lparr>reg_Type := s\<rparr>) (dec_string j (reg_Type r))
     else if k = ''location'' then map_option (\<lambda>s. r\<lparr>reg_Location := s\<rparr>) (dec_string j (reg_Location r))
     else if k = ''metadata''
     then map_option (\<lambda>m. r\<lparr>reg_Metadata := m\<rparr>) (dec_string_map j (reg_Metadata r))
     else Some r) \<lparr>reg_Name = '''', reg_Type = '''', reg_Location = '''', reg_Metadata = fmempty\<rparr>"

definition dec_update_device :: "json option \<Rightarrow> UpdateDeviceRequest option" where
  "dec_update_device body = map_option (\<lambda>r. \<lparr>upd_Name = reg_Name r, upd_Type = reg_Type r,
     upd_Location = reg_Location r, upd_Metadata = reg_Metadata r\<rparr>) (dec_device body)"

section \<open>Handlers\<close>

text \<open>
  The user store and the device store are the same object: the authentication service works on
  the store of the world.
\<close>

definition set_store :: "('s, 'c, 'b) server \<Rightarrow> 's \<Rightarrow> ('s, 'c, 'b) server" where
  "set_store st s = st\<lparr>sv_world := (sv_world st)\<lparr>w_store := s\<rparr>\<rparr>"

abbreviation the_store :: "('s, 'c, 'b) server \<Rightarrow> 's" where
  "the_store st \<equiv> w_store (sv_world st)"

definition disabled :: response where
  "disabled = writeError 404 ''authentication is disabled''"

definition bad_json :: response where
  "bad_json = writeError 400 ''invalid JSON body''"

definition h_health :: "('s, 'c, 'b) handler" where
  "h_health r st = Some (writeJSON 200 (BFields [(''status'', ''ok'')]), st)"

definition h_login :: "lib \<Rightarrow> api_env \<Rightarrow> ('s, 'c, 'b) Handler \<Rightarrow> ('s, 'c, 'b) handler" where
  "h_login lib env h r st = Some (case h_authSvc h of
     None \<Rightarrow> (disabled, st)
   | Some a \<Rightarrow>
       (case dec_credentials (rq_Body r) of
          None \<Rightarrow> (bad_json, st)
        | Some req \<Rightarrow>
            (case auth_Login lib (ap_auth env) a (cr_Username req) (cr_Password req) (the_store st) of
               (Inl _, s) \<Rightarrow> (writeError 401 ''invalid credentials'', set_store st s)
             | (Inr pair, s) \<Rightarrow> (writeJSON 200 (BTokens pair), set_store st s))))"

definition h_refresh :: "lib \<Rightarrow> api_env \<Rightarrow> ('s, 'c, 'b) Handler \<Rightarrow> ('s, 'c, 'b) handler" where
  "h_refresh lib env h r st = Some (case h_authSvc h of
     None \<Rightarrow> (disabled, st)
   | Some a \<Rightarrow>
       (case dec_refresh_token (rq_Body r) of
          None \<Rightarrow> (bad_json, st)
        | Some token \<Rightarrow>
            (case auth_Refresh lib (ap_auth env) a token (the_store st) of
               (Inl _, s) \<Rightarrow> (writeError 401 ''invalid refresh token'', set_store st s)
             | (Inr pair, s) \<Rightarrow> (writeJSON 200 (BTokens pair), set_store st s))))"

definition h_logout :: "('s, 'c, 'b) Handler \<Rightarrow> ('s, 'c, 'b) handler" where
  "h_logout h r st = Some (case h_authSvc h of
     None \<Rightarrow> (disabled, st)
   | Some a \<Rightarrow>
       (case dec_refresh_token (rq_Body r) of
          None \<Rightarrow> (bad_json, st)
        | Some token \<Rightarrow>
            (case auth_Logout a token (the_store st) of
               (Some _, s) \<Rightarrow> (writeError 500 ''could not revoke token'', set_store st s)
             | (None, s) \<Rightarrow> (no_content, set_store st s))))"

definition h_createUser :: "lib \<Rightarrow> api_env \<Rightarrow> ('s, 'c, 'b) Handler \<Rightarrow> ('s, 'c, 'b) handler" where
  "h_createUser lib env h r st = Some (case h_authSvc h of
     None \<Rightarrow> (disabled, st)
   | Some a \<Rightarrow>
       (case dec_create_user (rq_Body r) of
          None \<Rightarrow> (bad_json, st)
        | Some req \<Rightarrow>
            if ur_Username req = '''' then (writeError 400 ''username is required'', st)
            else (case auth_CreateUser lib (ap_auth env) a (ur_Username req) (ur_Password req)
                         (case ur_Roles req of None \<Rightarrow> [] | Some rs \<Rightarrow> rs) (the_store st) of
                    (Inl err, s) \<Rightarrow>
                      (if err = ErrWeakPassword then writeError 400 (error_string err)
                       else if err = ErrDuplicateUser then writeError 409 ''username already exists''
                       else writeError 500 ''could not create user'', set_store st s)
                  | (Inr user, s) \<Rightarrow> (writeJSON 201 (BUser user), set_store st s))))"

definition h_listUsers :: "api_env \<Rightarrow> ('s, 'c, 'b) Handler \<Rightarrow> ('s, 'c, 'b) handler" where
  "h_listUsers env h r st = Some (case h_authSvc h of
     None \<Rightarrow> (disabled, st)
   | Some a \<Rightarrow> (writeJSON 200 (BUsers (auth_ListUsers (ap_auth env) a (the_store st))), st))"

definition h_getUser :: "('s, 'c, 'b) Handler \<Rightarrow> ('s, 'c, 'b) handler" where
  "h_getUser h r st = Some (case h_authSvc h of
     None \<Rightarrow> (disabled, st)
   | Some a \<Rightarrow>
       (case auth_GetUser a (rq_id r) (the_store st) of
          Inl err \<Rightarrow> (if err = ErrNotFound then writeError 404 ''user not found''
                      else writeError 500 ''could not fetch user'', st)
        | Inr user \<Rightarrow> (writeJSON 200 (BUser user), st)))"

definition h_updateUser :: "lib \<Rightarrow> api_env \<Rightarrow> ('s, 'c, 'b) Handler \<Rightarrow> ('s, 'c, 'b) handler" where
  "h_updateUser lib env h r st = Some (case h_authSvc h of
     None \<Rightarrow> (disabled, st)
   | Some a \<Rightarrow>
       (case dec_update_user (rq_Body r) of
          None \<Rightarrow> (bad_json, st)
        | Some req \<Rightarrow>
            (case auth_UpdateUser lib (ap_auth env) a (rq_id r) (ur_Roles req) (ur_Password req)
                    (the_store st) of
               (Inl err, s) \<Rightarrow>
                 (if err = ErrNotFound then writeError 404 ''user not found''
                  else if err = ErrWeakPassword then writeError 400 (error_string err)
                  else writeError 500 ''could not update user'', set_store st s)
             | (Inr user, s) \<Rightarrow> (writeJSON 200 (BUser user), set_store st s))))"

definition h_deleteUser :: "api_env \<Rightarrow> ('s, 'c, 'b) Handler \<Rightarrow> ('s, 'c, 'b) handler" where
  "h_deleteUser env h r st = Some (case h_authSvc h of
     None \<Rightarrow> (disabled, st)
   | Some a \<Rightarrow>
       (case auth_DeleteUser (ap_auth env) a (rq_id r) (the_store st) of
          (Some err, s) \<Rightarrow> (if err = ErrNotFound then writeError 404 ''user not found''
                            else writeError 500 ''could not delete user'', set_store st s)
        | (None, s) \<Rightarrow> (no_content, set_store st s)))"

definition h_registerDevice :: "api_env \<Rightarrow> ('s, 'c, 'b) Handler \<Rightarrow> ('s, 'c, 'b) handler" where
  "h_registerDevice env h r st =
     (case dec_device (rq_Body r) of
        None \<Rightarrow> Some (bad_json, st)
      | Some req \<Rightarrow>
          if reg_Name req = '''' then Some (writeError 400 ''name is required'', st)
          else (case svc_RegisterDevice (h_svc h) (ap_env env) req (sv_world st) of
                  None \<Rightarrow> None
                | Some (Inl err, w) \<Rightarrow> Some (writeError 500 (error_string err), st\<lparr>sv_world := w\<rparr>)
                | Some (Inr device, w) \<Rightarrow> Some (writeJSON 201 (BDevice device), st\<lparr>sv_world := w\<rparr>)))"

definition h_listDevices :: "api_env \<Rightarrow> ('s, 'c, 'b) Handler \<Rightarrow> ('s, 'c, 'b) handler" where
  "h_listDevices env h r st =
     Some (writeJSON 200 (BDevices (svc_ListDevices (h_svc h) (ap_env env) (sv_world st))), st)"

definition device_error :: "error \<Rightarrow> response" where
  "device_error err = (if err = ErrNotFound then writeError 404 ''device not found''
     else writeError 500 (error_string err))"

definition h_updateDevice :: "api_env \<Rightarrow> ('s, 'c, 'b) Handler \<Rightarrow> ('s, 'c, 'b) handler" where
  "h_updateDevice env h r st =
     (case dec_update_device (rq_Body r) of
        None \<Rightarrow> Some (bad_json, st)
      | Some req \<Rightarrow>
          if upd_Name req = '''' then Some (writeError 400 ''name is required'', st)
          else (case svc_UpdateDevice (h_svc h) (ap_env env) (rq_id r) req (sv_world st) of
                  None \<Rightarrow> None
                | Some (Inl err, w) \<Rightarrow> Some (device_error err, st\<lparr>sv_world := w\<rparr>)
                | Some (Inr device, w) \<Rightarrow> Some (writeJSON 200 (BDevice device), st\<lparr>sv_world := w\<rparr>)))"

definition h_getDevice :: "api_env \<Rightarrow> ('s, 'c, 'b) Handler \<Rightarrow> ('s, 'c, 'b) handler" where
  "h_getDevice env h r st =
     Some (case svc_GetDevice (h_svc h) (ap_env env) (rq_id r) (sv_world st) of
             Inl err \<Rightarrow> (device_error err, st)
           | Inr device \<Rightarrow> (writeJSON 200 (BDevice device), st))"

definition h_deleteDevice :: "('s, 'c, 'b) Handler \<Rightarrow> ('s, 'c, 'b) handler" where
  "h_deleteDevice h r st =
     Some (case svc_DeleteDevice (h_svc h) (rq_id r) (sv_world st) of
             (Some err, w) \<Rightarrow> (device_error err, st\<lparr>sv_world := w\<rparr>)
           | (None, w) \<Rightarrow> (no_content, st\<lparr>sv_world := w\<rparr>))"

definition h_ingestTelemetry :: "api_env \<Rightarrow> ('s, 'c, 'b) Handler \<Rightarrow> ('s, 'c, 'b) handler" where
  "h_ingestTelemetry env h r st =
     (case svc_GetDevice (h_svc h) (ap_env env) (rq_id r) (sv_world st) of
        Inl _ \<Rightarrow> Some (writeError 404 ''device not found'', st)
      | Inr _ \<Rightarrow>
          (case dec_telemetry (rq_Body r) of
             None \<Rightarrow> Some (bad_json, st)
           | Some body \<Rightarrow>
               if len_map (tb_Metrics body) = 0
               then Some (writeError 400 ''metrics are required'', st)
               else let t = \<lparr>tel_DeviceID = rq_id r,
                             tel_Timestamp = (case tb_Timestamp body of Some ts \<Rightarrow> ts | None \<Rightarrow> 0),
                             tel_Metrics = tb_Metrics body\<rparr>
                    in (case svc_IngestTelemetry (ap_env env) (sv_pool st) t of
                          None \<Rightarrow> None
                        | Some (ok, pool) \<Rightarrow>
                            Some (if \<not> ok then writeError 503 ''ingestion queue unavailable''
                                  else writeJSON 202 (BFields [(''status'', ''accepted'')]),
                                  st\<lparr>sv_pool := pool\<rparr>))))"

definition h_getTelemetry :: "api_env \<Rightarrow> ('s, 'c, 'b) Handler \<Rightarrow> ('s, 'c, 'b) handler" where
  "h_getTelemetry env h r st =
     Some (writeJSON 200 (BTelemetry (svc_GetTelemetry (h_svc h) (rq_id r)
       (parseSince (env_now (ap_env env) 0) r) (parseLimit r) (sv_world st))), st)"

definition h_getAnalytics :: "api_env \<Rightarrow> ('s, 'c, 'b) Handler \<Rightarrow> ('s, 'c, 'b) handler" where
  "h_getAnalytics env h r st =
     (let points = svc_GetTelemetrySince (h_svc h) (rq_id r)
            (parseSince (env_now (ap_env env) 0) r) (sv_world st);
          metric = query_Get r ''metric''
      in Some (writeJSON 200 (BAnalytics (rq_id r)
           (Aggregate (env_sched (ap_env env)) (env_sched (ap_env env) (length points)) points)
           (if metric \<noteq> ''''
            then Some (TimeSeries (env_sched (ap_env env) (Suc (length points))) points metric)
            else None)), st))"

definition h_listAlerts :: "api_env \<Rightarrow> ('s, 'c, 'b) Handler \<Rightarrow> ('s, 'c, 'b) handler" where
  "h_listAlerts env h r st =
     Some (writeJSON 200 (BAlerts (svc_ListAlerts (h_svc h) (ap_env env)
       (query_Get r ''device_id'') (sv_world st))), st)"

text \<open>
  The loop of the WebSocket handler on its channel; the events written so far are accumulated.
  An event turn while the channel is empty and open is no turn at all. The deferred
  \<open>Unsubscribe\<close> runs when the loop returns.
\<close>

fun ws_loop :: "nat \<Rightarrow> ws_turn list \<Rightarrow> Event list \<Rightarrow> ('s, 'c, 'b) world
    \<Rightarrow> (Event list \<times> ('s, 'c, 'b) world) option" where
  "ws_loop ch [] sent w = map_option (\<lambda>w'. (sent, w')) (svc_Unsubscribe ch w)"
| "ws_loop ch (WsClosed # turns) sent w = map_option (\<lambda>w'. (sent, w')) (svc_Unsubscribe ch w)"
| "ws_loop ch (WsEvent ok # turns) sent w =
     (case receive ch (w_hub w) of
        None \<Rightarrow> ws_loop ch turns sent w
      | Some (None, h) \<Rightarrow> map_option (\<lambda>w'. (sent, w')) (svc_Unsubscribe ch (w\<lparr>w_hub := h\<rparr>))
      | Some (Some ev, h) \<Rightarrow>
          if ok then ws_loop ch turns (sent @ [ev]) (w\<lparr>w_hub := h\<rparr>)
          else map_option (\<lambda>w'. (sent, w')) (svc_Unsubscribe ch (w\<lparr>w_hub := h\<rparr>)))"
| "ws_loop ch (WsBroadcast p e # turns) sent w =
     (case Broadcast p (w_hub w) e of
        None \<Rightarrow> None | Some h \<Rightarrow> ws_loop ch turns sent (w\<lparr>w_hub := h\<rparr>))"

definition h_websocket :: "api_env \<Rightarrow> ('s, 'c, 'b) handler" where
  "h_websocket env r st =
     (case ap_ws env of
        Inl refusal \<Rightarrow> Some (refusal, st)
      | Inr turns \<Rightarrow>
          (case svc_Subscribe (sv_world st) of
             (ch, w) \<Rightarrow> map_option (\<lambda>(sent, w'). (\<lparr>rs_Status = 101, rs_ContentType = '''',
               rs_Body = None, rs_Events = sent\<rparr>, st\<lparr>sv_world := w'\<rparr>)) (ws_loop ch turns [] w)))"

section \<open>Routes\<close>

datatype route =
    RHealth | RLogin | RRefresh | RLogout
  | RRegisterDevice | RListDevices | RGetDevice | RUpdateDevice | RDeleteDevice
  | RIngestTelemetry | RGetTelemetry | RGetAnalytics | RListAlerts
  | RCreateUser | RListUsers | RGetUser | RUpdateUser | RDeleteUser
  | RWebsocket

definition route_table :: "(string \<times> string list \<times> route) list" where
  "route_table =
     [(''/health'', [''GET''], RHealth),
      (''/api/auth/login'', [''POST''], RLogin),
      (''/api/auth/refresh'', [''POST''], RRefresh),
      (''/api/auth/logout'', [''POST''], RLogout),
      (''/api/devices'', [''POST''], RRegisterDevice),
      (''/api/devices'', [''GET''], RListDevices),
      (''/api/devices/{id}'', [''GET''], RGetDevice),
      (''/api/devices/{id}'', [''PUT''], RUpdateDevice),
      (''/api/devices/{id}'', [''DELETE''], RDeleteDevice),
      (''/api/devices/{id}/telemetry'', [''POST''], RIngestTelemetry),
      (''/api/devices/{id}/telemetry'', [''GET''], RGetTelemetry),
      (''/api/devices/{id}/analytics'', [''GET''], RGetAnalytics),
      (''/api/alerts'', [''GET''], RListAlerts),
      (''/api/users'', [''POST''], RCreateUser),
      (''/api/users'', [''GET''], RListUsers),
      (''/api/users/{id}'', [''GET''], RGetUser),
      (''/api/users/{id}'', [''PUT''], RUpdateUser),
      (''/api/users/{id}'', [''DELETE''], RDeleteUser),
      (''/ws'', [], RWebsocket)]"

definition h_admin :: "('s, 'c, 'b) Handler \<Rightarrow> ('s, 'c, 'b) handler \<Rightarrow> ('s, 'c, 'b) handler" where
  "h_admin h handler = (if h_auth h = None then handler else RequireRole RoleAdmin handler)"

definition run_route :: "lib \<Rightarrow> api_env \<Rightarrow> ('s, 'c, 'b) Handler \<Rightarrow> route \<Rightarrow> ('s, 'c, 'b) handler" where
  "run_route lib env h route = (case route of
     RHealth \<Rightarrow> h_health
   | RLogin \<Rightarrow> h_login lib env h
   | RRefresh \<Rightarrow> h_refresh lib env h
   | RLogout \<Rightarrow> h_logout h
   | RRegisterDevice \<Rightarrow> h_admin h (h_registerDevice env h)
   | RListDevices \<Rightarrow> h_listDevices env h
   | RGetDevice \<Rightarrow> h_getDevice env h
   | RUpdateDevice \<Rightarrow> h_admin h (h_updateDevice env h)
   | RDeleteDevice \<Rightarrow> h_admin h (h_deleteDevice h)
   | RIngestTelemetry \<Rightarrow> h_ingestTelemetry env h
   | RGetTelemetry \<Rightarrow> h_getTelemetry env h
   | RGetAnalytics \<Rightarrow> h_getAnalytics env h
   | RListAlerts \<Rightarrow> h_listAlerts env h
   | RCreateUser \<Rightarrow> h_admin h (h_createUser lib env h)
   | RListUsers \<Rightarrow> h_admin h (h_listUsers env h)
   | RGetUser \<Rightarrow> h_admin h (h_getUser h)
   | RUpdateUser \<Rightarrow> h_admin h (h_updateUser lib env h)
   | RDeleteUser \<Rightarrow> h_admin h (h_deleteUser env h)
   | RWebsocket \<Rightarrow> h_websocket env)"

datatype mux_answer = Matched route string | MuxAnswer nat

type_synonym mux = "(string \<times> string list \<times> route) list \<Rightarrow> string \<Rightarrow> string \<Rightarrow> mux_answer"

text \<open>A request from the network starts with an empty context.\<close>

definition serve :: "lib \<Rightarrow> mux \<Rightarrow> api_env \<Rightarrow> ('s, 'c, 'b) Handler \<Rightarrow> ('s, 'c, 'b) handler" where
  "serve lib mux env h r st =
     (case mux route_table (rq_Method r) (rq_Path r) of
        MuxAnswer status \<Rightarrow>
          Some (\<lparr>rs_Status = status, rs_ContentType = '''', rs_Body = None, rs_Events = []\<rparr>, st)
      | Matched route i \<Rightarrow>
          jsonContentType
            (case h_auth h of
               None \<Rightarrow> run_route lib env h route
             | Some m \<Rightarrow> mw_Middleware lib (ap_now env) m (run_route lib env h route))
            (r\<lparr>rq_id := i, rq_Claims := None\<rparr>) st)"

end
