(* ===== verification/Auth_Correct.thy ===== *)
theory Auth_Correct
  imports Auth Memory_Store_Correct
begin

text \<open>
  The life of users, passwords and tokens, proved from the contract of the user store alone
  (locale \<open>auth_service\<close>) and read off for the in-memory store.
\<close>

section \<open>Over any user store\<close>

definition refresh_entry :: "auth_env \<Rightarrow> 's AuthService \<Rightarrow> User \<Rightarrow> string \<Rightarrow> RefreshToken" where
  "refresh_entry env svc u refresh =
     \<lparr>rt_TokenHash = hashToken refresh, rt_UserID = usr_ID u,
      rt_ExpiresAt = Add (ae_now env 2) (as_refreshTTL svc), rt_CreatedAt = ae_now env 3\<rparr>"

definition token_live :: "time \<Rightarrow> RefreshToken \<Rightarrow> bool" where
  "token_live now r \<longleftrightarrow> IsZero (rt_ExpiresAt r) \<or> \<not> After now (rt_ExpiresAt r)"

locale auth_service =
  user_contract "as_users svc" keep inv usr tok
  for svc :: "'s AuthService" and keep inv usr tok
begin

lemma issue_ok:
  assumes "inv s" "mgr_Generate lib (ae_now env 1) (as_tokens svc) (usr_ID u) (usr_Roles u) = Inr access"
    and "newOpaqueToken (ae_random env) = Inr refresh" "tok s (hashToken refresh) = None"
  shows "\<exists>s' pair. issueTokens lib env svc u s = (Inr pair, s') \<and> inv s' \<and> usr s' = usr s
    \<and> tok s' = (tok s)(hashToken refresh \<mapsto> kept_token keep (refresh_entry env svc u refresh))
    \<and> tp_AccessToken pair = access \<and> tp_RefreshToken pair = refresh"
proof -
  let ?r = "refresh_entry env svc u refresh"
  obtain e s' where st: "StoreRefreshToken (as_users svc) s ?r = (e, s')" by force
  have "e = None \<and> inv s' \<and> usr s' = usr s \<and> tok s' = (tok s)(rt_TokenHash ?r \<mapsto> kept_token keep ?r)"
    by (rule put_token [OF assms(1) _ st]) (simp add: refresh_entry_def assms(4))
  with st assms show ?thesis
    by (simp add: issueTokens_def refresh_entry_def)
qed

lemma issue_any:
  assumes "inv s" "issueTokens lib env svc u s = (res, s')"
    and "\<And>t'. newOpaqueToken (ae_random env) = Inr t' \<Longrightarrow> tok s (hashToken t') = None"
  shows "inv s' \<and> usr s' = usr s \<and> (s' = s \<or> (\<exists>t'. newOpaqueToken (ae_random env) = Inr t'
    \<and> tok s' = (tok s)(hashToken t' \<mapsto> kept_token keep (refresh_entry env svc u t'))))"
proof (cases "mgr_Generate lib (ae_now env 1) (as_tokens svc) (usr_ID u) (usr_Roles u)")
  case (Inr access)
  show ?thesis
  proof (cases "newOpaqueToken (ae_random env)")
    case (Inr t')
    with issue_ok [OF assms(1) \<open>mgr_Generate _ _ _ _ _ = Inr access\<close> Inr assms(3) [OF Inr]] assms(2)
    show ?thesis by auto
  qed (use Inr assms in \<open>simp add: issueTokens_def\<close>)
qed (use assms in \<open>simp add: issueTokens_def\<close>)

lemma lookup_eq:
  "inv s \<Longrightarrow> refresh_lookup env svc t s = (case tok s (hashToken t) of
     None \<Rightarrow> Inl ErrInvalidToken
   | Some r \<Rightarrow> if token_live (ae_now env 0) r then Inr r else Inl ErrInvalidToken)"
  by (auto simp: refresh_lookup_def get_token token_live_def split: option.splits)

lemma refresh_unknown:
  "\<lbrakk>inv s; tok s (hashToken t) = None\<rbrakk> \<Longrightarrow> auth_Refresh lib env svc t s = (Inl ErrInvalidToken, s)"
  by (simp add: auth_Refresh_def lookup_eq)

lemma drop_presented:
  assumes "inv s"
  obtains s1 where "snd (DeleteRefreshToken (as_users svc) s (hashToken t)) = s1" "inv s1"
    "usr s1 = usr s" "tok s1 = (tok s)(hashToken t := None)"
  using drop_token [OF assms, of "hashToken t"]
  by (metis prod.collapse)

lemma rotate_ok:
  assumes "inv s" "usr s (rt_UserID r) = Some u"
    and "mgr_Generate lib (ae_now env 1) (as_tokens svc) (usr_ID u) (usr_Roles u) = Inr access"
    and "newOpaqueToken (ae_random env) = Inr t'"
    and "tok s (hashToken t') = None \<or> hashToken t' = hashToken t"
  shows "\<exists>s' pair. refresh_rotate lib env svc t r s = (Inr pair, s') \<and> inv s' \<and> usr s' = usr s
    \<and> tok s' = (tok s)(hashToken t := None, hashToken t' \<mapsto> kept_token keep (refresh_entry env svc u t'))
    \<and> tp_AccessToken pair = access \<and> tp_RefreshToken pair = t'"
proof -
  from drop_presented [OF assms(1), of t] obtain s1 where s1:
    "snd (DeleteRefreshToken (as_users svc) s (hashToken t)) = s1" "inv s1" "usr s1 = usr s"
    "tok s1 = (tok s)(hashToken t := None)"
    by blast
  have "tok s1 (hashToken t') = None" using assms(5) s1(4) by auto
  from issue_ok [OF s1(2) assms(3,4) this] s1 assms(2) show ?thesis
    by (auto simp: refresh_rotate_def by_id Let_def)
qed

lemma refresh_ok:
  assumes "inv s" "tok s (hashToken t) = Some r" "token_live (ae_now env 0) r"
    and "usr s (rt_UserID r) = Some u"
    and "mgr_Generate lib (ae_now env 1) (as_tokens svc) (usr_ID u) (usr_Roles u) = Inr access"
    and "newOpaqueToken (ae_random env) = Inr t'" "tok s (hashToken t') = None"
  shows "\<exists>s' pair. auth_Refresh lib env svc t s = (Inr pair, s') \<and> inv s' \<and> usr s' = usr s
    \<and> tok s' = (tok s)(hashToken t := None, hashToken t' \<mapsto> kept_token keep (refresh_entry env svc u t'))
    \<and> tp_AccessToken pair = access \<and> tp_RefreshToken pair = t'"
  using rotate_ok [OF assms(1,4,5,6), of t] assms(1,2,3,7)
  by (simp add: auth_Refresh_def lookup_eq)

text \<open>A token that \<open>Refresh\<close> was called with is gone, whatever the outcome.\<close>

lemma refresh_spends:
  assumes "inv s" "auth_Refresh lib env svc t s = (res, s')"
    and "\<And>t'. newOpaqueToken (ae_random env) = Inr t' \<Longrightarrow>
           tok s (hashToken t') = None \<and> hashToken t' \<noteq> hashToken t"
  shows "inv s' \<and> (tok s' (hashToken t) = None \<or> (res = Inl ErrInvalidToken \<and> s' = s))"
proof (cases "refresh_lookup env svc t s")
  case (Inl err)
  then have "err = ErrInvalidToken" by (auto simp: refresh_lookup_def split: sum.splits)
  with Inl assms(1,2) show ?thesis by (simp add: auth_Refresh_def)
next
  case (Inr r)
  from drop_presented [OF assms(1), of t] obtain s1 where s1:
    "snd (DeleteRefreshToken (as_users svc) s (hashToken t)) = s1" "inv s1" "usr s1 = usr s"
    "tok s1 = (tok s)(hashToken t := None)"
    by blast
  have run: "(res, s') = (case GetUserByID (as_users svc) s1 (rt_UserID r) of
      Inl _ \<Rightarrow> (Inl ErrInvalidToken, s1) | Inr u \<Rightarrow> issueTokens lib env svc u s1)"
    using assms(2) Inr s1(1) by (simp add: auth_Refresh_def refresh_rotate_def Let_def)
  show ?thesis
  proof (cases "GetUserByID (as_users svc) s1 (rt_UserID r)")
    case (Inr u)
    note run' = run [unfolded Inr sum.case]
    show ?thesis
      using issue_any [OF s1(2) run' [symmetric]] assms(3) s1 by fastforce
  qed (use run s1 in simp)
qed

lemma create_ok:
  assumes "inv s" "8 \<le> length pw" "bcrypt_Generate lib (ae_salt env) (as_bcryptCost svc) pw = Inr h"
    and "usr s (ae_id env) = None" "\<forall>i v. usr s i = Some v \<longrightarrow> usr_Username v \<noteq> name"
  shows "\<exists>u s'. auth_CreateUser lib env svc name pw roles s = (Inr u, s') \<and> inv s'
    \<and> usr s' = (usr s)(ae_id env \<mapsto> kept_user keep u) \<and> tok s' = tok s \<and> usr_ID u = ae_id env
    \<and> usr_Username u = name \<and> usr_PasswordHash u = h
    \<and> usr_Roles u = (if roles = [] then [RoleViewer] else roles)"
proof -
  define u where "u = \<lparr>usr_ID = ae_id env, usr_Username = name, usr_PasswordHash = h,
    usr_Roles = (if roles = [] then [RoleViewer] else roles), usr_CreatedAt = ae_now env 0\<rparr>"
  obtain e s' where c: "CreateUser (as_users svc) (ae_sched env 0) s u = (e, s')" by force
  have "e = None \<and> inv s' \<and> usr s' = (usr s)(usr_ID u \<mapsto> kept_user keep u) \<and> tok s' = tok s"
    by (rule create_user [OF assms(1) _ _ c]) (use assms(4,5) in \<open>simp_all add: u_def\<close>)
  with c assms(2,3) show ?thesis
    by (simp add: auth_CreateUser_def u_def)
qed

lemma create_refused:
  assumes "inv s" "usr s (ae_id env) = None" "auth_CreateUser lib env svc name pw roles s = (Inl err, s')"
  shows "s' = s"
proof (cases "length pw < 8")
  case False
  show ?thesis
  proof (cases "bcrypt_Generate lib (ae_salt env) (as_bcryptCost svc) pw")
    case (Inr h)
    define u where "u = \<lparr>usr_ID = ae_id env, usr_Username = name, usr_PasswordHash = h,
      usr_Roles = (if roles = [] then [RoleViewer] else roles), usr_CreatedAt = ae_now env 0\<rparr>"
    have "CreateUser (as_users svc) (ae_sched env 0) s u = (Some err, s')"
      using assms(3) False Inr
      by (auto simp: auth_CreateUser_def u_def Let_def split: prod.splits option.splits)
    then show ?thesis using create_error [OF assms(1), of u] assms(2) by (simp add: u_def)
  qed (use assms(3) False in \<open>simp add: auth_CreateUser_def\<close>)
qed (use assms(3) in \<open>simp add: auth_CreateUser_def\<close>)

lemma authenticate_known:
  assumes "inv s" "usr s i = Some u"
  shows "authenticate lib env svc (usr_Username u) pw s =
    (if bcrypt_Compare lib (usr_PasswordHash u) pw = None then Inr u else Inl ErrInvalidCredentials)"
  using by_name_known [OF assms] by (simp add: authenticate_def split: option.splits)

lemma authenticate_unknown:
  assumes "inv s" "\<forall>i v. usr s i = Some v \<longrightarrow> usr_Username v \<noteq> name"
  shows "authenticate lib env svc name pw s = Inl ErrInvalidCredentials"
  using by_name_missing [OF assms] by (simp add: authenticate_def)

lemma authenticate_sound:
  assumes "inv s" "authenticate lib env svc name pw s = Inr u"
  shows "usr s (usr_ID u) = Some u \<and> usr_Username u = name
    \<and> bcrypt_Compare lib (usr_PasswordHash u) pw = None"
  using assms by_name_found [OF assms(1), of "ae_sched env 0" name u]
  by (auto simp: authenticate_def split: sum.splits option.splits)

lemma update_password:
  assumes "inv s" "usr s i = Some u" "8 \<le> length pw"
    and "bcrypt_Generate lib (ae_salt env) (as_bcryptCost svc) pw = Inr h"
  shows "\<exists>v s'. auth_UpdateUser lib env svc i roles pw s = (Inr v, s') \<and> inv s'
    \<and> v = u\<lparr>usr_PasswordHash := h, usr_Roles := (case roles of None \<Rightarrow> usr_Roles u | Some rs \<Rightarrow> rs)\<rparr>
    \<and> usr s' = (usr s)(i \<mapsto> v)
    \<and> tok s' = (\<lambda>k. case tok s k of None \<Rightarrow> None
                     | Some r \<Rightarrow> if rt_UserID r = i then None else Some r)"
proof -
  define v where "v = u\<lparr>usr_PasswordHash := h,
    usr_Roles := (case roles of None \<Rightarrow> usr_Roles u | Some rs \<Rightarrow> rs)\<rparr>"
  have key: "usr_ID u = i" by (rule usr_keyed [OF assms(1,2)])
  then have idv: "usr_ID v = i" by (simp add: v_def)
  obtain e s1 where st: "UpdateUser (as_users svc) s v = (e, s1)" by force
  have s1: "e = None \<and> inv s1 \<and> usr s1 = (usr s)(usr_ID v \<mapsto> v) \<and> tok s1 = tok s"
    by (rule update_user [OF assms(1) _ _ _ st]) (use assms(2) idv in \<open>simp_all add: v_def\<close>)
  obtain e2 s2 where dl: "DeleteUserRefreshTokens (as_users svc) (ae_sched env 0) s1 i = (e2, s2)"
    by force
  note s2 = drop_user_tokens [OF _ dl]
  have pw: "pw \<noteq> ''''" "\<not> length pw < 8" using assms(3) by auto
  have v': "(case roles of None \<Rightarrow> u | Some rs \<Rightarrow> u\<lparr>usr_Roles := rs\<rparr>)\<lparr>usr_PasswordHash := h\<rparr> = v"
    by (simp add: v_def split: option.splits)
  have "auth_UpdateUser lib env svc i roles pw s = (Inr v, s2)"
    using by_id [OF assms(1), of i] assms(2,4) pw st s1 dl idv
    by (simp add: auth_UpdateUser_def Let_def v')
  then show ?thesis using s1 s2 idv unfolding v_def [symmetric] by auto
qed

lemma delete_user_tokens:
  assumes "inv s" "usr s i = Some u"
  shows "\<exists>s'. auth_DeleteUser env svc i s = (None, s') \<and> inv s' \<and> usr s' = (usr s)(i := None)
    \<and> tok s' = (\<lambda>k. case tok s k of None \<Rightarrow> None
                     | Some r \<Rightarrow> if rt_UserID r = i then None else Some r)"
proof -
  obtain e s' where dl: "DeleteUser (as_users svc) (ae_sched env 0) s i = (e, s')" by force
  from delete_user [OF assms dl] dl show ?thesis by (simp add: auth_DeleteUser_def)
qed

lemma ensure_existing:
  assumes "inv s" "usr s i = Some u"
  shows "auth_EnsureUser lib env svc (usr_Username u) pw roles s = (Inr False, s)"
  using by_name_known [OF assms] by (simp add: auth_EnsureUser_def)

lemma ensure_missing:
  assumes "inv s" "\<forall>i v. usr s i = Some v \<longrightarrow> usr_Username v \<noteq> name"
  shows "auth_EnsureUser lib env svc name pw roles s =
    (case auth_CreateUser lib env svc name pw roles s of
       (Inl e, s') \<Rightarrow> (Inl e, s') | (Inr _, s') \<Rightarrow> (Inr True, s'))"
  using by_name_missing [OF assms] by (simp add: auth_EnsureUser_def)

end

section \<open>On the in-memory store\<close>

lemma NewService_fields [simp]:
  "as_users (NewService lib us mgr n) = us" "as_tokens (NewService lib us mgr n) = mgr"
  "as_bcryptCost (NewService lib us mgr n) = bcrypt_DefaultCost lib"
  "as_refreshTTL (NewService lib us mgr n) = (if n \<le> 0 then 7 * 24 * Hour else n)"
  by (simp_all add: NewService_def)

interpretation mem_auth: auth_service "NewService lb mem_user_store mgr n" id mem_wf
  "\<lambda>s. fmlookup (ms_users s)" "\<lambda>s. fmlookup (ms_refresh s)"
  for lb mgr n
  unfolding auth_service_def NewService_fields by (rule mem_usr.user_contract_axioms)

lemma jwt_accepts:
  assumes "jwt_ok lib" "portable_claims lib c" "jwt_Sign lib alg c key = Inr tok"
    and "alg \<in> set methods" "kf alg = Inr key" "Before now (cl_ExpiresAt c)"
  shows "tok \<noteq> '''' \<and> jwt_Parse lib now tok kf methods (cl_Issuer c) = Inr (c, True)"
  using assms unfolding jwt_ok_def by blast

lemma mgr_roundtrip:
  assumes "jwt_ok lib" "mgr_Generate lib now m subject roles = Inr token"
    and "ascii subject" "ascii (mgr_issuer m)" "list_all ascii roles"
    and "Before later (jwt_NumericDate lib (Add now (mgr_ttl m)))"
  shows "mgr_Parse lib later m token = Inr \<lparr>cl_Roles = roles, cl_Subject = subject,
    cl_Issuer = mgr_issuer m, cl_IssuedAt = jwt_NumericDate lib now,
    cl_ExpiresAt = jwt_NumericDate lib (Add now (mgr_ttl m))\<rparr>"
proof -
  let ?c = "\<lparr>cl_Roles = roles, cl_Subject = subject, cl_Issuer = mgr_issuer m,
    cl_IssuedAt = jwt_NumericDate lib now, cl_ExpiresAt = jwt_NumericDate lib (Add now (mgr_ttl m))\<rparr>"
  have port: "portable_claims lib ?c" using assms(3-5) by (auto simp: portable_claims_def)
  have key: "key_func lib m ''HS256'' = Inr (mgr_secret m)"
    using assms(1) by (simp add: key_func_def jwt_ok_def)
  have sig: "jwt_Sign lib ''HS256'' ?c (mgr_secret m) = Inr token"
    using assms(2) by (simp add: mgr_Generate_def)
  have "token \<noteq> ''''
      \<and> jwt_Parse lib later token (key_func lib m) [''HS256''] (cl_Issuer ?c) = Inr (?c, True)"
    by (rule jwt_accepts [OF assms(1) port sig]) (simp_all add: assms(6) key)
  then show ?thesis by (simp add: mgr_Parse_def)
qed

text \<open>
  C10: Refresh tokens rotate. Presenting a live refresh token of an existing user returns a new
  pair, spends the presented token for good (presenting it again fails and changes nothing),
  makes the new one usable until its expiry, and touches no user and no other token.
\<close>

theorem refresh_rotation:
  assumes "mem_wf s" "fmlookup (ms_refresh s) (hashToken t) = Some r"
    and "\<not> IsZero (rt_ExpiresAt r) \<longrightarrow> \<not> After (ae_now env 0) (rt_ExpiresAt r)"
    and "fmlookup (ms_users s) (rt_UserID r) = Some u"
    and "svc = NewService lib mem_user_store mgr n"
    and "mgr_Generate lib (ae_now env 1) mgr (usr_ID u) (usr_Roles u) = Inr access"
    and "newOpaqueToken (ae_random env) = Inr t'" "fmlookup (ms_refresh s) (hashToken t') = None"
  shows "\<exists>pair s'. auth_Refresh lib env svc t s = (Inr pair, s') \<and> mem_wf s'
    \<and> tp_AccessToken pair = access \<and> tp_RefreshToken pair = t'
    \<and> (\<forall>later. auth_Refresh lib later svc t s' = (Inl ErrInvalidToken, s'))
    \<and> (\<forall>later. ae_now later 0 \<le> Add (ae_now env 2) (as_refreshTTL svc) \<longrightarrow>
        (\<exists>r'. refresh_lookup later svc t' s' = Inr r' \<and> rt_UserID r' = rt_UserID r))
    \<and> fmlookup (ms_users s') = fmlookup (ms_users s)
    \<and> (\<forall>k. k \<noteq> hashToken t \<and> k \<noteq> hashToken t' \<longrightarrow>
        fmlookup (ms_refresh s') k = fmlookup (ms_refresh s) k)"
proof -
  have live: "token_live (ae_now env 0) r" using assms(3) by (auto simp: token_live_def)
  have gen: "mgr_Generate lib (ae_now env 1) (as_tokens (NewService lib mem_user_store mgr n))
      (usr_ID u) (usr_Roles u) = Inr access" using assms(6) by simp
  have ne: "hashToken t \<noteq> hashToken t'" using assms(2,8) by auto
  have uid: "usr_ID u = rt_UserID r" by (rule mem_auth.usr_keyed [OF assms(1,4)])
  from mem_auth.refresh_ok [OF assms(1,2) live assms(4) gen assms(7,8), folded assms(5), unfolded kept_id]
  obtain s' pair where s': "auth_Refresh lib env svc t s = (Inr pair, s')" "mem_wf s'"
    "fmlookup (ms_users s') = fmlookup (ms_users s)"
    "fmlookup (ms_refresh s') = (fmlookup (ms_refresh s))(hashToken t := None,
       hashToken t' \<mapsto> refresh_entry env svc u t')"
    "tp_AccessToken pair = access" "tp_RefreshToken pair = t'"
    by blast
  have spent: "auth_Refresh lib later svc t s' = (Inl ErrInvalidToken, s')" for later
    unfolding assms(5) by (rule mem_auth.refresh_unknown [OF s'(2)]) (use s'(4) ne in simp)
  have fresh: "\<exists>r'. refresh_lookup later svc t' s' = Inr r' \<and> rt_UserID r' = rt_UserID r"
    if "ae_now later 0 \<le> Add (ae_now env 2) (as_refreshTTL svc)" for later
    using that uid s'(4) mem_auth.lookup_eq [OF s'(2), of later lib mgr n t', folded assms(5)]
    by (simp add: refresh_entry_def token_live_def After_def)
  show ?thesis
    by (intro exI [of _ pair] exI [of _ s']) (use s' spent fresh in simp)
qed

text \<open>A concrete library, manager and state for the witnesses.\<close>

definition sample_claims :: Claims where
  "sample_claims = \<lparr>cl_Roles = [''admin''], cl_Subject = ''u1'', cl_Issuer = ''iot-api'',
     cl_IssuedAt = 100, cl_ExpiresAt = 100 + 15 * Minute\<rparr>"

definition sample_lib :: lib where
  "sample_lib = \<lparr>jwt_NumericDate = (\<lambda>t. t),
     jwt_Sign = (\<lambda>alg c key. if alg = ''HS256'' \<and> c = sample_claims \<and> key = ''secret''
                             then Inr ''jwt'' else Inl (ErrOther ''sign'')),
     jwt_Parse = (\<lambda>now tok kf methods iss.
        if tok = ''jwt'' \<and> ''HS256'' \<in> set methods \<and> kf ''HS256'' = Inr ''secret''
           \<and> iss = ''iot-api'' \<and> Before now (cl_ExpiresAt sample_claims)
        then Inr (sample_claims, True) else Inl (ErrOther ''token'')),
     jwt_isHMAC = (\<lambda>alg. alg = ''HS256''),
     bcrypt_Generate = (\<lambda>salt cost pw. Inr (''$'' @ pw)),
     bcrypt_Compare = (\<lambda>h pw. if h = ''$'' @ pw then None else Some (ErrOther ''mismatch'')),
     bcrypt_DefaultCost = 10\<rparr>"

definition sample_mgr :: Manager where
  "sample_mgr = \<lparr>mgr_secret = ''secret'', mgr_issuer = ''iot-api'', mgr_ttl = 15 * Minute\<rparr>"

definition sample_auth_env :: "nat list \<Rightarrow> auth_env" where
  "sample_auth_env bytes = \<lparr>ae_now = (\<lambda>_. 100), ae_id = ''u1'', ae_sched = (\<lambda>_. []),
     ae_random = Inr bytes, ae_salt = ''$''\<rparr>"

definition sample_user :: User where
  "sample_user = \<lparr>usr_ID = ''u1'', usr_Username = ''root'', usr_PasswordHash = ''$password'',
     usr_Roles = [''admin''], usr_CreatedAt = 100\<rparr>"

definition sample_token :: RefreshToken where
  "sample_token = \<lparr>rt_TokenHash = hashToken ''abc'', rt_UserID = ''u1'', rt_ExpiresAt = 200,
     rt_CreatedAt = 50\<rparr>"

definition sample_auth_store :: MemoryStore where
  "sample_auth_store = snd (mem_StoreRefreshToken
     (snd (mem_CreateUser [] (NewMemoryStore 0) sample_user)) sample_token)"

lemma sample_auth_store_wf: "mem_wf sample_auth_store"
proof -
  have "mem_wf (snd (mem_CreateUser [] (NewMemoryStore 0) sample_user))"
    using wf_CreateUser [OF NewMemoryStore_wf] by (metis prod.collapse)
  then show ?thesis
    unfolding sample_auth_store_def using wf_StoreRefreshToken by (metis prod.collapse)
qed

lemma sample_auth_store_fields:
  "fmlookup (ms_users sample_auth_store) i = (if i = ''u1'' then Some sample_user else None)"
  "fmlookup (ms_refresh sample_auth_store) h =
     (if h = hashToken ''abc'' then Some sample_token else None)"
  by (simp_all add: sample_auth_store_def mem_StoreRefreshToken_def mem_CreateUser_def
      NewMemoryStore_def sample_user_def sample_token_def)

lemma sample_bcrypt_ok: "bcrypt_ok sample_lib"
  by (simp add: bcrypt_ok_def sample_lib_def)

lemma sample_bcrypt: "bcrypt_Generate sample_lib salt cost pw = Inr (''$'' @ pw)"
  by (simp add: sample_lib_def)

lemma sample_jwt_ok: "jwt_ok sample_lib"
  by (auto simp: jwt_ok_def sample_lib_def sample_claims_def split: if_splits)

lemma sample_generate:
  "mgr_Generate sample_lib (ae_now (sample_auth_env b) k) sample_mgr (usr_ID sample_user)
     (usr_Roles sample_user) = Inr ''jwt''"
  by (simp add: mgr_Generate_def sample_lib_def sample_mgr_def sample_user_def sample_auth_env_def
      sample_claims_def Add_def)

lemma sample_opaque:
  "newOpaqueToken (ae_random (sample_auth_env (replicate 32 0))) = Inr token_one"
  "newOpaqueToken (ae_random (sample_auth_env (replicate 31 0 @ [1]))) = Inr token_two"
  by (simp_all add: newOpaqueToken_def sample_auth_env_def token_one_def token_two_def)

abbreviation sample_auth :: "MemoryStore AuthService" where
  "sample_auth \<equiv> NewService sample_lib mem_user_store sample_mgr 0"

theorem refresh_rotation_witness:
  "\<exists>pair s'. auth_Refresh sample_lib (sample_auth_env (replicate 32 0)) sample_auth ''abc''
      sample_auth_store = (Inr pair, s') \<and> tp_RefreshToken pair = token_one
    \<and> auth_Refresh sample_lib (sample_auth_env []) sample_auth ''abc'' s' = (Inl ErrInvalidToken, s')"
proof -
  have old: "fmlookup (ms_refresh sample_auth_store) (hashToken ''abc'') = Some sample_token"
    and user: "fmlookup (ms_users sample_auth_store) (rt_UserID sample_token) = Some sample_user"
    and new: "fmlookup (ms_refresh sample_auth_store) (hashToken token_one) = None"
    using sample_hashes_distinct by (simp_all add: sample_auth_store_fields sample_token_def)
  have live: "\<not> IsZero (rt_ExpiresAt sample_token) \<longrightarrow>
      \<not> After (ae_now (sample_auth_env (replicate 32 0)) 0) (rt_ExpiresAt sample_token)"
    by (simp add: sample_token_def sample_auth_env_def After_def)
  from refresh_rotation [OF sample_auth_store_wf old live user refl sample_generate sample_opaque(1) new]
  show ?thesis by blast
qed

text \<open>
  C29: Rotation is not atomic. When two requests present the same live token and both look it
  up before either of them rotates it, both succeed: the one token is exchanged for two usable
  refresh tokens of the same user.
\<close>

theorem refresh_race:
  assumes "mem_wf s" "svc = NewService lib mem_user_store mgr n"
    and "refresh_lookup env1 svc t s = Inr r" "refresh_lookup env2 svc t s = Inr r"
    and "fmlookup (ms_users s) (rt_UserID r) = Some u"
    and "mgr_Generate lib (ae_now env1 1) mgr (usr_ID u) (usr_Roles u) = Inr a1"
    and "mgr_Generate lib (ae_now env2 1) mgr (usr_ID u) (usr_Roles u) = Inr a2"
    and "newOpaqueToken (ae_random env1) = Inr t1" "newOpaqueToken (ae_random env2) = Inr t2"
    and "fmlookup (ms_refresh s) (hashToken t1) = None" "fmlookup (ms_refresh s) (hashToken t2) = None"
    and "distinct [hashToken t, hashToken t1, hashToken t2]"
  shows "\<exists>p1 p2 s1 s2. refresh_rotate lib env1 svc t r s = (Inr p1, s1)
    \<and> refresh_rotate lib env2 svc t r s1 = (Inr p2, s2) \<and> mem_wf s2
    \<and> tp_RefreshToken p1 = t1 \<and> tp_RefreshToken p2 = t2
    \<and> fmlookup (ms_refresh s2) (hashToken t1) = Some (refresh_entry env1 svc u t1)
    \<and> fmlookup (ms_refresh s2) (hashToken t2) = Some (refresh_entry env2 svc u t2)"
proof -
  note step = mem_auth.rotate_ok [where t = t and lib = lib and lb = lib and mgr = mgr and n = n,
      folded assms(2)]
  have tok: "as_tokens svc = mgr" by (simp add: assms(2))
  obtain p1 s1 where 1: "refresh_rotate lib env1 svc t r s = (Inr p1, s1)" "mem_wf s1"
    "fmlookup (ms_users s1) = fmlookup (ms_users s)"
    "fmlookup (ms_refresh s1) = (fmlookup (ms_refresh s))(hashToken t := None,
       hashToken t1 \<mapsto> refresh_entry env1 svc u t1)" "tp_RefreshToken p1 = t1"
    using step [OF assms(1,5) _ assms(8), where access = a1] assms(6,10) tok by auto
  have "fmlookup (ms_refresh s1) (hashToken t2) = None" "fmlookup (ms_users s1) (rt_UserID r) = Some u"
    using 1 assms(5,11,12) by auto
  then obtain p2 s2 where 2: "refresh_rotate lib env2 svc t r s1 = (Inr p2, s2)" "mem_wf s2"
    "fmlookup (ms_refresh s2) = (fmlookup (ms_refresh s1))(hashToken t := None,
       hashToken t2 \<mapsto> refresh_entry env2 svc u t2)" "tp_RefreshToken p2 = t2"
    using step [OF 1(2) _ _ assms(9), where r = r and u = u and access = a2] assms(7) tok by auto
  show ?thesis using 1 2 assms(12) by auto
qed

theorem refresh_race_witness:
  "\<exists>p1 p2 s1 s2. refresh_rotate sample_lib (sample_auth_env (replicate 32 0)) sample_auth ''abc''
       sample_token sample_auth_store = (Inr p1, s1)
    \<and> refresh_rotate sample_lib (sample_auth_env (replicate 31 0 @ [1])) sample_auth ''abc''
       sample_token s1 = (Inr p2, s2)
    \<and> tp_RefreshToken p1 = token_one \<and> tp_RefreshToken p2 = token_two"
proof -
  have user: "fmlookup (ms_users sample_auth_store) (rt_UserID sample_token) = Some sample_user"
    and new: "fmlookup (ms_refresh sample_auth_store) (hashToken token_one) = None"
    "fmlookup (ms_refresh sample_auth_store) (hashToken token_two) = None"
    and neq: "distinct [hashToken ''abc'', hashToken token_one, hashToken token_two]"
    using sample_hashes_distinct by (auto simp: sample_auth_store_fields sample_token_def)
  have found: "refresh_lookup (sample_auth_env b) sample_auth ''abc'' sample_auth_store
      = Inr sample_token" for b
    by (simp add: mem_auth.lookup_eq [OF sample_auth_store_wf] sample_auth_store_fields
        token_live_def sample_token_def sample_auth_env_def After_def)
  from refresh_race [OF sample_auth_store_wf refl found found user sample_generate sample_generate
      sample_opaque new neq]
  show ?thesis by blast
qed

text \<open>
  C28: Changing a password stores the hash of the new one, lets the user log in with it, and
  revokes every refresh token of that user; tokens of other users and all other accounts are
  as before.
\<close>

theorem password_change_revokes:
  assumes "mem_wf s" "fmlookup (ms_users s) i = Some u" "8 \<le> length pw" "bcrypt_ok lib"
    and "svc = NewService lib mem_user_store mgr n"
    and "bcrypt_Generate lib (ae_salt env) (as_bcryptCost svc) pw = Inr h"
  shows "\<exists>v s'. auth_UpdateUser lib env svc i roles pw s = (Inr v, s') \<and> mem_wf s'
    \<and> authenticate lib later svc (usr_Username u) pw s' = Inr v
    \<and> usr_Roles v = (case roles of None \<Rightarrow> usr_Roles u | Some rs \<Rightarrow> rs)
    \<and> (\<forall>t r. fmlookup (ms_refresh s) (hashToken t) = Some r \<and> rt_UserID r = i \<longrightarrow>
        auth_Refresh lib later svc t s' = (Inl ErrInvalidToken, s'))
    \<and> (\<forall>k r. fmlookup (ms_refresh s) k = Some r \<and> rt_UserID r \<noteq> i \<longrightarrow>
        fmlookup (ms_refresh s') k = Some r)
    \<and> (\<forall>j. j \<noteq> i \<longrightarrow> fmlookup (ms_users s') j = fmlookup (ms_users s) j)"
proof -
  have gen: "bcrypt_Generate lib (ae_salt env) (as_bcryptCost (NewService lib mem_user_store mgr n)) pw
      = Inr h" using assms(5,6) by simp
  from mem_auth.update_password [OF assms(1-3) gen, folded assms(5), of roles]
  obtain v s' where s': "auth_UpdateUser lib env svc i roles pw s = (Inr v, s')" "mem_wf s'"
    "v = u\<lparr>usr_PasswordHash := h, usr_Roles := (case roles of None \<Rightarrow> usr_Roles u | Some rs \<Rightarrow> rs)\<rparr>"
    "fmlookup (ms_users s') = (fmlookup (ms_users s))(i \<mapsto> v)"
    "fmlookup (ms_refresh s') = (\<lambda>k. case fmlookup (ms_refresh s) k of None \<Rightarrow> None
        | Some r \<Rightarrow> if rt_UserID r = i then None else Some r)"
    by blast
  have v: "fmlookup (ms_users s') i = Some v" "usr_Username v = usr_Username u"
    "usr_PasswordHash v = h" "bcrypt_Compare lib h pw = None"
    using s'(3,4) assms(4) gen by (auto simp: bcrypt_ok_def)
  have login: "authenticate lib later svc (usr_Username u) pw s' = Inr v"
    using mem_auth.authenticate_known [OF s'(2) v(1), of lib later lib mgr n pw, folded assms(5)] v
    by simp
  have dead: "auth_Refresh lib later svc t s' = (Inl ErrInvalidToken, s')"
    if "fmlookup (ms_refresh s) (hashToken t) = Some r" "rt_UserID r = i" for t r
    unfolding assms(5) by (rule mem_auth.refresh_unknown [OF s'(2)]) (simp add: s'(5) that)
  show ?thesis
    by (intro exI [of _ v] exI [of _ s']) (use s' login dead in simp)
qed

theorem password_change_revokes_witness:
  "\<exists>v s'. auth_UpdateUser sample_lib (sample_auth_env []) sample_auth ''u1'' None ''new-password''
       sample_auth_store = (Inr v, s')
    \<and> auth_Refresh sample_lib (sample_auth_env []) sample_auth ''abc'' s' = (Inl ErrInvalidToken, s')"
proof -
  have user: "fmlookup (ms_users sample_auth_store) ''u1'' = Some sample_user"
    and tok: "fmlookup (ms_refresh sample_auth_store) (hashToken ''abc'') = Some sample_token"
    by (simp_all add: sample_auth_store_fields)
  have "rt_UserID sample_token = ''u1''" by (simp add: sample_token_def)
  with password_change_revokes [OF sample_auth_store_wf user _ sample_bcrypt_ok refl sample_bcrypt,
      where env = "sample_auth_env []" and later = "sample_auth_env []" and roles = None
        and pw = "''new-password''" and mgr = sample_mgr and n = 0] tok
  show ?thesis by auto
qed



text \<open>
  Seeding the administrator is idempotent: when the username exists, \<open>EnsureUser\<close> reports
  that nothing was created and leaves the store alone, whatever password it is given; when it
  does not, a successful call creates exactly that user, and a second call with any password
  changes nothing.
\<close>

theorem ensure_user_idempotent:
  assumes "mem_wf s" "svc = NewService lib mem_user_store mgr n"
    and "fmlookup (ms_users s) (ae_id env) = None"
    and "auth_EnsureUser lib env svc name pw roles s = (Inr created, s')"
  shows "mem_wf s' \<and> auth_EnsureUser lib env' svc name pw' roles' s' = (Inr False, s')
    \<and> (created \<longleftrightarrow> (\<forall>i v. fmlookup (ms_users s) i = Some v \<longrightarrow> usr_Username v \<noteq> name))
    \<and> (\<not> created \<longrightarrow> s' = s)"
proof (cases "\<exists>i v. fmlookup (ms_users s) i = Some v \<and> usr_Username v = name")
  case True
  then obtain i v where v: "fmlookup (ms_users s) i = Some v" "usr_Username v = name" by blast
  note same = mem_auth.ensure_existing [OF assms(1) v(1), unfolded v(2), of _ _ lib mgr n,
      folded assms(2)]
  with assms(1,4) v show ?thesis by auto
next
  case False
  then have new: "\<forall>i v. fmlookup (ms_users s) i = Some v \<longrightarrow> usr_Username v \<noteq> name" by blast
  from assms(4) mem_auth.ensure_missing [OF assms(1) new, of lib env lib mgr n pw roles, folded assms(2)]
  obtain u where c: "created" "auth_CreateUser lib env svc name pw roles s = (Inr u, s')"
    by (auto split: prod.splits sum.splits)
  then obtain h where h: "8 \<le> length pw"
    "bcrypt_Generate lib (ae_salt env) (as_bcryptCost svc) pw = Inr h"
    by (auto simp: auth_CreateUser_def Let_def split: if_splits sum.splits)
  have u: "mem_wf s'" "fmlookup (ms_users s') (ae_id env) = Some u" "usr_Username u = name"
    using mem_auth.create_ok [OF assms(1) h(1) h(2) [unfolded assms(2)] assms(3) new,
        folded assms(2), of roles] c(2)
    by auto
  from mem_auth.ensure_existing [OF u(1,2), unfolded u(3), of _ _ lib mgr n, folded assms(2)] u(1) c(1) new
  show ?thesis by blast
qed

theorem ensure_user_idempotent_witness:
  "auth_EnsureUser sample_lib (sample_auth_env []) sample_auth ''root'' ''other-password'' []
     (snd (auth_EnsureUser sample_lib (sample_auth_env []) sample_auth ''root'' ''password''
       [''admin''] (NewMemoryStore 0)))
   = (Inr False, snd (auth_EnsureUser sample_lib (sample_auth_env []) sample_auth ''root'' ''password''
       [''admin''] (NewMemoryStore 0)))"
proof -
  have "\<exists>s'. auth_EnsureUser sample_lib (sample_auth_env []) sample_auth ''root'' ''password''
      [''admin''] (NewMemoryStore 0) = (Inr True, s')"
    by (simp add: auth_EnsureUser_def mem_user_store_def mem_GetUserByUsername_def NewMemoryStore_def
        auth_CreateUser_def sample_bcrypt mem_CreateUser_def Let_def)
  then obtain s' where s': "auth_EnsureUser sample_lib (sample_auth_env []) sample_auth ''root''
      ''password'' [''admin''] (NewMemoryStore 0) = (Inr True, s')" by blast
  show ?thesis
    using ensure_user_idempotent [OF NewMemoryStore_wf refl _ s'] unfolding s'
    by (simp add: NewMemoryStore_def)
qed

end
