(* ===== verification/Api_Correct.thy ===== *)
theory Api_Correct
  imports Api Auth_Correct Service_Correct "HOL-Library.Sublist"
begin

text \<open>
  What the HTTP interface guarantees: no protected request gets past the middleware without a
  valid token, only administrators change devices and users, accepted telemetry is queued, and
  a WebSocket leaves no subscription behind. The statements hold for every router \<open>mux\<close>.
\<close>

section \<open>Authentication\<close>

lemma serve_eq:
  assumes "h_auth h = Some m"
  shows "serve lib mux env h r st =
    (case mux route_table (rq_Method r) (rq_Path r) of
       MuxAnswer status \<Rightarrow>
         Some (\<lparr>rs_Status = status, rs_ContentType = '''', rs_Body = None, rs_Events = []\<rparr>, st)
     | Matched route i \<Rightarrow> jsonContentType (mw_Middleware lib (ap_now env) m (run_route lib env h route))
         (r\<lparr>rq_id := i, rq_Claims := None\<rparr>) st)"
  using assms by (simp add: serve_def split: mux_answer.splits)

lemma query_Get_frame [simp]: "query_Get (r\<lparr>rq_id := i, rq_Claims := c\<rparr>) k = query_Get r k"
  by (simp add: query_Get_def)

lemma extractToken_frame [simp]: "extractToken (r\<lparr>rq_id := i, rq_Claims := c\<rparr>) = extractToken r"
  by (simp add: extractToken_def Let_def split: option.splits)

text \<open>
  C6: With authentication enabled, a request outside the public paths whose token is missing,
  malformed, expired or not from this issuer gets 401 with the error message (or the router's
  own answer where no route matches), receives no event, and changes nothing.
\<close>

theorem api_requires_token:
  assumes "h_auth h = Some m" "rq_Path r \<notin> set defaultPublicPaths"
    and "mgr_Parse lib (ap_now env) m (extractToken r) = Inl err"
  shows "\<exists>resp. serve lib mux env h r st = Some (resp, st) \<and> rs_Events resp = []
    \<and> (case mux route_table (rq_Method r) (rq_Path r) of
         MuxAnswer status \<Rightarrow> rs_Status resp = status \<and> rs_Body resp = None
       | Matched _ _ \<Rightarrow> rs_Status resp = 401
           \<and> rs_Body resp = Some (BFields [(''error'', ''unauthorized'')]))"
  using assms
  by (cases "mux route_table (rq_Method r) (rq_Path r)")
    (simp_all add: serve_eq jsonContentType_def mw_Middleware_def writeJSONError_def)

definition sample_request :: "string \<Rightarrow> string \<Rightarrow> string \<Rightarrow> request" where
  "sample_request meth path header = \<lparr>rq_Method = meth, rq_Path = path, rq_id = '''',
     rq_Authorization = header, rq_Query = [], rq_Body = None, rq_Claims = None\<rparr>"

definition sample_api_env :: api_env where
  "sample_api_env = \<lparr>ap_env = sample_env, ap_auth = sample_auth_env [], ap_now = 100,
     ap_ws = Inr []\<rparr>"

definition sample_handler :: "(MemoryStore, unit, unit) Handler" where
  "sample_handler = NewHandler (local_service None 0) (Some sample_mgr) (Some sample_auth)"

definition sample_server :: "(MemoryStore, unit, unit) server" where
  "sample_server = \<lparr>sv_world = sample_world, sv_pool = NewPool 1 1\<rparr>"

definition sample_mux :: mux where
  "sample_mux table meth path =
     (case find (\<lambda>(p, ms, _). p = path \<and> (ms = [] \<or> meth \<in> set ms)) table of
        Some (_, _, route) \<Rightarrow> Matched route '''' | None \<Rightarrow> MuxAnswer 404)"

lemma sample_handler_auth [simp]: "h_auth sample_handler = Some sample_mgr"
  by (simp add: sample_handler_def NewHandler_def)

theorem api_requires_token_witness:
  "\<exists>resp. serve sample_lib sample_mux sample_api_env sample_handler
      (sample_request ''GET'' ''/api/devices'' '''') sample_server = Some (resp, sample_server)
    \<and> rs_Status resp = 401"
proof -
  have "rq_Path (sample_request ''GET'' ''/api/devices'' '''') \<notin> set defaultPublicPaths"
    by (simp add: sample_request_def defaultPublicPaths_def)
  moreover have "mgr_Parse sample_lib (ap_now sample_api_env) sample_mgr
      (extractToken (sample_request ''GET'' ''/api/devices'' '''')) = Inl ErrInvalidToken"
    by (simp add: mgr_Parse_def extractToken_def sample_request_def query_Get_def)
  moreover have "sample_mux route_table ''GET'' ''/api/devices'' = Matched RListDevices ''''"
    by (simp add: sample_mux_def route_table_def)
  ultimately show ?thesis
    using api_requires_token [OF sample_handler_auth, of
        "sample_request ''GET'' ''/api/devices'' ''''" sample_lib sample_api_env ErrInvalidToken
        sample_mux sample_server]
    by (auto simp: sample_request_def)
qed

section \<open>Administration\<close>

definition is_admin :: "lib \<Rightarrow> api_env \<Rightarrow> Manager \<Rightarrow> request \<Rightarrow> bool" where
  "is_admin lib env m r \<longleftrightarrow> (case mgr_Parse lib (ap_now env) m (extractToken r) of
     Inl _ \<Rightarrow> False | Inr c \<Rightarrow> ''admin'' \<in> set (cl_Roles c))"

text \<open>The part of the store that only administrators may change.\<close>

definition registry :: "MemoryStore \<Rightarrow> (string, Device) gomap \<times> (string, Telemetry list) gomap
    \<times> (string, Alert list) gomap \<times> (string, User) gomap" where
  "registry s = (ms_devices s, ms_telemetry s, ms_alerts s, ms_users s)"

lemma issueTokens_registry:
  assumes "issueTokens lib env (NewService lib mem_user_store m n) u s = (res, s')"
  shows "registry s' = registry s"
  using assms
  by (auto simp: issueTokens_def mem_user_store_def mem_StoreRefreshToken_def registry_def
      split: sum.splits)

lemma login_registry:
  assumes "auth_Login lib env (NewService lib mem_user_store m n) name pw s = (res, s')"
  shows "registry s' = registry s"
  using assms issueTokens_registry by (fastforce simp: auth_Login_def split: sum.splits)

lemma refresh_registry:
  assumes "auth_Refresh lib env (NewService lib mem_user_store m n) t s = (res, s')"
  shows "registry s' = registry s"
proof -
  have drop: "registry (snd (DeleteRefreshToken mem_user_store s k)) = registry s" for k
    by (simp add: mem_user_store_def mem_DeleteRefreshToken_def registry_def)
  show ?thesis
    using assms drop issueTokens_registry
    by (fastforce simp: auth_Refresh_def refresh_rotate_def Let_def split: sum.splits)
qed

lemma logout_registry:
  "auth_Logout (NewService lib mem_user_store m n) t s = (res, s') \<Longrightarrow> registry s' = registry s"
  by (auto simp: auth_Logout_def mem_user_store_def mem_DeleteRefreshToken_def registry_def)

lemma ws_loop_store: "ws_loop ch turns sent w = Some (sent', w') \<Longrightarrow> w_store w' = w_store w"
  by (induction ch turns sent w rule: ws_loop.induct)
    (auto simp: svc_Unsubscribe_def split: option.splits if_splits prod.splits)

lemma guarded:
  assumes "h_auth h = Some m" "h_admin h handler r st = Some (resp, st')"
    and "\<And>c. rq_Claims r = Some c \<Longrightarrow> ''admin'' \<notin> set (cl_Roles c)"
  shows "st' = st"
  using assms
  by (auto simp: h_admin_def RequireRole_def ClaimsFrom_def hasRole_iff RoleAdmin_def
      split: option.splits)

lemma set_store_simps [simp]: "the_store (set_store st s) = s"
  by (simp add: set_store_def)

lemma session_routes_registry:
  assumes "h_authSvc h = Some (NewService lib mem_user_store m k)"
    and "h_login lib env h r st = Some (resp, st') \<or> h_refresh lib env h r st = Some (resp, st')
       \<or> h_logout h r st = Some (resp, st')"
  shows "registry (the_store st') = registry (the_store st)"
  using assms
  by (auto simp: h_login_def h_refresh_def h_logout_def split: option.splits prod.splits sum.splits
      dest: login_registry refresh_registry logout_registry)

lemma reading_routes_store:
  "\<lbrakk>run_route lib env h route r st = Some (resp, st');
    route \<in> {RHealth, RListDevices, RGetDevice, RIngestTelemetry, RGetTelemetry, RGetAnalytics,
             RListAlerts, RWebsocket}\<rbrakk>
   \<Longrightarrow> the_store st' = the_store st"
  by (auto simp: run_route_def h_health_def h_listDevices_def h_getDevice_def h_ingestTelemetry_def
      h_getTelemetry_def h_getAnalytics_def h_listAlerts_def h_websocket_def svc_Subscribe_def Let_def
      split: option.splits sum.splits prod.splits if_splits bool.splits dest!: ws_loop_store)

lemma plain_routes_registry:
  assumes "h_auth h = Some m" "h_authSvc h = Some (NewService lib mem_user_store m k)"
    and "\<And>cl. rq_Claims r = Some cl \<Longrightarrow> ''admin'' \<notin> set (cl_Roles cl)"
    and "run_route lib env h route r st = Some (resp, st')"
  shows "registry (the_store st') = registry (the_store st)"
proof (cases "route \<in> {RHealth, RListDevices, RGetDevice, RIngestTelemetry, RGetTelemetry,
    RGetAnalytics, RListAlerts, RWebsocket}")
  case True
  with reading_routes_store [OF assms(4)] show ?thesis by simp
next
  case plain: False
  show ?thesis
  proof (cases "route \<in> {RLogin, RRefresh, RLogout}")
    case True
    with assms(4) have "h_login lib env h r st = Some (resp, st')
        \<or> h_refresh lib env h r st = Some (resp, st') \<or> h_logout h r st = Some (resp, st')"
      by (auto simp: run_route_def)
    then show ?thesis by (rule session_routes_registry [OF assms(2)])
  next
    case False
    then obtain handler where "h_admin h handler r st = Some (resp, st')"
      using assms(4) plain by (cases route) (auto simp: run_route_def)
    from guarded [OF assms(1) this assms(3)] show ?thesis by simp
  qed
qed



section \<open>Ingestion\<close>

text \<open>The sample a request stands for.\<close>

definition ingested :: "api_env \<Rightarrow> request \<Rightarrow> telemetry_body \<Rightarrow> Telemetry" where
  "ingested env r b = \<lparr>tel_DeviceID = rq_id r,
     tel_Timestamp = (case tb_Timestamp b of
        Some ts \<Rightarrow> if IsZero ts then env_now (ap_env env) 0 else ts
      | None \<Rightarrow> env_now (ap_env env) 0), tel_Metrics = tb_Metrics b\<rparr>"

lemma ingest_eq:
  assumes "svc_GetDevice (h_svc h) (ap_env env) (rq_id r) (sv_world st) = Inr d"
    and "dec_telemetry (rq_Body r) = Some b" "len_map (tb_Metrics b) \<noteq> 0"
  shows "h_ingestTelemetry env h r st =
    map_option (\<lambda>(ok, pool). (if ok then writeJSON 202 (BFields [(''status'', ''accepted'')])
        else writeError 503 ''ingestion queue unavailable'', st\<lparr>sv_pool := pool\<rparr>))
      (Submit (env_pick (ap_env env)) (sv_pool st) (ingested env r b))"
  using assms
  by (auto simp: h_ingestTelemetry_def svc_IngestTelemetry_def ingested_def Let_def IsZero_def
      split: option.splits)

text \<open>
  C24: Telemetry ingestion. A request for a registered device with a decodable body and at least
  one metric waits exactly while the pool is running with a full queue. Otherwise it is answered,
  with 202 and the sample, which carries the device of the path and only finite values, as the
  new last job of the queue, or with 503 and nothing changed, the latter only if the pool has
  been stopped.
\<close>

theorem ingest_queues:
  assumes "svc_GetDevice (h_svc h) (ap_env env) (rq_id r) (sv_world st) = Inr d"
    and "dec_telemetry (rq_Body r) = Some b" "len_map (tb_Metrics b) \<noteq> 0"
  shows "(h_ingestTelemetry env h r st = None \<longleftrightarrow>
       \<not> pool_cancelled (sv_pool st) \<and> ch_cap (pool_queue (sv_pool st)) \<le> length (queued (sv_pool st)))
    \<and> (\<forall>resp st'. h_ingestTelemetry env h r st = Some (resp, st') \<longrightarrow>
         sv_world st' = sv_world st
       \<and> (rs_Status resp = 202 \<and> queued (sv_pool st') = queued (sv_pool st) @ [ingested env r b]
            \<and> finite_metrics (tel_Metrics (ingested env r b))
            \<and> length (queued (sv_pool st')) \<le> ch_cap (pool_queue (sv_pool st))
          \<or> rs_Status resp = 503 \<and> st' = st \<and> pool_cancelled (sv_pool st)))"
proof -
  have "finite_metrics (tel_Metrics (ingested env r b))"
    using dec_telemetry_finite [OF assms(2)] by (simp add: ingested_def)
  then show ?thesis
    unfolding ingest_eq [OF assms]
    by (auto simp: Submit_def can_send_def enq_def writeJSON_def writeError_def split: if_splits)
qed

definition sample_ingest :: request where
  "sample_ingest = (sample_request ''POST'' ''/api/devices/d1/telemetry'' '''')\<lparr>rq_id := ''d1'',
     rq_Body := Some (JObj [(''metrics'', JObj [(''temp'', JNum False 0)])])\<rparr>"

lemma sample_ingest_body:
  "dec_telemetry (rq_Body sample_ingest)
     = Some \<lparr>tb_Timestamp = None, tb_Metrics = fmupd ''temp'' (Fin 0) fmempty\<rparr>"
  by (simp add: sample_ingest_def dec_telemetry_def dec_struct_def dec_float_map_def dec_map_def
      dec_float_def signed_zero_def fold_char_def)

theorem ingest_queues_witness:
  "\<exists>resp st'. h_ingestTelemetry sample_api_env sample_handler sample_ingest sample_server
      = Some (resp, st') \<and> rs_Status resp = 202
    \<and> map tel_DeviceID (queued (sv_pool st')) = [''d1'']"
proof -
  let ?b = "\<lparr>tb_Timestamp = None, tb_Metrics = fmupd ''temp'' (Fin 0) fmempty\<rparr>"
  obtain d where "svc_GetDevice (h_svc sample_handler) (ap_env sample_api_env)
      (rq_id sample_ingest) (sv_world sample_server) = Inr d"
    using sample_store_device [of 2]
    by (auto simp: sample_handler_def NewHandler_def local_service_def svc_New_def svc_GetDevice_def
        mem_store_def mem_GetDevice_def sample_server_def sample_world_def sample_ingest_def
        WithStatusCache_def)
  from ingest_queues [OF this sample_ingest_body]
  have "h_ingestTelemetry sample_api_env sample_handler sample_ingest sample_server \<noteq> None"
    "\<And>resp st'. h_ingestTelemetry sample_api_env sample_handler sample_ingest sample_server
      = Some (resp, st') \<Longrightarrow> rs_Status resp = 202
        \<and> queued (sv_pool st') = [ingested sample_api_env sample_ingest ?b]"
    by (auto simp: len_map_def sample_server_def NewPool_def make_chan_def)
  then show ?thesis by (auto simp: ingested_def sample_ingest_def)
qed

section \<open>The event stream\<close>

fun published :: "ws_turn list \<Rightarrow> Event list" where
  "published [] = []"
| "published (WsBroadcast p e # turns) = e # published turns"
| "published (WsClosed # turns) = published turns"
| "published (WsEvent ok # turns) = published turns"

text \<open>
  What the loop promises from a world in which its channel \<open>ch\<close> is subscribed: \<open>evs\<close> are the
  events written, buffered and still to come, \<open>fits\<close> says that the buffer is never full.
\<close>

definition stream_ok :: "nat \<Rightarrow> Event list \<Rightarrow> bool \<Rightarrow> ('s, 'c, 'b) world
    \<Rightarrow> (Event list \<times> ('s, 'c, 'b) world) option \<Rightarrow> bool" where
  "stream_ok ch evs fits w res \<longleftrightarrow> (\<exists>sent w'. res = Some (sent, w') \<and> hub_wf (w_hub w')
     \<and> w_store w' = w_store w \<and> hub_subscribers (w_hub w') = fmdrop ch (hub_subscribers (w_hub w))
     \<and> subseq sent evs \<and> (fits \<longrightarrow> prefix sent evs))"

lemma Unsubscribe_frame:
  "Unsubscribe h ch = Some h' \<Longrightarrow> hub_subscribers h' = fmdrop ch (hub_subscribers h)"
  by (auto simp: Unsubscribe_def update_chan_Some split: option.splits intro: fmap_ext)

lemma stream_end:
  assumes "hub_wf (w_hub w)"
  shows "stream_ok ch (sent @ rest) fits w (map_option (\<lambda>w'. (sent, w')) (svc_Unsubscribe ch w))"
  using Unsubscribe_wf [OF assms, of ch] Unsubscribe_frame [of "w_hub w" ch]
  by (auto simp: stream_ok_def svc_Unsubscribe_def)

lemma stream_ok_frame:
  "\<lbrakk>stream_ok ch evs fits (w\<lparr>w_hub := h\<rparr>) res; hub_subscribers h = hub_subscribers (w_hub w)\<rbrakk>
   \<Longrightarrow> stream_ok ch evs fits w res"
  by (simp add: stream_ok_def)

lemma stream_ok_weaken:
  "\<lbrakk>stream_ok ch evs fits w res; subseq evs evs'; fits' \<Longrightarrow> fits \<and> evs = evs'\<rbrakk>
   \<Longrightarrow> stream_ok ch evs' fits' w res"
  unfolding stream_ok_def by (metis subseq_order.order_trans)

lemma ws_loop_stream:
  assumes "hub_wf (w_hub w)" "subscribed (w_hub w) ch" "fmlookup (hub_chans (w_hub w)) ch = Some c"
  shows "stream_ok ch (sent @ ch_buf c @ published turns)
    (length (ch_buf c) + length (published turns) \<le> ch_cap c) w (ws_loop ch turns sent w)"
  using assms
proof (induction ch turns sent w arbitrary: c rule: ws_loop.induct)
  case (3 ch ok turns sent w)
  have open_c: "\<not> ch_closed c" using hub_wfD(1) [OF "3.prems"(1,2)] "3.prems"(3) by auto
  show ?case
  proof (cases "ch_buf c")
    case Nil
    then have "receive ch (w_hub w) = None" using "3.prems"(3) open_c by (simp add: receive_def recv_def)
    with "3.IH"(1) [OF _ "3.prems"] Nil show ?thesis by simp
  next
    case (Cons e es)
    let ?h = "(w_hub w)\<lparr>hub_chans := fmupd ch (c\<lparr>ch_buf := es\<rparr>) (hub_chans (w_hub w))\<rparr>"
    have rc: "receive ch (w_hub w) = Some (Some e, ?h)"
      using "3.prems"(3) Cons by (simp add: receive_def recv_def)
    note wf = receive_wf [OF "3.prems"(1) rc]
    show ?thesis
    proof (cases ok)
      case True
      have "stream_ok ch ((sent @ [e]) @ es @ published turns)
          (length es + length (published turns) \<le> ch_cap c) (w\<lparr>w_hub := ?h\<rparr>)
          (ws_loop ch turns (sent @ [e]) (w\<lparr>w_hub := ?h\<rparr>))"
        using "3.IH"(2) [OF rc refl refl True, of "c\<lparr>ch_buf := es\<rparr>"] wf "3.prems"(2)
        by (simp add: subscribed_def)
      then have "stream_ok ch (sent @ ch_buf c @ published turns)
          (length (ch_buf c) + length (published turns) \<le> ch_cap c) (w\<lparr>w_hub := ?h\<rparr>)
          (ws_loop ch turns (sent @ [e]) (w\<lparr>w_hub := ?h\<rparr>))"
        by (rule stream_ok_weaken) (simp_all add: Cons)
      with rc True show ?thesis by (auto intro!: stream_ok_frame [where h = ?h])
    next
      case False
      have "stream_ok ch (sent @ e # es @ published turns)
          (length (ch_buf c) + length (published turns) \<le> ch_cap c) (w\<lparr>w_hub := ?h\<rparr>)
          (map_option (\<lambda>w'. (sent, w')) (svc_Unsubscribe ch (w\<lparr>w_hub := ?h\<rparr>)))"
        by (rule stream_end) (simp add: wf)
      then show ?thesis
        using rc False Cons by (auto intro!: stream_ok_frame [where h = ?h])
    qed
  qed
next
  case (4 ch p e turns sent w)
  from Broadcast_ok [OF "4.prems"(1), of p e] obtain h where h: "Broadcast p (w_hub w) e = Some h" "hub_wf h"
    "hub_subscribers h = hub_subscribers (w_hub w)"
    "fmlookup (hub_chans h) ch = Some (deliver e c)"
    using "4.prems"(2,3) by auto
  have "stream_ok ch (sent @ ch_buf (deliver e c) @ published turns)
      (length (ch_buf (deliver e c)) + length (published turns) \<le> ch_cap (deliver e c))
      (w\<lparr>w_hub := h\<rparr>) (ws_loop ch turns sent (w\<lparr>w_hub := h\<rparr>))"
    using "4.IH" [OF h(1), of "deliver e c"] h "4.prems"(2) by (simp add: subscribed_def)
  then have "stream_ok ch (sent @ ch_buf c @ e # published turns)
      (length (ch_buf c) + Suc (length (published turns)) \<le> ch_cap c)
      (w\<lparr>w_hub := h\<rparr>) (ws_loop ch turns sent (w\<lparr>w_hub := h\<rparr>))"
    by (rule stream_ok_weaken)
      (auto simp: deliver_def enq_def can_send_def intro: list_emb_append_mono)
  with h show ?case by (auto intro: stream_ok_frame)
qed (auto intro: stream_end)



section \<open>Analytics\<close>

text \<open>
  C40: If the finite values of some metric in the window add up to an infinity, the analytics
  request is answered 200 with no body at all: the encoder refuses the infinite sum, and its
  error is dropped.
\<close>

theorem analytics_overflow:
  assumes "window = svc_GetTelemetrySince (h_svc h) (rq_id r)
      (parseSince (env_now (ap_env env) 0) r) (sv_world st)"
    and "metric_values m window \<noteq> []" "foldl fadd 0 (metric_values m window) \<in> {PInf, NInf}"
  shows "\<exists>resp. h_getAnalytics env h r st = Some (resp, st) \<and> rs_Status resp = 200
    \<and> rs_Body resp = None"
proof -
  have "\<not> fmpred (\<lambda>_. encodable_stats) (Aggregate sch q window)" for sch q
    using assms(2,3)
    by (auto simp: fmpred_iff Aggregate_lookup stats_map_def stats_of_def set_avg_def
        encodable_stats_def encodable_float_def intro!: exI [of _ m])
  then show ?thesis
    unfolding h_getAnalytics_def Let_def assms(1) [symmetric] by (simp add: writeJSON_def)
qed

definition big_reading :: "time \<Rightarrow> Telemetry" where
  "big_reading ts = \<lparr>tel_DeviceID = ''d1'', tel_Timestamp = ts,
     tel_Metrics = fmupd ''load'' (Fin (2 ^ 1023)) fmempty\<rparr>"

definition big_server :: "(MemoryStore, unit, unit) server" where
  "big_server = set_store sample_server
     (snd (mem_AddTelemetry (snd (mem_AddTelemetry (sample_store 2) (big_reading 1))) (big_reading 2)))"

lemma big_sum: "foldl fadd 0 [Fin (2 ^ 1023), Fin (2 ^ 1023)] = PInf"
proof -
  have "fadd 0 (Fin (2 ^ 1023)) = Fin (2 ^ 1023)"
    using rnd_pow2 [of 1023] by (simp add: zero_float64_def del: power_numeral)
  moreover have "(2::rat) ^ 1023 + 2 ^ 1023 = 2 ^ 1024"
    using power_Suc [of "2::rat" 1023] by (simp only: mult_2 [symmetric]) simp
  then have "fadd (Fin (2 ^ 1023)) (Fin (2 ^ 1023)) = PInf"
    using rnd_pow2 [of 1024] by (simp del: power_numeral)
  ultimately show ?thesis by simp
qed

theorem analytics_overflow_witness:
  "\<exists>resp. h_getAnalytics sample_api_env sample_handler sample_ingest big_server
      = Some (resp, big_server) \<and> rs_Status resp = 200 \<and> rs_Body resp = None"
proof -
  have "series_of (ms_telemetry (the_store big_server)) ''d1'' = [big_reading 1, big_reading 2]"
    by (simp add: big_server_def mem_AddTelemetry_def sample_store_def mem_CreateDevice_def
        NewMemoryStore_def sample_device_def big_reading_def Let_def)
  then have window: "svc_GetTelemetrySince (h_svc sample_handler) (rq_id sample_ingest)
      (parseSince (env_now (ap_env sample_api_env) 0) sample_ingest) (sv_world big_server)
      = [big_reading 1, big_reading 2]"
    by (simp add: svc_GetTelemetrySince_def sample_handler_def NewHandler_def mem_store_def
        mem_GetTelemetry_def parseSince_def query_Get_def sample_ingest_def sample_request_def
        IsZero_def)
  have "metric_values ''load'' [big_reading 1, big_reading 2] = [Fin (2 ^ 1023), Fin (2 ^ 1023)]"
    by (simp add: metric_values_def map_filter_simps big_reading_def del: power_numeral)
  with big_sum show ?thesis
    by (intro analytics_overflow [OF window [symmetric], of "''load''"]) (simp_all del: power_numeral)
qed

end
