(* ===== verification/Config.thy ===== *)
theory Config
  imports Go_Text
begin

text \<open>
  Runtime configuration, \<open>internal/config/config.go\<close>. The environment is a map from variable
  names to values.
\<close>

section \<open>The code\<close>

type_synonym environ = "string \<Rightarrow> string option"

record Config =
  cfg_HTTPAddr :: string
  cfg_Workers :: int
  cfg_QueueSize :: int
  cfg_MaxHistory :: int
  cfg_OfflineAfter :: duration
  cfg_ReconcileEvery :: duration
  cfg_MQTTBrokerURL :: string
  cfg_MQTTTopicPrefix :: string
  cfg_MQTTClientID :: string
  cfg_MQTTUsername :: string
  cfg_MQTTPassword :: string
  cfg_MongoURI :: string
  cfg_MongoDB :: string
  cfg_RedisAddr :: string
  cfg_RedisPassword :: string
  cfg_RedisDB :: int
  cfg_RedisStatusTTL :: duration
  cfg_JWTSecret :: string
  cfg_JWTTTL :: duration
  cfg_RefreshTTL :: duration
  cfg_AdminUsername :: string
  cfg_AdminPassword :: string

definition getEnv :: "environ \<Rightarrow> string \<Rightarrow> string \<Rightarrow> string" where
  "getEnv env key fallback = (case env key of
     Some v \<Rightarrow> if v \<noteq> '''' then v else fallback | None \<Rightarrow> fallback)"

definition getEnvInt :: "environ \<Rightarrow> string \<Rightarrow> int \<Rightarrow> int" where
  "getEnvInt env key fallback = (case env key of
     Some v \<Rightarrow> (case Atoi v of Some n \<Rightarrow> n | None \<Rightarrow> fallback) | None \<Rightarrow> fallback)"

definition getEnvDuration :: "environ \<Rightarrow> string \<Rightarrow> duration \<Rightarrow> duration" where
  "getEnvDuration env key fallback = (case env key of
     Some v \<Rightarrow> (case ParseDuration v of Some d \<Rightarrow> d | None \<Rightarrow> fallback) | None \<Rightarrow> fallback)"

definition Load :: "environ \<Rightarrow> Config" where
  "Load env = \<lparr>
     cfg_HTTPAddr = getEnv env ''HTTP_ADDR'' '':8080'',
     cfg_Workers = getEnvInt env ''WORKERS'' 8,
     cfg_QueueSize = getEnvInt env ''QUEUE_SIZE'' 1024,
     cfg_MaxHistory = getEnvInt env ''MAX_HISTORY'' 1000,
     cfg_OfflineAfter = getEnvDuration env ''OFFLINE_AFTER'' (30 * Second),
     cfg_ReconcileEvery = getEnvDuration env ''RECONCILE_EVERY'' (10 * Second),
     cfg_MQTTBrokerURL = getEnv env ''MQTT_BROKER_URL'' '''',
     cfg_MQTTTopicPrefix = getEnv env ''MQTT_TOPIC_PREFIX'' ''devices'',
     cfg_MQTTClientID = getEnv env ''MQTT_CLIENT_ID'' '''',
     cfg_MQTTUsername = getEnv env ''MQTT_USERNAME'' '''',
     cfg_MQTTPassword = getEnv env ''MQTT_PASSWORD'' '''',
     cfg_MongoURI = getEnv env ''MONGO_URI'' '''',
     cfg_MongoDB = getEnv env ''MONGO_DB'' ''iot'',
     cfg_RedisAddr = getEnv env ''REDIS_ADDR'' '''',
     cfg_RedisPassword = getEnv env ''REDIS_PASSWORD'' '''',
     cfg_RedisDB = getEnvInt env ''REDIS_DB'' 0,
     cfg_RedisStatusTTL = getEnvDuration env ''REDIS_STATUS_TTL'' (5 * Minute),
     cfg_JWTSecret = getEnv env ''JWT_SECRET'' '''',
     cfg_JWTTTL = getEnvDuration env ''JWT_TTL'' (15 * Minute),
     cfg_RefreshTTL = getEnvDuration env ''JWT_REFRESH_TTL'' (7 * 24 * Hour),
     cfg_AdminUsername = getEnv env ''ADMIN_USERNAME'' ''admin'',
     cfg_AdminPassword = getEnv env ''ADMIN_PASSWORD'' ''''\<rparr>"

section \<open>What is loaded\<close>



end
