(* ===== verification/Mqtt.thy ===== *)
theory Mqtt
  imports Go_Json Service
begin

text \<open>
  The MQTT bridge, \<open>internal/mqtt/mqtt.go\<close>. The paho client is not part of the repository: the
  bridge hands it a list of options and a subscription, and it calls \<open>onMessage\<close> with a topic
  and a payload.
\<close>

section \<open>The code\<close>

record MqttConfig =
  mq_BrokerURL :: string
  mq_ClientID :: string
  mq_TopicPrefix :: string
  mq_Username :: string
  mq_Password :: string
  mq_ConnectRetry :: duration

datatype mqtt_option =
    AddBroker string
  | SetClientID string
  | SetAutoReconnect bool
  | SetConnectRetry bool
  | SetConnectRetryInterval duration
  | SetUsername string
  | SetPassword string
  | OnConnectSubscribe string int

record Bridge =
  br_cfg :: MqttConfig
  br_prefix :: string
  br_options :: "mqtt_option list"

text \<open>The clock is read for a default client identifier, as nanoseconds since 1970.\<close>

definition unix_epoch :: time where
  "unix_epoch = 62135596800 * Second"

definition NewBridge :: "time \<Rightarrow> MqttConfig \<Rightarrow> Bridge" where
  "NewBridge now cfg0 =
     (let prefix = (if mq_TopicPrefix cfg0 = '''' then ''devices'' else mq_TopicPrefix cfg0);
          cfg1 = (if mq_ClientID cfg0 = ''''
                  then cfg0\<lparr>mq_ClientID := ''iot-api-'' @ dec_int (now - unix_epoch)\<rparr> else cfg0);
          cfg = (if mq_ConnectRetry cfg1 \<le> 0 then cfg1\<lparr>mq_ConnectRetry := 5 * Second\<rparr> else cfg1)
      in \<lparr>br_cfg = cfg, br_prefix = prefix,
          br_options =
            [AddBroker (mq_BrokerURL cfg), SetClientID (mq_ClientID cfg), SetAutoReconnect True,
             SetConnectRetry True, SetConnectRetryInterval (mq_ConnectRetry cfg)]
            @ (if mq_Username cfg \<noteq> ''''
               then [SetUsername (mq_Username cfg), SetPassword (mq_Password cfg)] else [])
            @ [OnConnectSubscribe (prefix @ ''/+/telemetry'') 1]\<rparr>)"

definition deviceIDFromTopic :: "string \<Rightarrow> string \<Rightarrow> string" where
  "deviceIDFromTopic topic prefix =
     (let parts = split_on CHR ''/'' topic
      in if length parts \<noteq> 3 \<or> parts ! 0 \<noteq> prefix \<or> parts ! 2 \<noteq> ''telemetry'' then ''''
         else parts ! 1)"

text \<open>The sample a message carries, or nothing.\<close>

definition message_sample :: "time \<Rightarrow> Bridge \<Rightarrow> string \<Rightarrow> json option \<Rightarrow> Telemetry option" where
  "message_sample now b topic payload =
     (let deviceID = deviceIDFromTopic topic (br_prefix b)
      in if deviceID = '''' then None
         else case dec_telemetry payload of
                None \<Rightarrow> None
              | Some body \<Rightarrow>
                  Some \<lparr>tel_DeviceID = deviceID,
                        tel_Timestamp = (case tb_Timestamp body of Some t \<Rightarrow> t | None \<Rightarrow> now),
                        tel_Metrics = tb_Metrics body\<rparr>)"

definition onMessage :: "env \<Rightarrow> Bridge \<Rightarrow> string \<Rightarrow> json option \<Rightarrow> Telemetry Pool
    \<Rightarrow> Telemetry Pool option" where
  "onMessage env b topic payload pool =
     (case message_sample (env_now env 1) b topic payload of
        None \<Rightarrow> Some pool
      | Some t \<Rightarrow> map_option snd (svc_IngestTelemetry env pool t))"

text \<open>\<open>Disconnect\<close> asks a connected client to quiesce for 250 milliseconds.\<close>

definition bridge_Disconnect :: "bool \<Rightarrow> int option" where
  "bridge_Disconnect isConnected = (if isConnected then Some 250 else None)"

section \<open>Topics\<close>

lemma split_on_no_sep: "sep \<notin> set s \<Longrightarrow> split_on sep s = [s]"
  by (induction s) auto

lemma split_on_nonempty: "split_on sep s \<noteq> []"
  by (induction s) (auto split: list.splits)

lemma split_on_append: "sep \<notin> set p \<Longrightarrow> split_on sep (p @ sep # s) = p # split_on sep s"
  by (induction p) auto

lemma split_on_pieces: "w \<in> set (split_on sep s) \<Longrightarrow> sep \<notin> set w"
  by (induction s arbitrary: w) (auto split: list.splits if_splits)

fun join :: "char \<Rightarrow> string list \<Rightarrow> string" where
  "join sep [] = []"
| "join sep [w] = w"
| "join sep (w # ws) = w @ sep # join sep ws"

lemma join_Cons: "ws \<noteq> [] \<Longrightarrow> join sep (w # ws) = w @ sep # join sep ws"
  by (cases ws) auto

lemma join_push: "join sep ((c # w) # ws) = c # join sep (w # ws)"
  by (cases ws) auto

lemma join_split_on: "join sep (split_on sep s) = s"
proof (induction s)
  case (Cons c s)
  then show ?case
    using split_on_nonempty [of sep s]
    by (cases "split_on sep s") (auto simp: join_Cons join_push split: list.splits)
qed simp

lemma topic_parts:
  "split_on CHR ''/'' topic = [a, b, c] \<longleftrightarrow>
     topic = a @ ''/'' @ b @ ''/'' @ c \<and> CHR ''/'' \<notin> set a \<and> CHR ''/'' \<notin> set b \<and> CHR ''/'' \<notin> set c"
proof
  assume *: "split_on CHR ''/'' topic = [a, b, c]"
  have "topic = join CHR ''/'' [a, b, c]" unfolding * [symmetric] by (rule join_split_on [symmetric])
  then show "topic = a @ ''/'' @ b @ ''/'' @ c \<and> CHR ''/'' \<notin> set a \<and> CHR ''/'' \<notin> set b
      \<and> CHR ''/'' \<notin> set c"
    using split_on_pieces [of _ "CHR ''/''" topic] * by simp
next
  assume "topic = a @ ''/'' @ b @ ''/'' @ c \<and> CHR ''/'' \<notin> set a \<and> CHR ''/'' \<notin> set b
      \<and> CHR ''/'' \<notin> set c"
  then show "split_on CHR ''/'' topic = [a, b, c]"
    by (simp add: split_on_append split_on_no_sep)
qed

text \<open>
  C39: The device of a topic is \<open>i\<close> exactly when the topic is the prefix, \<open>i\<close> and \<open>telemetry\<close>
  joined by slashes and neither the prefix nor \<open>i\<close> contains a slash. In particular a
  configured prefix of several levels never yields a device.
\<close>

theorem device_id_exact:
  assumes "i \<noteq> ''''"
  shows "deviceIDFromTopic topic prefix = i \<longleftrightarrow>
    topic = prefix @ ''/'' @ i @ ''/telemetry'' \<and> CHR ''/'' \<notin> set prefix \<and> CHR ''/'' \<notin> set i"
proof -
  let ?p = "split_on CHR ''/'' topic"
  have three: "length ?p = 3 \<Longrightarrow> ?p = [?p ! 0, ?p ! 1, ?p ! 2]"
    by (auto simp: eval_nat_numeral length_Suc_conv)
  have "deviceIDFromTopic topic prefix = i \<longleftrightarrow> ?p = [prefix, i, ''telemetry'']"
  proof
    assume "?p = [prefix, i, ''telemetry'']"
    then show "deviceIDFromTopic topic prefix = i" by (simp add: deviceIDFromTopic_def)
  next
    assume "deviceIDFromTopic topic prefix = i"
    with assms have "length ?p = 3 \<and> ?p ! 0 = prefix \<and> ?p ! 1 = i \<and> ?p ! 2 = ''telemetry''"
      by (auto simp: deviceIDFromTopic_def Let_def split: if_splits)
    with three show "?p = [prefix, i, ''telemetry'']" by metis
  qed
  also have "\<dots> \<longleftrightarrow> topic = prefix @ ''/'' @ i @ ''/telemetry'' \<and> CHR ''/'' \<notin> set prefix
      \<and> CHR ''/'' \<notin> set i"
    unfolding topic_parts by simp
  finally show ?thesis .
qed

theorem device_id_exact_witness:
  "deviceIDFromTopic ''devices/d1/telemetry'' ''devices'' = ''d1''"
  using device_id_exact [of "''d1''" "''devices/d1/telemetry''" "''devices''"] by simp

end
