(* ===== verification/Server.thy ===== *)
theory Server
  imports Deployment Api_Correct Config Mqtt
begin

text \<open>
  The command, \<open>cmd/server/main.go\<close>: how the parts are put together from the configuration, and
  in which order they are taken down. \<open>log.Fatalf\<close> is the result \<open>Fatal\<close>. The store is an
  interface whose dynamic type is decided here, so the running server is one of two values. A
  connection attempt of the MQTT bridge and the HTTP listener belong to the libraries.
\<close>

section \<open>The code\<close>

datatype 'a boot = Fatal string error | Up 'a

record HttpServer =
  hs_Addr :: string
  hs_ReadTimeout :: duration
  hs_WriteTimeout :: duration
  hs_IdleTimeout :: duration

text \<open>
  A running server: the handler of the requests, the state they work on, and the goroutines
  started beside it (the Redis subscription that feeds the hub, the reconciler, the bridge).
\<close>

record ('s, 'c, 'b) app =
  app_handler :: "('s, 'c, 'b) Handler"
  app_state :: "('s, 'c, 'b) server"
  app_subscribed :: bool
  app_reconcile :: duration
  app_bridge :: "Bridge option"
  app_http :: HttpServer

datatype ('db, 'c, 'b) running =
    OnMongo "('db MongoStore, 'c, 'b) app"
  | OnMemory "(MemoryStore, 'c, 'b) app"

text \<open>
  Redis, when configured, becomes publisher and status cache of the service and feeds the hub;
  without it nothing uses the state \<open>idle\<close>.
\<close>

definition setup_redis :: "('c, 'b) redis \<Rightarrow> (time \<Rightarrow> int) \<Rightarrow> 'c \<times> 'b \<Rightarrow> Config
    \<Rightarrow> ((('s, 'c, 'b) Service \<Rightarrow> ('s, 'c, 'b) Service) list \<times> 'c \<times> 'b \<times> bool) boot" where
  "setup_redis R z idle cfg =
     (if cfg_RedisAddr cfg \<noteq> '''' then
        (case rds_New R \<lparr>rc_Addr = cfg_RedisAddr cfg, rc_Password = cfg_RedisPassword cfg,
                rc_DB = cfg_RedisDB cfg, rc_StatusTTL = cfg_RedisStatusTTL cfg\<rparr> of
           Inl err \<Rightarrow> Fatal ''redis: connect'' err
         | Inr (r, c, b) \<Rightarrow> Up ([WithPublisher (Some (redis_publisher R z)),
             WithStatusCache (Some (redis_cache R z r))], c, b, True))
      else Up ([], fst idle, snd idle, False))"

definition setup_auth :: "lib \<Rightarrow> auth_env \<Rightarrow> Config \<Rightarrow> 's UserStore \<Rightarrow> 's
    \<Rightarrow> (Manager option \<times> 's AuthService option \<times> 's) boot" where
  "setup_auth lib env cfg us s =
     (case NewManager \<lparr>acfg_Secret = cfg_JWTSecret cfg, acfg_Issuer = '''', acfg_TTL = cfg_JWTTTL cfg\<rparr> of
        None \<Rightarrow> Up (None, None, s)
      | Some manager \<Rightarrow>
          (let svc = NewService lib us manager (cfg_RefreshTTL cfg)
           in if cfg_AdminPassword cfg \<noteq> '''' then
                (case auth_EnsureUser lib env svc (cfg_AdminUsername cfg) (cfg_AdminPassword cfg) [RoleAdmin] s of
                   (Inl err, _) \<Rightarrow> Fatal ''auth: seed admin user'' err
                 | (Inr created, s') \<Rightarrow> Up (Some manager, Some svc, s'))
              else Up (Some manager, Some svc, s)))"

definition setup_bridge :: "time \<Rightarrow> Config \<Rightarrow> Bridge option" where
  "setup_bridge now cfg =
     (if cfg_MQTTBrokerURL cfg \<noteq> ''''
      then Some (NewBridge now \<lparr>mq_BrokerURL = cfg_MQTTBrokerURL cfg, mq_ClientID = cfg_MQTTClientID cfg,
        mq_TopicPrefix = cfg_MQTTTopicPrefix cfg, mq_Username = cfg_MQTTUsername cfg,
        mq_Password = cfg_MQTTPassword cfg, mq_ConnectRetry = 0\<rparr>)
      else None)"

text \<open>Everything after the choice of the store.\<close>

definition start_on :: "lib \<Rightarrow> ('c, 'b) redis \<Rightarrow> (time \<Rightarrow> int) \<Rightarrow> 'c \<times> 'b \<Rightarrow> auth_env \<Rightarrow> time \<Rightarrow> Config
    \<Rightarrow> 's Store \<Rightarrow> 's UserStore \<Rightarrow> 's \<Rightarrow> ('s, 'c, 'b) app boot" where
  "start_on lib R z idle env now cfg st us s =
     (let pool = Start (NewPool (cfg_Workers cfg) (cfg_QueueSize cfg));
          hub = NewHub 64
      in case setup_redis R z idle cfg of
           Fatal msg err \<Rightarrow> Fatal msg err
         | Up (svcOpts, c, b, feeding) \<Rightarrow>
             (let svc = svc_New st (cfg_OfflineAfter cfg) svcOpts
              in case setup_auth lib env cfg us s of
                   Fatal msg err \<Rightarrow> Fatal msg err
                 | Up (authManager, authSvc, s') \<Rightarrow>
                     Up \<lparr>app_handler = NewHandler svc authManager authSvc,
                         app_state = \<lparr>sv_world = \<lparr>w_store = s', w_cache = c, w_hub = hub, w_bus = b,
                           w_engine = default_engine\<rparr>, sv_pool = pool\<rparr>,
                         app_subscribed = feeding,
                         app_reconcile = reconciler_interval (cfg_ReconcileEvery cfg),
                         app_bridge = setup_bridge now cfg,
                         app_http = \<lparr>hs_Addr = cfg_HTTPAddr cfg, hs_ReadTimeout = 15 * Second,
                           hs_WriteTimeout = 0, hs_IdleTimeout = 60 * Second\<rparr>\<rparr>))"

definition main_start :: "lib \<Rightarrow> 'db mongo \<Rightarrow> ('c, 'b) redis \<Rightarrow> (time \<Rightarrow> int) \<Rightarrow> 'c \<times> 'b \<Rightarrow> auth_env \<Rightarrow> time
    \<Rightarrow> Config \<Rightarrow> ('db, 'c, 'b) running boot" where
  "main_start lib M R z idle env now cfg =
     (if cfg_MongoURI cfg \<noteq> '''' then
        (case NewMongoStore M \<lparr>mc_URI = cfg_MongoURI cfg, mc_Database = cfg_MongoDB cfg,
                mc_MaxHistory = cfg_MaxHistory cfg, mc_Timeout = 0\<rparr> of
           Inl err \<Rightarrow> Fatal ''mongo: connect'' err
         | Inr ms \<Rightarrow>
             (case start_on lib R z idle env now cfg (mongo_store M) (mongo_user_store M) ms of
                Fatal msg err \<Rightarrow> Fatal msg err | Up a \<Rightarrow> Up (OnMongo a)))
      else
        (case start_on lib R z idle env now cfg mem_store mem_user_store (NewMemoryStore (cfg_MaxHistory cfg)) of
           Fatal msg err \<Rightarrow> Fatal msg err | Up a \<Rightarrow> Up (OnMemory a)))"

text \<open>
  After the signal: the listener is given ten seconds, then the deferred calls run, last one
  first.
\<close>

datatype shutdown_call =
    ShutdownHTTP duration | DisconnectMQTT | CloseRedis | StopPool | CloseMongo | CancelContext

definition shutdown_calls :: "Config \<Rightarrow> shutdown_call list" where
  "shutdown_calls cfg =
     ShutdownHTTP (10 * Second)
     # rev ([CancelContext]
         @ (if cfg_MongoURI cfg \<noteq> '''' then [CloseMongo] else [])
         @ [StopPool]
         @ (if cfg_RedisAddr cfg \<noteq> '''' then [CloseRedis] else [])
         @ (if cfg_MQTTBrokerURL cfg \<noteq> '''' then [DisconnectMQTT] else []))"

section \<open>What a started server is\<close>

text \<open>Seeding the administrator: the account is there already, or is created unless its password is refused.\<close>

lemma seed_admin:
  fixes name pw :: string
  assumes "user_contract us keep ok usr tok" "ok s" "usr s (ae_id env) = None"
    and "svc = NewService lib us m ttl"
  defines "taken \<equiv> \<exists>i v. usr s i = Some v \<and> usr_Username v = name"
  shows "case auth_EnsureUser lib env svc name pw [RoleAdmin] s of
      (Inl err, s') \<Rightarrow> err = ErrWeakPassword \<and> length pw < 8
        \<or> bcrypt_Generate lib (ae_salt env) (bcrypt_DefaultCost lib) pw = Inl err
    | (Inr created, s') \<Rightarrow> ok s' \<and> tok s' = tok s
        \<and> (if taken then s' = s
           else \<exists>u. usr s' = (usr s)(ae_id env \<mapsto> u) \<and> usr_Username u = name \<and> usr_Roles u = [RoleAdmin]
             \<and> 8 \<le> length pw
             \<and> bcrypt_Generate lib (ae_salt env) (bcrypt_DefaultCost lib) pw = Inr (usr_PasswordHash u))"
proof -
  have loc: "auth_service svc keep ok usr tok" using assms(1,4) by (simp add: auth_service_def)
  show ?thesis
  proof (cases taken)
    case True
    then obtain i v where "usr s i = Some v" "usr_Username v = name" unfolding taken_def by blast
    with auth_service.ensure_existing [OF loc assms(2) this(1), of lib env pw "[RoleAdmin]"] True assms(2)
    show ?thesis by simp
  next
    case False
    then have free: "\<forall>i v. usr s i = Some v \<longrightarrow> usr_Username v \<noteq> name" unfolding taken_def by blast
    note ensure = auth_service.ensure_missing [OF loc assms(2) free, of lib env pw "[RoleAdmin]"]
    show ?thesis
    proof (cases "length pw < 8 \<or> (\<exists>err. bcrypt_Generate lib (ae_salt env) (bcrypt_DefaultCost lib) pw = Inl err)")
      case True
      then show ?thesis
        using ensure assms(4) by (auto simp: auth_CreateUser_def)
    next
      case False
      then obtain h where h: "8 \<le> length pw" "bcrypt_Generate lib (ae_salt env) (bcrypt_DefaultCost lib) pw = Inr h"
        by (cases "bcrypt_Generate lib (ae_salt env) (bcrypt_DefaultCost lib) pw") auto
      then have "bcrypt_Generate lib (ae_salt env) (as_bcryptCost svc) pw = Inr h" by (simp add: assms(4))
      from auth_service.create_ok [OF loc assms(2) h(1) this assms(3) free, of "[RoleAdmin]"]
      obtain u s' where u: "auth_CreateUser lib env svc name pw [RoleAdmin] s = (Inr u, s')" "ok s'"
        "usr s' = (usr s)(ae_id env \<mapsto> kept_user keep u)" "tok s' = tok s" "usr_Username u = name"
        "usr_PasswordHash u = h" "usr_Roles u = [RoleAdmin]"
        by auto
      then have "auth_EnsureUser lib env svc name pw [RoleAdmin] s = (Inr True, s')" using ensure by simp
      with u h \<open>\<not> taken\<close> show ?thesis
        by (simp add: kept_user_def) (intro exI [of _ "u\<lparr>usr_CreatedAt := keep (usr_CreatedAt u)\<rparr>"], simp)
    qed
  qed
qed

lemma setup_auth_effect:
  assumes "user_contract us keep ok usr tok" "ok s" "usr s (ae_id env) = None"
  shows "case setup_auth lib env cfg us s of
      Fatal msg err \<Rightarrow> cfg_JWTSecret cfg \<noteq> '''' \<and> cfg_AdminPassword cfg \<noteq> ''''
        \<and> (err = ErrWeakPassword \<and> length (cfg_AdminPassword cfg) < 8
           \<or> bcrypt_Generate lib (ae_salt env) (bcrypt_DefaultCost lib) (cfg_AdminPassword cfg) = Inl err)
    | Up (manager, svc, s') \<Rightarrow> ok s' \<and> tok s' = tok s
        \<and> manager = NewManager \<lparr>acfg_Secret = cfg_JWTSecret cfg, acfg_Issuer = '''', acfg_TTL = cfg_JWTTTL cfg\<rparr>
        \<and> svc = map_option (\<lambda>m. NewService lib us m (cfg_RefreshTTL cfg)) manager
        \<and> (if manager = None \<or> cfg_AdminPassword cfg = ''''
              \<or> (\<exists>i v. usr s i = Some v \<and> usr_Username v = cfg_AdminUsername cfg) then s' = s
           else \<exists>u. usr s' = (usr s)(ae_id env \<mapsto> u) \<and> usr_Username u = cfg_AdminUsername cfg
             \<and> usr_Roles u = [RoleAdmin] \<and> 8 \<le> length (cfg_AdminPassword cfg)
             \<and> bcrypt_Generate lib (ae_salt env) (bcrypt_DefaultCost lib) (cfg_AdminPassword cfg)
                 = Inr (usr_PasswordHash u))"
proof (cases "NewManager \<lparr>acfg_Secret = cfg_JWTSecret cfg, acfg_Issuer = '''', acfg_TTL = cfg_JWTTTL cfg\<rparr>")
  case None
  then show ?thesis using assms(2) by (simp add: setup_auth_def)
next
  case (Some m)
  then have secret: "cfg_JWTSecret cfg \<noteq> ''''" by (auto simp: NewManager_def)
  have seed: "case auth_EnsureUser lib env (NewService lib us m (cfg_RefreshTTL cfg)) (cfg_AdminUsername cfg)
        (cfg_AdminPassword cfg) [RoleAdmin] s of
      (Inl err, s') \<Rightarrow> err = ErrWeakPassword \<and> length (cfg_AdminPassword cfg) < 8
        \<or> bcrypt_Generate lib (ae_salt env) (bcrypt_DefaultCost lib) (cfg_AdminPassword cfg) = Inl err
    | (Inr created, s') \<Rightarrow> ok s' \<and> tok s' = tok s
        \<and> (if \<exists>i v. usr s i = Some v \<and> usr_Username v = cfg_AdminUsername cfg then s' = s
           else \<exists>u. usr s' = (usr s)(ae_id env \<mapsto> u) \<and> usr_Username u = cfg_AdminUsername cfg
             \<and> usr_Roles u = [RoleAdmin] \<and> 8 \<le> length (cfg_AdminPassword cfg)
             \<and> bcrypt_Generate lib (ae_salt env) (bcrypt_DefaultCost lib) (cfg_AdminPassword cfg)
                 = Inr (usr_PasswordHash u))"
    by (rule seed_admin [OF assms refl])
  show ?thesis
  proof (cases "cfg_AdminPassword cfg = ''''")
    case True
    with Some assms(2) show ?thesis by (simp add: setup_auth_def)
  next
    case False
    with Some secret seed show ?thesis
      by (auto simp: setup_auth_def Let_def split: prod.splits sum.splits if_splits)
  qed
qed

lemma seed_devices:
  "auth_CreateUser lib env (NewService lib mem_user_store m n) name pw roles s = (r, s')
   \<Longrightarrow> ms_devices s' = ms_devices s"
  by (auto simp: auth_CreateUser_def mem_user_store_def mem_CreateUser_def Let_def
      split: if_splits sum.splits prod.splits option.splits)

lemma setup_auth_devices:
  "setup_auth lib env cfg mem_user_store s = Up (m, a, s') \<Longrightarrow> ms_devices s' = ms_devices s"
  by (auto simp: setup_auth_def auth_EnsureUser_def Let_def seed_devices
      split: option.splits prod.splits sum.splits if_splits)

lemma start_pool: "pool_run (NewPool w q) [Internal] (Start (NewPool w q))"
  "pool_started (Start (NewPool w q))" "\<not> pool_cancelled (Start (NewPool w q))"
proof -
  have "pool_run (NewPool w q) ([] @ [Internal]) (Start (NewPool w q))"
    by (rule pool_run.snoc [OF pool_run.none pool_step.start])
  then show "pool_run (NewPool w q) [Internal] (Start (NewPool w q))" by simp
qed (simp_all add: Start_def NewPool_def Let_def)

lemma no_redis: "cfg_RedisAddr cfg = '''' \<Longrightarrow> setup_redis R z idle cfg = Up ([], fst idle, snd idle, False)"
  by (simp add: setup_redis_def)

lemma auth_disabled_iff:
  "NewManager \<lparr>acfg_Secret = k, acfg_Issuer = i, acfg_TTL = t\<rparr> = None \<longleftrightarrow> k = ''''"
  by (simp add: NewManager_def)

lemma new_store_empty:
  "mem_wf (NewMemoryStore n)" "fmlookup (ms_users (NewMemoryStore n)) = Map.empty"
  "ms_devices (NewMemoryStore n) = fmempty"
  by (simp_all add: NewMemoryStore_wf) (simp_all add: NewMemoryStore_def fun_eq_iff)

text \<open>The accounts of a server that starts on an empty in-memory store.\<close>

lemma seeded_accounts:
  assumes "bcrypt_ok lib" "setup_auth lib env cfg mem_user_store (NewMemoryStore n) = Up (m, a, s')"
  shows "mem_wf s' \<and> ms_devices s' = fmempty \<and> (m = None \<longleftrightarrow> cfg_JWTSecret cfg = '''')
    \<and> (if cfg_JWTSecret cfg = '''' \<or> cfg_AdminPassword cfg = '''' then fmlookup (ms_users s') = Map.empty
       else \<exists>svc u. a = Some svc \<and> fmlookup (ms_users s') = [ae_id env \<mapsto> u] \<and> usr_Roles u = [RoleAdmin]
         \<and> authenticate lib env' svc (cfg_AdminUsername cfg) (cfg_AdminPassword cfg) s' = Inr u)"
proof -
  note seeded = setup_auth_effect [OF mem_usr.user_contract_axioms new_store_empty(1),
      where env = env and lib = lib and cfg = cfg]
  have eff: "mem_wf s'"
    "m = NewManager \<lparr>acfg_Secret = cfg_JWTSecret cfg, acfg_Issuer = '''', acfg_TTL = cfg_JWTTTL cfg\<rparr>"
    "a = map_option (\<lambda>m. NewService lib mem_user_store m (cfg_RefreshTTL cfg)) m"
    "if m = None \<or> cfg_AdminPassword cfg = '''' then s' = NewMemoryStore n
     else \<exists>u. fmlookup (ms_users s') = [ae_id env \<mapsto> u] \<and> usr_Username u = cfg_AdminUsername cfg
       \<and> usr_Roles u = [RoleAdmin] \<and> bcrypt_Generate lib (ae_salt env) (bcrypt_DefaultCost lib)
           (cfg_AdminPassword cfg) = Inr (usr_PasswordHash u)"
    using seeded [of n] assms(2) new_store_empty(2) by (auto split: if_splits)
  have off: "m = None \<longleftrightarrow> cfg_JWTSecret cfg = ''''" by (simp add: eff(2) auth_disabled_iff)
  have "\<exists>svc u. a = Some svc \<and> fmlookup (ms_users s') = [ae_id env \<mapsto> u] \<and> usr_Roles u = [RoleAdmin]
      \<and> authenticate lib env' svc (cfg_AdminUsername cfg) (cfg_AdminPassword cfg) s' = Inr u"
    if on: "cfg_JWTSecret cfg \<noteq> ''''" "cfg_AdminPassword cfg \<noteq> ''''"
  proof -
    from on off obtain mm where mm: "m = Some mm" by auto
    with eff(4) on obtain u where u: "fmlookup (ms_users s') = [ae_id env \<mapsto> u]"
      "usr_Username u = cfg_AdminUsername cfg" "usr_Roles u = [RoleAdmin]"
      "bcrypt_Compare lib (usr_PasswordHash u) (cfg_AdminPassword cfg) = None"
      using assms(1) by (auto simp: bcrypt_ok_def)
    have "fmlookup (ms_users s') (ae_id env) = Some u" using u(1) by simp
    from mem_auth.authenticate_known [OF eff(1) this, of lib env' lib mm "cfg_RefreshTTL cfg"] u mm
    show ?thesis by (auto simp: eff(3))
  qed
  with eff off setup_auth_devices [OF assms(2)] show ?thesis by (auto simp: new_store_empty)
qed

text \<open>
  C26: Starting without MongoDB and Redis. The only failure is that the administrator cannot be
  created: its password is shorter than eight characters or bcrypt refuses it. Otherwise the
  server runs on an empty in-memory store with a running pool and an empty hub, which satisfy the
  invariants of their components; authentication is disabled exactly if no JWT secret is
  configured; and with a secret and an administrator password the only account is the
  administrator's, who can log in with that password.
\<close>

theorem server_boots_in_memory:
  assumes "cfg_MongoURI cfg = ''''" "cfg_RedisAddr cfg = ''''" "bcrypt_ok lib"
  shows "case main_start lib M R z idle env now cfg of
      Fatal msg err \<Rightarrow> cfg_JWTSecret cfg \<noteq> '''' \<and> cfg_AdminPassword cfg \<noteq> ''''
        \<and> (err = ErrWeakPassword \<and> length (cfg_AdminPassword cfg) < 8
           \<or> bcrypt_Generate lib (ae_salt env) (bcrypt_DefaultCost lib) (cfg_AdminPassword cfg) = Inl err)
    | Up running \<Rightarrow> \<exists>app s. running = OnMemory app \<and> s = w_store (sv_world (app_state app))
        \<and> mem_wf s \<and> ms_devices s = fmempty \<and> hub_wf (w_hub (sv_world (app_state app)))
        \<and> pool_run (NewPool (cfg_Workers cfg) (cfg_QueueSize cfg)) [Internal] (sv_pool (app_state app))
        \<and> pool_started (sv_pool (app_state app))
        \<and> h_svc (app_handler app) = local_service None (cfg_OfflineAfter cfg)
        \<and> (h_auth (app_handler app) = None \<longleftrightarrow> cfg_JWTSecret cfg = '''')
        \<and> (if cfg_JWTSecret cfg = '''' \<or> cfg_AdminPassword cfg = '''' then fmlookup (ms_users s) = Map.empty
           else \<exists>svc u. h_authSvc (app_handler app) = Some svc \<and> fmlookup (ms_users s) = [ae_id env \<mapsto> u]
             \<and> usr_Roles u = [RoleAdmin]
             \<and> authenticate lib env' svc (cfg_AdminUsername cfg) (cfg_AdminPassword cfg) s = Inr u)"
proof -
  let ?s = "NewMemoryStore (cfg_MaxHistory cfg)"
  note redis = no_redis [OF assms(2)]
  show ?thesis
  proof (cases "setup_auth lib env cfg mem_user_store ?s")
    case (Fatal msg err)
    with setup_auth_effect [OF mem_usr.user_contract_axioms new_store_empty(1), where env = env and lib = lib
        and cfg = cfg, of "cfg_MaxHistory cfg"] assms(1) show ?thesis
      by (simp add: main_start_def start_on_def Let_def redis new_store_empty)
  next
    case (Up mas)
    obtain m a s' where mas: "mas = (m, a, s')" by (metis prod_cases3)
    define app where "app = \<lparr>app_handler = NewHandler (svc_New mem_store (cfg_OfflineAfter cfg) []) m a,
      app_state = \<lparr>sv_world = \<lparr>w_store = s', w_cache = fst idle, w_hub = NewHub 64, w_bus = snd idle,
        w_engine = default_engine\<rparr>, sv_pool = Start (NewPool (cfg_Workers cfg) (cfg_QueueSize cfg))\<rparr>,
      app_subscribed = False, app_reconcile = reconciler_interval (cfg_ReconcileEvery cfg),
      app_bridge = setup_bridge now cfg, app_http = \<lparr>hs_Addr = cfg_HTTPAddr cfg,
        hs_ReadTimeout = 15 * Second, hs_WriteTimeout = 0, hs_IdleTimeout = 60 * Second\<rparr>\<rparr>"
    have run: "main_start lib M R z idle env now cfg = Up (OnMemory app)"
      using assms(1) Up mas by (simp add: main_start_def start_on_def Let_def app_def redis)
    have "svc_New mem_store (cfg_OfflineAfter cfg) [] = local_service None (cfg_OfflineAfter cfg)"
      by (simp add: local_service_def svc_New_def WithStatusCache_def)
    with run seeded_accounts [OF assms(3) Up [unfolded mas], of env'] start_pool show ?thesis
      by (auto simp: app_def NewHandler_def NewHub_wf)
  qed
qed


definition sample_boot_config :: Config where
  "sample_boot_config = \<lparr>cfg_HTTPAddr = '':8080'', cfg_Workers = 2, cfg_QueueSize = 8, cfg_MaxHistory = 100,
     cfg_OfflineAfter = 30 * Second, cfg_ReconcileEvery = 10 * Second, cfg_MQTTBrokerURL = '''',
     cfg_MQTTTopicPrefix = ''devices'', cfg_MQTTClientID = '''', cfg_MQTTUsername = '''',
     cfg_MQTTPassword = '''', cfg_MongoURI = '''', cfg_MongoDB = ''iot'', cfg_RedisAddr = '''',
     cfg_RedisPassword = '''', cfg_RedisDB = 0, cfg_RedisStatusTTL = 0, cfg_JWTSecret = ''secret'',
     cfg_JWTTTL = 0, cfg_RefreshTTL = 0, cfg_AdminUsername = ''admin'', cfg_AdminPassword = ''change-me-now''\<rparr>"

theorem server_boots_in_memory_witness:
  "\<exists>app svc u. main_start sample_lib list_mongo list_redis (\<lambda>_. 0) ((\<lambda>_. None), []) (sample_auth_env []) 0
      sample_boot_config = Up (OnMemory app)
    \<and> h_authSvc (app_handler app) = Some svc \<and> h_auth (app_handler app) \<noteq> None \<and> usr_Roles u = [RoleAdmin]
    \<and> authenticate sample_lib (sample_auth_env []) svc ''admin'' ''change-me-now''
        (w_store (sv_world (app_state app))) = Inr u"
proof -
  have cfg: "cfg_MongoURI sample_boot_config = ''''" "cfg_RedisAddr sample_boot_config = ''''"
    "cfg_JWTSecret sample_boot_config = ''secret''" "cfg_AdminUsername sample_boot_config = ''admin''"
    "cfg_AdminPassword sample_boot_config = ''change-me-now''"
    by (simp_all add: sample_boot_config_def)
  note boots = server_boots_in_memory [OF cfg(1,2) sample_bcrypt_ok, where M = list_mongo and R = list_redis
      and z = "\<lambda>_. 0" and idle = "((\<lambda>_. None), [])" and env = "sample_auth_env []" and now = 0
      and env' = "sample_auth_env []", unfolded cfg(3-5) sample_bcrypt]
  show ?thesis
  proof (cases "main_start sample_lib list_mongo list_redis (\<lambda>_. 0) ((\<lambda>_. None), []) (sample_auth_env []) 0
      sample_boot_config")
    case (Fatal msg err)
    with boots show ?thesis by simp
  next
    case (Up running)
    with boots show ?thesis by fastforce
  qed
qed

text \<open>
  Starting on MongoDB and Redis. When both answer and the documents in the database are
  well-formed, the store is in its invariant, the service publishes to Redis and caches statuses
  there with a positive lifetime, the messages of the bus feed the local hub, and authentication
  is disabled exactly if no JWT secret is configured.
\<close>

lemma server_boots_on_mongo:
  assumes "mongo_ok M docs uniq up" "mongo_Ping M db = None" "up db"
    and "mongo_Connect M (cfg_MongoURI cfg) (if cfg_MongoDB cfg = '''' then ''iot'' else cfg_MongoDB cfg) = Inr db"
    and "docs_wf (cfg_MaxHistory cfg) (docs db)" "uniq db = (\<lambda>_. {}) \<or> indexes_wf (uniq db)"
    and "keyed usr_ID (map user_of (docs db ''users'')) (ae_id env) = None"
    and "cfg_MongoURI cfg \<noteq> ''''" "cfg_RedisAddr cfg \<noteq> ''''"
    and "main_start lib M R z idle env now cfg = Up running"
  shows "\<exists>app r. running = OnMongo app
    \<and> mongo_inv docs uniq up (w_store (sv_world (app_state app)))
    \<and> hub_wf (w_hub (sv_world (app_state app)))
    \<and> h_svc (app_handler app) = cloud_service M R z r (cfg_OfflineAfter cfg)
    \<and> rds_ttl r = (if cfg_RedisStatusTTL cfg \<le> 0 then 5 * Minute else cfg_RedisStatusTTL cfg)
    \<and> app_subscribed app \<and> pool_started (sv_pool (app_state app))
    \<and> (h_auth (app_handler app) = None \<longleftrightarrow> cfg_JWTSecret cfg = '''')"
proof -
  let ?mc = "\<lparr>mc_URI = cfg_MongoURI cfg, mc_Database = cfg_MongoDB cfg,
    mc_MaxHistory = cfg_MaxHistory cfg, mc_Timeout = 0\<rparr>"
  let ?rc = "\<lparr>rc_Addr = cfg_RedisAddr cfg, rc_Password = cfg_RedisPassword cfg,
    rc_DB = cfg_RedisDB cfg, rc_StatusTTL = cfg_RedisStatusTTL cfg\<rparr>"
  have "mongo_Connect M (mc_URI ?mc) (if mc_Database ?mc = '''' then ''iot'' else mc_Database ?mc) = Inr db"
    "docs_wf (mc_MaxHistory ?mc) (docs db)"
    using assms(4,5) by (simp_all only: MongoConfig.simps)
  from mongo_starts [OF assms(1), OF assms(2,3) this assms(6)] obtain ms where
    ms: "NewMongoStore M ?mc = Inr ms" "mongo_inv docs uniq up ms" "docs (mgs_db ms) = docs db"
    by blast
  have fresh: "musr docs ms (ae_id env) = None" using assms(7) ms(3) by (simp add: musr_def)
  note seeded = setup_auth_effect [OF mongo_user_contract [OF assms(1)] ms(2) fresh, where lib = lib and cfg = cfg]
  from assms(8-10) ms(1) obtain opts c b feeding m a s' app where
    redis: "setup_redis R z idle cfg = Up (opts, c, b, feeding)"
    and auth: "setup_auth lib env cfg (mongo_user_store M) ms = Up (m, a, s')"
    and app: "running = OnMongo app" "w_store (sv_world (app_state app)) = s'"
      "w_hub (sv_world (app_state app)) = NewHub 64" "app_subscribed app = feeding"
      "sv_pool (app_state app) = Start (NewPool (cfg_Workers cfg) (cfg_QueueSize cfg))"
      "app_handler app = NewHandler (svc_New (mongo_store M) (cfg_OfflineAfter cfg) opts) m a"
    by (auto simp: main_start_def start_on_def Let_def split: boot.splits)
  from redis assms(9) obtain r where r: "rds_New R ?rc = Inr (r, c, b)" "feeding"
    "opts = [WithPublisher (Some (redis_publisher R z)), WithStatusCache (Some (redis_cache R z r))]"
    by (auto simp: setup_redis_def split: sum.splits)
  have "rds_ttl r = (if cfg_RedisStatusTTL cfg \<le> 0 then 5 * Minute else cfg_RedisStatusTTL cfg)"
    using r(1) by (auto simp: rds_New_def Let_def split: prod.splits option.splits)
  with app r(2,3) seeded auth show ?thesis
    by (auto simp: NewHandler_def NewHub_wf cloud_service_def auth_disabled_iff start_pool)
qed


definition sample_cloud_config :: Config where
  "sample_cloud_config = sample_boot_config\<lparr>cfg_MongoURI := ''mongodb://db'', cfg_RedisAddr := ''redis:6379'',
     cfg_JWTSecret := ''''\<rparr>"

lemma sample_cloud_boots:
  "\<exists>app r. main_start sample_lib list_mongo list_redis (\<lambda>_. 0) ((\<lambda>_. None), []) (sample_auth_env []) 0
      sample_cloud_config = Up (OnMongo app)
    \<and> mongo_inv ld_docs ld_uniq ld_ok (w_store (sv_world (app_state app)))
    \<and> h_svc (app_handler app) = cloud_service list_mongo list_redis (\<lambda>_. 0) r (30 * Second)
    \<and> rds_ttl r = 5 * Minute \<and> app_subscribed app \<and> h_auth (app_handler app) = None"
proof -
  let ?db = "\<lparr>ld_docs = (\<lambda>_. []), ld_uniq = (\<lambda>_. {}), ld_next = 0\<rparr>"
  let ?run = "main_start sample_lib list_mongo list_redis (\<lambda>_. 0) ((\<lambda>_. None), []) (sample_auth_env []) 0
      sample_cloud_config"
  have cfg: "cfg_MongoURI sample_cloud_config \<noteq> ''''" "cfg_RedisAddr sample_cloud_config \<noteq> ''''"
    "cfg_JWTSecret sample_cloud_config = ''''" "cfg_OfflineAfter sample_cloud_config = 30 * Second"
    "cfg_RedisStatusTTL sample_cloud_config = 0"
    by (simp_all add: sample_cloud_config_def sample_boot_config_def)
  have db: "mongo_Ping list_mongo ?db = None" "ld_ok ?db" "mongo_Connect list_mongo uri name = Inr ?db"
    "docs_wf n (ld_docs ?db)" "ld_uniq ?db = (\<lambda>_. {}) \<or> indexes_wf (ld_uniq ?db)"
    "keyed usr_ID (map user_of (ld_docs ?db ''users'')) i = None" for uri name n i
    by (simp_all add: list_mongo_def ld_ok_def empty_docs_wf keyed_def)
  obtain ms where "NewMongoStore list_mongo \<lparr>mc_URI = cfg_MongoURI sample_cloud_config,
      mc_Database = cfg_MongoDB sample_cloud_config, mc_MaxHistory = cfg_MaxHistory sample_cloud_config,
      mc_Timeout = 0\<rparr> = Inr ms"
    using mongo_starts [OF list_mongo_ok db(1-5)] by blast
  then have "\<exists>app. ?run = Up (OnMongo app)"
    using cfg(1-3) by (simp add: main_start_def start_on_def Let_def setup_redis_def rds_New_def
        list_redis_def setup_auth_def NewManager_def)
  then obtain app where run: "?run = Up (OnMongo app)" by blast
  from server_boots_on_mongo [OF list_mongo_ok db cfg(1,2) run] run show ?thesis
    by (simp add: cfg(3-5)) blast
qed

end
