(* ===== verification/Interleaving.thy ===== *)
theory Interleaving
  imports Service_Correct
begin

text \<open>
  Two methods of the service running at the same time. Each store call is atomic, but a method
  makes several, and another method can run between them. The methods are cut at the point in
  question into a first and a second part, which together are the method.
\<close>

section \<open>The cuts\<close>

text \<open>
  \<open>processTelemetry\<close> up to the evaluation of the alert rules, and whether it goes on from there.
\<close>

definition telemetry_stage :: "('s, 'c, 'b) Service \<Rightarrow> env \<Rightarrow> Telemetry \<Rightarrow> ('s, 'c, 'b) world
    \<Rightarrow> (bool \<times> ('s, 'c, 'b) world) option" where
  "telemetry_stage svc env t w =
     (case AddTelemetry (svc_store svc) (w_store w) t of
        (Some _, s) \<Rightarrow> Some (False, w\<lparr>w_store := s\<rparr>)
      | (None, s1) \<Rightarrow>
          (let s2 = snd (UpdateDeviceStatus (svc_store svc) s1 (tel_DeviceID t) StatusOnline (tel_Timestamp t))
           in map_option (Pair True) (publish svc (env_sched env 0) (telemetry_event t)
                (cacheStatus svc (env_now env 0) (tel_DeviceID t) StatusOnline (tel_Timestamp t) (w\<lparr>w_store := s2\<rparr>)))))"

definition alert_stage :: "('s, 'c, 'b) Service \<Rightarrow> env \<Rightarrow> Telemetry \<Rightarrow> ('s, 'c, 'b) world
    \<Rightarrow> ('s, 'c, 'b) world option" where
  "alert_stage svc env t w = alert_loop svc env 1
     (Evaluate (env_isPrint env) (env_id env) (\<lambda>i. env_now env (Suc i)) (w_engine w) t) w"

lemma processTelemetry_stages:
  "svc_processTelemetry svc env t w = Option.bind (telemetry_stage svc env t w)
     (\<lambda>(raise, w'). if raise then alert_stage svc env t w' else Some w')"
  by (auto simp: svc_processTelemetry_def telemetry_stage_def alert_stage_def Let_def case_prod_beta
      split: prod.splits option.splits)

text \<open>\<open>ReconcileStatuses\<close> is the reading of the device list followed by the loop over it.\<close>

lemma reconcile_stages:
  "svc_ReconcileStatuses svc env w = reconcile_loop svc env (env_now env 0) 2
     (ListDevices (svc_store svc) (env_sched env 0) (env_sched env 1) (w_store w)) w"
  by (simp add: svc_ReconcileStatuses_def)

context service
begin

text \<open>The second part of a sweep, on whatever the store has become since the list was read.\<close>

lemma reconcile_loop_late:
  assumes "winv w" "distinct (map dev_ID ds)"
  shows "\<exists>w'. reconcile_loop svc env now i ds w = Some w' \<and> winv w'
    \<and> dev (w_store w') = (\<lambda>k. if \<exists>d \<in> set ds. dev_ID d = k \<and> stale svc now d
         then map_option (\<lambda>e. e\<lparr>dev_Status := StatusOffline\<rparr>) (dev (w_store w) k) else dev (w_store w) k)"
  using assms
proof (induction ds arbitrary: i w)
  case (Cons d ds)
  let ?late = "\<lambda>ds w k. if \<exists>d \<in> set ds. dev_ID d = k \<and> stale svc now d
         then map_option (\<lambda>e. e\<lparr>dev_Status := StatusOffline\<rparr>) (dev (w_store w) k) else dev (w_store w) k"
  have inv: "inv (w_store w)" using Cons.prems(1) by (simp add: winv_def)
  have rest: "distinct (map dev_ID ds)" "dev_ID d \<notin> dev_ID ` set ds" using Cons.prems(2) by auto
  show ?case
  proof (cases "stale svc now d")
    case False
    then have "reconcile_loop svc env now i (d # ds) w = reconcile_loop svc env now (Suc i) ds w"
      by (auto simp: stale_def)
    with Cons.IH [OF Cons.prems(1) rest(1), of "Suc i"] False show ?thesis by simp
  next
    case stale: True
    show ?thesis
    proof (cases "dev (w_store w) (dev_ID d)")
      case None
      with status_unknown [OF inv None] stale have
        "reconcile_loop svc env now i (d # ds) w = reconcile_loop svc env now (Suc i) ds w"
        by (simp add: stale_def)
      moreover have "?late (d # ds) w = ?late ds w" using None by (auto simp: fun_eq_iff)
      ultimately show ?thesis using Cons.IH [OF Cons.prems(1) rest(1), of "Suc i"] by simp
    next
      case (Some e)
      obtain s where s: "UpdateDeviceStatus (svc_store svc) (w_store w) (dev_ID d) StatusOffline 0 = (None, s)"
        using status_some [OF inv] Some by (metis option.distinct(1))
      note known = status_known [OF inv Some s]
      let ?w = "cacheStatus svc (env_now env (Suc i)) (dev_ID d) StatusOffline 0 (w\<lparr>w_store := s\<rparr>)"
      have "pinv (outlets ?w)" using Cons.prems(1) by (simp add: winv_def)
      then obtain h b where p: "publish svc (env_sched env i) (offline_event now (dev_ID d)) ?w
          = Some (?w\<lparr>w_hub := h, w_bus := b\<rparr>)" "pinv (h, b)" by (rule publish_step)
      let ?v = "?w\<lparr>w_hub := h, w_bus := b\<rparr>"
      have v: "winv ?v" using known p(2) by (simp add: winv_def)
      have step: "reconcile_loop svc env now i (d # ds) w = reconcile_loop svc env now (Suc i) ds ?v"
        using stale s p(1) by (simp add: stale_def)
      have same: "?late ds ?v = ?late (d # ds) w"
        using known Some stale rest(2) by (auto simp: fun_eq_iff IsZero_def)
      from Cons.IH [OF v rest(1), of "Suc i"] show ?thesis unfolding step same .
    qed
  qed
qed simp

lemma reconcile_loop_hits:
  assumes "winv w" "distinct (map dev_ID ds)" "d \<in> set ds" "stale svc now d"
  shows "\<exists>w'. reconcile_loop svc env now i ds w = Some w' \<and> winv w'
    \<and> dev (w_store w') (dev_ID d) = map_option (\<lambda>e. e\<lparr>dev_Status := StatusOffline\<rparr>) (dev (w_store w) (dev_ID d))"
proof -
  have "\<exists>x \<in> set ds. dev_ID x = dev_ID d \<and> stale svc now x" using assms(3,4) by blast
  then have hit: "(if \<exists>x \<in> set ds. dev_ID x = dev_ID d \<and> stale svc now x then a else b) = a" for a b :: "Device option"
    by simp
  from reconcile_loop_late [OF assms(1,2), of env now i] obtain w' where
    w': "reconcile_loop svc env now i ds w = Some w'" "winv w'" and late: "dev (w_store w') =
      (\<lambda>k. if \<exists>x \<in> set ds. dev_ID x = k \<and> stale svc now x
           then map_option (\<lambda>e. e\<lparr>dev_Status := StatusOffline\<rparr>) (dev (w_store w) k) else dev (w_store w) k)"
    by blast
  have "dev (w_store w') (dev_ID d) = map_option (\<lambda>e. e\<lparr>dev_Status := StatusOffline\<rparr>) (dev (w_store w) (dev_ID d))"
    by (simp only: late hit)
  with w' show ?thesis by blast
qed

end

lemma filter_mset_all: "\<forall>x \<in> set xs. P x \<Longrightarrow> filter_mset P (mset xs) = mset xs"
  by (induction xs) auto

section \<open>A sweep that overtakes a report\<close>

text \<open>
  C30: \<open>ReconcileStatuses\<close> decides on the device list it read and writes without looking again. If
  a device reports between the reading and the writing, the sweep puts it offline although it was
  last seen at the time of that report, and it stays offline until the next report.
\<close>

theorem reconcile_race:
  assumes "mem_wf (w_store w)" "hub_wf (w_hub w)" "fmlookup (ms_devices (w_store w)) (tel_DeviceID t) = Some d"
    and "\<not> IsZero (tel_Timestamp t)"
    and "\<not> IsZero (dev_LastSeenAt d)" "dev_Status d \<noteq> StatusOffline"
    and "(if n \<le> 0 then 30 * Second else n) < Sub now (dev_LastSeenAt d)"
    and "svc_processTelemetry (local_service c n) env t w = Some w1"
  shows "\<exists>w2 e. reconcile_loop (local_service c n) env' now 2 (ListDevices mem_store p q (w_store w)) w1 = Some w2
    \<and> mem_wf (w_store w2)
    \<and> fmlookup (ms_devices (w_store w1)) (tel_DeviceID t) = Some e \<and> dev_Status e = StatusOnline
    \<and> fmlookup (ms_devices (w_store w2)) (tel_DeviceID t) = Some (e\<lparr>dev_Status := StatusOffline\<rparr>)
    \<and> dev_LastSeenAt e = tel_Timestamp t"
proof -
  have w: "loc.winv w" using assms(1,2) by (simp add: loc.winv_def outlets_def)
  from loc.process_known [OF w assms(3), of c n env] assms(4,8)
  have w1: "loc.winv w1" "fmlookup (ms_devices (w_store w1)) (tel_DeviceID t) =
      Some (d\<lparr>dev_Status := StatusOnline, dev_LastSeenAt := tel_Timestamp t\<rparr>)"
    by (auto simp: IsZero_def)
  have ids: "dev_ID d = tel_DeviceID t" using mem_dev.dev_keyed [OF assms(1,3)] .
  have listed: "d \<in> set (ListDevices mem_store p q (w_store w))"
    using mem_dev.list_set [OF assms(1), of p q] assms(3) by (auto simp: ran_def)
  have "stale (local_service c n) now d" using assms(5-7) by (simp add: stale_def)
  from loc.reconcile_loop_hits [OF w1(1) mem_dev.list_distinct [OF assms(1), of p q] listed this, of env' 2]
  obtain w2 where "reconcile_loop (local_service c n) env' now 2 (ListDevices mem_store p q (w_store w)) w1 = Some w2"
      "loc.winv w2" "fmlookup (ms_devices (w_store w2)) (dev_ID d) = map_option
        (\<lambda>e. e\<lparr>dev_Status := StatusOffline\<rparr>) (fmlookup (ms_devices (w_store w1)) (dev_ID d))"
    by auto
  with w1(2) ids show ?thesis by (simp add: loc.winv_def)
qed

theorem reconcile_race_witness:
  "\<exists>w1 w2. svc_processTelemetry (local_service None 0) sample_env (sample_point ''d1'' (99 * Second)) stale_world
      = Some w1
    \<and> reconcile_loop (local_service None 0) sample_env (100 * Second) 2
        (ListDevices mem_store [0] [] (w_store stale_world)) w1 = Some w2
    \<and> map_option dev_Status (fmlookup (ms_devices (w_store w1)) ''d1'') = Some StatusOnline
    \<and> map_option dev_Status (fmlookup (ms_devices (w_store w2)) ''d1'') = Some StatusOffline"
proof -
  let ?t = "sample_point ''d1'' (99 * Second)"
  have id: "tel_DeviceID ?t = ''d1''" "tel_Timestamp ?t = 99 * Second" by (simp_all add: sample_point_def)
  have known: "fmlookup (ms_devices (w_store stale_world)) (tel_DeviceID ?t)
      = Some (sample_device\<lparr>dev_Status := StatusOnline, dev_LastSeenAt := 5\<rparr>)"
    using stale_world_ok(3) id by simp
  have "loc.winv stale_world" using stale_world_ok by (simp add: loc.winv_def outlets_def)
  from loc.process_known [OF this known, of None 0 sample_env]
  obtain w1 where w1: "svc_processTelemetry (local_service None 0) sample_env ?t stale_world = Some w1" by auto
  show ?thesis
    using reconcile_race [OF stale_world_ok(1,2) known _ _ _ _ w1, of "100 * Second" sample_env "[0]" "[]"] w1 id
    by (auto simp: IsZero_def Sub_def max_duration_def min_duration_def duration_units status_defs)
qed

section \<open>A sample of a device that is being deleted\<close>

text \<open>
  C31: \<open>AddAlert\<close> does not ask whether the device exists. If the device is deleted while one of its
  samples is processed, after the sample was stored and before the alerts are, then every alert
  the sample raises is stored for a device that no longer exists, and is listed from then on.
\<close>

theorem orphan_alerts:
  assumes "mem_wf (w_store w)" "hub_wf (w_hub w)" "fmlookup (ms_devices (w_store w)) (tel_DeviceID t) = Some d"
    and "as = Evaluate (env_isPrint env) (env_id env) (\<lambda>i. env_now env (Suc i)) (w_engine w) t"
    and "tel_DeviceID t \<noteq> ''''"
  shows "\<exists>w1 w2 w3. telemetry_stage (local_service c n) env t w = Some (True, w1)
    \<and> svc_DeleteDevice (local_service c n) (tel_DeviceID t) w1 = (None, w2)
    \<and> alert_stage (local_service c n) env t w2 = Some w3
    \<and> svc_GetDevice (local_service c n) env (tel_DeviceID t) w3 = Inl ErrNotFound
    \<and> mset (ListAlerts mem_store p q (w_store w3) (tel_DeviceID t)) = mset as"
proof -
  let ?svc = "local_service c n" and ?i = "tel_DeviceID t"
  obtain s1 where s1: "AddTelemetry mem_store (w_store w) t = (None, s1)"
    using mem.tel_known [OF assms(1,3)] by (metis surj_pair)
  have l1: "mem_wf s1" "fmlookup (ms_devices s1) ?i = Some d"
    using mem.tel_known [OF assms(1,3) s1] assms(3) by auto
  obtain s2 where s2: "UpdateDeviceStatus mem_store s1 ?i StatusOnline (tel_Timestamp t) = (None, s2)"
    using mem_dev.status_known [OF l1] by (metis surj_pair)
  note l2 = mem_dev.status_known [OF l1 s2]
  let ?w = "cacheStatus ?svc (env_now env 0) ?i StatusOnline (tel_Timestamp t) (w\<lparr>w_store := s2\<rparr>)"
  have "hub_wf (fst (outlets ?w))"
    using assms(2) by (simp only: outlets_simps cacheStatus_frame) (simp add: outlets_def)
  then obtain h b where p: "publish ?svc (env_sched env 0) (telemetry_event t) ?w
      = Some (?w\<lparr>w_hub := h, w_bus := b\<rparr>)" "hub_wf (fst (h, b))" by (rule loc.publish_step)
  let ?w1 = "?w\<lparr>w_hub := h, w_bus := b\<rparr>"
  have stage: "telemetry_stage ?svc env t w = Some (True, ?w1)"
    using s1 s2 p(1) by (simp add: telemetry_stage_def)
  obtain s3 where s3: "DeleteDevice mem_store s2 ?i = (None, s3)"
    using mem_dev.delete_known [of s2 ?i] l2 by (metis fun_upd_same surj_pair)
  note l3 = mem_dev.delete_known [of s2 ?i _ None s3] mem.delete_data [of s2 ?i s3]
  let ?w2 = "?w1\<lparr>w_store := s3\<rparr>"
  have del: "svc_DeleteDevice ?svc ?i ?w1 = (None, ?w2)" using s3 by (simp add: svc_DeleteDevice_def)
  have gone: "mem_wf s3" "fmlookup (ms_devices s3) ?i = None" "mset (series_of (ms_alerts s3) ?i) = {#}"
    using l3 l2 s3 by (auto simp: fun_eq_iff)
  have w2: "loc.winv ?w2" using gone(1) p(2) by (simp add: loc.winv_def outlets_def)
  have dev: "\<forall>a \<in> set as. al_DeviceID a = ?i" using Evaluate_device unfolding assms(4) by fast
  from loc.alert_loop_spec [OF w2, of c n env 1 as] gone dev obtain w3 where
    w3: "alert_loop ?svc env 1 as ?w2 = Some w3" "mem_wf (w_store w3)"
      "fmlookup (ms_devices (w_store w3)) ?i = None" "mset (series_of (ms_alerts (w_store w3)) ?i) = mset as"
    using filter_mset_all [OF dev] by (auto simp: loc.winv_def)
  have "alert_stage ?svc env t ?w2 = Some w3" using w3(1) by (simp add: alert_stage_def assms(4))
  moreover have "svc_GetDevice ?svc env ?i w3 = Inl ErrNotFound"
    using mem_dev.get_device [OF w3(2), of ?i] w3(3) by (simp add: svc_GetDevice_def)
  moreover have "mset (ListAlerts mem_store p q (w_store w3) ?i) = mset as"
    using mem.list_alerts [OF w3(2) assms(5), of p q] w3(4) by simp
  ultimately show ?thesis using stage del by blast
qed

theorem orphan_alerts_witness:
  "\<exists>w1 w2 w3. telemetry_stage (local_service None 0) sample_env (sample_point ''d1'' 7) sample_world = Some (True, w1)
    \<and> svc_DeleteDevice (local_service None 0) ''d1'' w1 = (None, w2)
    \<and> alert_stage (local_service None 0) sample_env (sample_point ''d1'' 7) w2 = Some w3
    \<and> svc_GetDevice (local_service None 0) sample_env ''d1'' w3 = Inl ErrNotFound
    \<and> length (ListAlerts mem_store [] [] (w_store w3) ''d1'') = 1"
proof -
  have known: "fmlookup (ms_devices (w_store sample_world)) (tel_DeviceID (sample_point ''d1'' 7))
      = Some sample_device"
    by (simp add: sample_world_def sample_store_device sample_point_def)
  have eng: "w_engine sample_world = default_engine" by (simp add: sample_world_def)
  have id: "tel_DeviceID (sample_point ''d1'' 7) = ''d1''" by (simp add: sample_point_def)
  have one: "mset xs = mset (Evaluate isPrint ids clock default_engine (sample_point ''d1'' 7))
      \<Longrightarrow> length xs = 1" for xs isPrint ids clock
    using sample_point_alerts by (metis size_mset)
  from orphan_alerts [OF sample_world_ok known refl, of None 0 sample_env "[]" "[]"] show ?thesis
    unfolding eng id using one by fastforce
qed

end
