(* ===== verification/Running.thy ===== *)
theory Running
  imports Server Interleaving
begin

text \<open>
  What every operation of the server keeps, whoever calls it and however the calls interleave.
  The locale \<open>live_service\<close> asks of the store that each of its changes keeps a predicate on its
  data, and of the publisher that it never panics; its lemmas carry this through the service, the
  authentication service, every HTTP handler and the middleware, on every branch. It is
  interpreted on the in-memory store, where the data are well-formed, bounded and finite.
\<close>

section \<open>Any data predicate that the changes of a store keep\<close>

locale stored_data =
  fixes ops :: "'s Store" and uops :: "'s UserStore"
    and P :: "'s \<Rightarrow> bool" and good :: "Telemetry \<Rightarrow> bool" and fair :: "Alert \<Rightarrow> bool"
  assumes keeps_create: "\<lbrakk>P s; CreateDevice ops s d = (e, s')\<rbrakk> \<Longrightarrow> P s'"
    and keeps_update: "\<lbrakk>P s; UpdateDevice ops s i n ty l m = (e, s')\<rbrakk> \<Longrightarrow> P s'"
    and keeps_status: "\<lbrakk>P s; UpdateDeviceStatus ops s i st seen = (e, s')\<rbrakk> \<Longrightarrow> P s'"
    and keeps_delete: "\<lbrakk>P s; DeleteDevice ops s i = (e, s')\<rbrakk> \<Longrightarrow> P s'"
    and keeps_telemetry: "\<lbrakk>P s; good t; AddTelemetry ops s t = (e, s')\<rbrakk> \<Longrightarrow> P s'"
    and keeps_alert: "\<lbrakk>P s; fair a; AddAlert ops s a = (e, s')\<rbrakk> \<Longrightarrow> P s'"
    and keeps_create_user: "\<lbrakk>P s; CreateUser uops p s u = (e, s')\<rbrakk> \<Longrightarrow> P s'"
    and keeps_update_user: "\<lbrakk>P s; GetUserByID uops s i = Inr v; usr_ID u = usr_ID v;
        usr_Username u = usr_Username v; usr_CreatedAt u = usr_CreatedAt v; UpdateUser uops s u = (e, s')\<rbrakk>
      \<Longrightarrow> P s'"
    and keeps_delete_user: "\<lbrakk>P s; DeleteUser uops p s i = (e, s')\<rbrakk> \<Longrightarrow> P s'"
    and keeps_put_token: "\<lbrakk>P s; StoreRefreshToken uops s r = (e, s')\<rbrakk> \<Longrightarrow> P s'"
    and keeps_drop_token: "\<lbrakk>P s; DeleteRefreshToken uops s h = (e, s')\<rbrakk> \<Longrightarrow> P s'"
    and keeps_drop_tokens: "\<lbrakk>P s; DeleteUserRefreshTokens uops p s i = (e, s')\<rbrakk> \<Longrightarrow> P s'"
    and good_samples: "finite_metrics (tel_Metrics t) \<Longrightarrow> good t"
begin

lemmas keeps = keeps_create keeps_update keeps_status keeps_delete keeps_create_user keeps_delete_user
  keeps_put_token keeps_drop_token keeps_drop_tokens

lemma keeps_snd:
  "P s \<Longrightarrow> P (snd (UpdateDeviceStatus ops s i st seen))"
  "\<lbrakk>P s; good t\<rbrakk> \<Longrightarrow> P (snd (AddTelemetry ops s t))"
  "P s \<Longrightarrow> P (snd (DeleteRefreshToken uops s h))"
  "P s \<Longrightarrow> P (snd (DeleteUserRefreshTokens uops p s i))"
  using keeps_status keeps_telemetry keeps_drop_token keeps_drop_tokens by (metis prod.collapse)+

lemma issue_keeps:
  assumes "as_users a = uops" and "issueTokens lib env a u s = (r, s')" "P s"
  shows "P s'"
  using assms(2,3)
  by (auto simp: issueTokens_def assms(1) dest: keeps_put_token split: sum.splits prod.splits option.splits)

lemma login_keeps:
  assumes "as_users a = uops" and "auth_Login lib env a n pw s = (r, s')" "P s"
  shows "P s'"
  using assms(2,3) by (auto simp: auth_Login_def dest: issue_keeps [OF assms(1)] split: sum.splits)

lemma refresh_keeps:
  assumes "as_users a = uops" and "auth_Refresh lib env a t s = (r, s')" "P s"
  shows "P s'"
  using assms(2,3)
  by (auto simp: auth_Refresh_def refresh_rotate_def Let_def assms(1) keeps_snd
      dest!: issue_keeps [OF assms(1)] split: sum.splits)

lemma logout_keeps:
  assumes "as_users a = uops" and "auth_Logout a t s = (e, s')" "P s"
  shows "P s'"
  using assms(2,3) by (auto simp: auth_Logout_def assms(1) dest: keeps_drop_token)

lemma create_user_keeps:
  assumes "as_users a = uops" and "auth_CreateUser lib env a n pw roles s = (r, s')" "P s"
  shows "P s'"
  using assms(2,3)
  by (auto simp: auth_CreateUser_def Let_def assms(1) dest: keeps_create_user
      split: if_splits sum.splits prod.splits option.splits)

lemma ensure_user_keeps:
  assumes "as_users a = uops" and "auth_EnsureUser lib env a n pw roles s = (r, s')" "P s"
  shows "P s'"
  using assms(2,3)
  by (auto simp: auth_EnsureUser_def dest: create_user_keeps [OF assms(1)]
      split: if_splits sum.splits prod.splits)

lemma delete_user_keeps:
  assumes "as_users a = uops" and "auth_DeleteUser env a i s = (e, s')" "P s"
  shows "P s'"
  using assms(2,3) by (auto simp: auth_DeleteUser_def assms(1) dest: keeps_delete_user)

lemma update_user_keeps:
  assumes "as_users a = uops" and "auth_UpdateUser lib env a i roles pw s = (r, s')" "P s"
  shows "P s'"
proof (cases "GetUserByID uops s i")
  case (Inr v)
  have step: "P s1" if "UpdateUser uops s u = (e, s1)" "usr_ID u = usr_ID v" "usr_Username u = usr_Username v"
      "usr_CreatedAt u = usr_CreatedAt v"
    for u e s1 using keeps_update_user [OF assms(3) Inr that(2,3,4,1)] .
  show ?thesis
    using assms(2,3) Inr
    by (auto simp: auth_UpdateUser_def Let_def assms(1)
        intro!: keeps_snd dest!: step split: if_splits sum.splits prod.splits option.splits)
qed (use assms in \<open>simp add: auth_UpdateUser_def\<close>)

end

section \<open>The service and the handlers over such a store\<close>

text \<open>The engine raises only admissible alerts on admissible samples.\<close>

definition fair_engine :: "(Telemetry \<Rightarrow> bool) \<Rightarrow> (Alert \<Rightarrow> bool) \<Rightarrow> Engine \<Rightarrow> bool" where
  "fair_engine good fair e \<longleftrightarrow> (\<forall>isPrint ids clock t. good t \<longrightarrow>
     (\<forall>a \<in> set (Evaluate isPrint ids clock e t). fair a))"

text \<open>A pool that runs from a new one of the given size, all of whose jobs are admissible.\<close>

definition pool_ok :: "int \<Rightarrow> int \<Rightarrow> (Telemetry \<Rightarrow> bool) \<Rightarrow> Telemetry Pool \<Rightarrow> bool" where
  "pool_ok workers queueSize good p \<longleftrightarrow> (\<exists>tr. pool_run (NewPool workers queueSize) tr p)
     \<and> (\<forall>t \<in> set (queued p). good t) \<and> (\<forall>t. Busy t \<in> set (pool_threads p) \<longrightarrow> good t)"

text \<open>The one reason for which a request may have to wait.\<close>

definition jammed :: "('s, 'c, 'b) server \<Rightarrow> bool" where
  "jammed st \<longleftrightarrow> \<not> pool_cancelled (sv_pool st)
     \<and> ch_cap (pool_queue (sv_pool st)) \<le> length (queued (sv_pool st))"

lemma pool_ok_run: "\<lbrakk>pool_ok w q good p; pool_step p ev p'\<rbrakk> \<Longrightarrow> \<exists>tr. pool_run (NewPool w q) tr p'"
  unfolding pool_ok_def using pool_run.snoc by blast

lemma pool_ok_new: "pool_ok w q good (Start (NewPool w q))"
  using start_pool(1) [of w q]
  by (auto simp: pool_ok_def Start_def NewPool_def make_chan_def Let_def)

lemma pool_ok_submit:
  assumes "pool_ok w q good p" "good t" "Submit pick p t = Some (ok, p')"
  shows "pool_ok w q good p'"
  using pool_ok_run [OF assms(1) pool_step.submit [OF assms(3)]] assms
  by (auto simp: pool_ok_def Submit_def enq_def split: if_splits)

lemma pool_ok_select:
  assumes "pool_ok w q good p" "i < length (pool_threads p)" "pool_threads p ! i = Idle"
    and "worker_select pick i p = Some (job, p')"
  shows "pool_ok w q good p'"
proof -
  obtain tr where run: "pool_run (NewPool w q) tr p" using assms(1) by (auto simp: pool_ok_def)
  have "\<exists>ev. worker_step p ev p'"
    using assms(4) worker_step.take_job [OF assms(2,3)] worker_step.leave [OF assms(2,3)] by (cases job) blast+
  then have "\<exists>tr. pool_run (NewPool w q) tr p'" using pool_ok_run [OF assms(1)] pool_step.work by blast
  then show ?thesis
    using worker_select_cases [OF assms(4) run_queue_open [OF run]] assms(1)
    by (auto simp: pool_ok_def dest!: set_update_subset_insert [THEN subsetD])
qed

lemma pool_ok_finish:
  assumes "pool_ok w q good p" "i < length (pool_threads p)" "pool_threads p ! i = Busy t"
  shows "pool_ok w q good (worker_finish i p)"
  using pool_ok_run [OF assms(1) pool_step.work [OF worker_step.finish [OF assms(2,3)]]] assms(1)
  by (auto simp: pool_ok_def worker_finish_def dest!: set_update_subset_insert [THEN subsetD])

lemma pool_ok_stop: "pool_ok w q good p \<Longrightarrow> pool_ok w q good (stop_cancel p)"
  using pool_ok_run [OF _ pool_step.cancel, of w q good p] by (simp add: pool_ok_def) (simp add: stop_cancel_def)

lemma submit_waits: "Submit pick (sv_pool st) t = None \<longleftrightarrow> jammed st"
  by (auto simp: Submit_def jammed_def can_send_def)

locale live_service =
  stored_data "svc_store svc" uops P good fair + publisher_contract "svc_publisher svc" "\<lambda>x. hub_wf (fst x)"
  for svc :: "('s, 'c, 'b) Service" and uops :: "'s UserStore" and P :: "'s \<Rightarrow> bool"
    and good :: "Telemetry \<Rightarrow> bool" and fair :: "Alert \<Rightarrow> bool" +
  fixes workers queueSize :: int
begin

definition w_ok :: "('s, 'c, 'b) world \<Rightarrow> bool" where
  "w_ok w \<longleftrightarrow> P (w_store w) \<and> hub_wf (w_hub w) \<and> fair_engine good fair (w_engine w)"

definition sv_ok :: "('s, 'c, 'b) server \<Rightarrow> bool" where
  "sv_ok st \<longleftrightarrow> w_ok (sv_world st) \<and> pool_ok workers queueSize good (sv_pool st)"

lemma w_ok_store [intro]: "\<lbrakk>w_ok w; P s\<rbrakk> \<Longrightarrow> w_ok (w\<lparr>w_store := s\<rparr>)"
  by (simp add: w_ok_def)

lemma w_ok_hub [intro]: "\<lbrakk>w_ok w; hub_wf h\<rbrakk> \<Longrightarrow> w_ok (w\<lparr>w_hub := h\<rparr>)"
  by (simp add: w_ok_def)

lemma w_ok_cache [simp]: "w_ok (cacheStatus svc now i st seen w) = w_ok w"
  by (simp add: w_ok_def cacheStatus_def split: option.splits)

lemma publish_ok:
  assumes "w_ok w"
  obtains w' where "publish svc p e w = Some w'" "w_ok w'" "w_store w' = w_store w"
proof -
  have "hub_wf (fst (outlets w))" using assms by (simp add: w_ok_def outlets_def)
  then obtain h b where "Pub (svc_publisher svc) p e (outlets w) = Some (h, b)" "hub_wf h"
    using pub_total [of "outlets w" p e] by auto
  with assms that [of "w\<lparr>w_hub := h, w_bus := b\<rparr>"] show ?thesis by (simp add: publish_eq w_ok_def)
qed

lemma alert_loop_ok:
  assumes "w_ok w" "\<forall>a \<in> set as. fair a"
  shows "\<exists>w'. alert_loop svc env i as w = Some w' \<and> w_ok w'"
  using assms
proof (induction as arbitrary: i w)
  case (Cons a as)
  obtain e s where add: "AddAlert (svc_store svc) (w_store w) a = (e, s)" by force
  have "P s" using keeps_alert [OF _ _ add] Cons.prems by (simp add: w_ok_def)
  then have w: "w_ok (w\<lparr>w_store := s\<rparr>)" using Cons.prems(1) by blast
  obtain w' where "publish svc (env_sched env i) (alert_event a) (w\<lparr>w_store := s\<rparr>) = Some w'" "w_ok w'"
    by (rule publish_ok [OF w])
  with Cons.IH [OF w, of "Suc i"] Cons.IH [of w' "Suc i"] Cons.prems(2) add show ?case
    by (cases e) auto
qed simp

lemma telemetry_stage_ok:
  assumes "w_ok w" "good t"
  shows "\<exists>raise w'. telemetry_stage svc env t w = Some (raise, w') \<and> w_ok w'"
proof -
  obtain e s where add: "AddTelemetry (svc_store svc) (w_store w) t = (e, s)" by force
  have s: "P s" using keeps_telemetry [OF _ assms(2) add] assms(1) by (simp add: w_ok_def)
  let ?s = "snd (UpdateDeviceStatus (svc_store svc) s (tel_DeviceID t) StatusOnline (tel_Timestamp t))"
  let ?w = "cacheStatus svc (env_now env 0) (tel_DeviceID t) StatusOnline (tel_Timestamp t) (w\<lparr>w_store := ?s\<rparr>)"
  have "w_ok ?w" using assms(1) keeps_snd(1) [OF s] by auto
  then obtain w' where "publish svc (env_sched env 0) (telemetry_event t) ?w = Some w'" "w_ok w'"
    by (rule publish_ok)
  with add s assms(1) show ?thesis by (cases e) (auto simp: telemetry_stage_def)
qed

lemma process_ok:
  assumes "w_ok w" "good t"
  shows "\<exists>w'. svc_processTelemetry svc env t w = Some w' \<and> w_ok w'"
proof -
  obtain raise w1 where w1: "telemetry_stage svc env t w = Some (raise, w1)" "w_ok w1"
    using telemetry_stage_ok [OF assms] by blast
  then have "\<exists>w'. alert_stage svc env t w1 = Some w' \<and> w_ok w'"
    unfolding alert_stage_def using assms(2) by (intro alert_loop_ok) (auto simp: w_ok_def fair_engine_def)
  then show ?thesis using w1 by (simp add: processTelemetry_stages)
qed

lemma reconcile_loop_ok:
  "w_ok w \<Longrightarrow> \<exists>w'. reconcile_loop svc env now i ds w = Some w' \<and> w_ok w'"
proof (induction ds arbitrary: i w)
  case (Cons d ds)
  obtain e s where upd: "UpdateDeviceStatus (svc_store svc) (w_store w) (dev_ID d) StatusOffline 0 = (e, s)"
    by force
  have w: "w_ok (w\<lparr>w_store := s\<rparr>)" using keeps_status [OF _ upd] Cons.prems by (auto simp: w_ok_def)
  then have "w_ok (cacheStatus svc (env_now env (Suc i)) (dev_ID d) StatusOffline 0 (w\<lparr>w_store := s\<rparr>))" by simp
  then obtain w' where "publish svc (env_sched env i) (offline_event now (dev_ID d))
      (cacheStatus svc (env_now env (Suc i)) (dev_ID d) StatusOffline 0 (w\<lparr>w_store := s\<rparr>)) = Some w'" "w_ok w'"
    by (rule publish_ok)
  with Cons.IH [OF Cons.prems, of "Suc i"] Cons.IH [OF w, of "Suc i"] Cons.IH [of w' "Suc i"] upd show ?case
    by (cases e) auto
qed simp

lemma register_ok:
  assumes "w_ok w"
  shows "\<exists>r w'. svc_RegisterDevice svc env req w = Some (r, w') \<and> w_ok w'"
proof -
  let ?d = "\<lparr>dev_ID = env_id env 0, dev_Name = reg_Name req, dev_Type = reg_Type req,
    dev_Location = reg_Location req, dev_Metadata = reg_Metadata req, dev_Status = StatusUnknown,
    dev_RegisteredAt = env_now env 0, dev_LastSeenAt = 0\<rparr>"
  obtain e s where crt: "CreateDevice (svc_store svc) (w_store w) ?d = (e, s)" by force
  let ?w = "cacheStatus svc (env_now env 1) (dev_ID ?d) (dev_Status ?d) 0 (w\<lparr>w_store := s\<rparr>)"
  have w: "w_ok (w\<lparr>w_store := s\<rparr>)" using keeps_create [OF _ crt] assms by (auto simp: w_ok_def)
  then have "w_ok ?w" by simp
  then obtain w' where "publish svc (env_sched env 0) \<lparr>ev_Type = ''device'', ev_DeviceID = dev_ID ?d,
      ev_Payload = PDevice ?d, ev_Timestamp = env_now env 0\<rparr> ?w = Some w'" "w_ok w'"
    by (rule publish_ok)
  then show ?thesis
    using crt w by (cases e) (simp_all add: svc_RegisterDevice_def Let_def)
qed

lemma update_ok:
  assumes "w_ok w"
  shows "\<exists>r w'. svc_UpdateDevice svc env i req w = Some (r, w') \<and> w_ok w'"
proof -
  obtain e s where upd: "UpdateDevice (svc_store svc) (w_store w) i (upd_Name req) (upd_Type req)
      (upd_Location req) (upd_Metadata req) = (e, s)" by force
  have w: "w_ok (w\<lparr>w_store := s\<rparr>)" using keeps_update [OF _ upd] assms by (auto simp: w_ok_def)
  have "\<exists>w'. publish svc p ev (w\<lparr>w_store := s\<rparr>) = Some w' \<and> w_ok w'" for p ev
    by (rule publish_ok [OF w]) blast
  then show ?thesis
    using upd w by (cases e; cases "svc_GetDevice svc env i (w\<lparr>w_store := s\<rparr>)")
      (fastforce simp: svc_UpdateDevice_def Let_def)+
qed

lemma delete_ok: "\<lbrakk>w_ok w; svc_DeleteDevice svc i w = (e, w')\<rbrakk> \<Longrightarrow> w_ok w'"
  using keeps_delete by (auto simp: svc_DeleteDevice_def w_ok_def split: prod.splits)

lemma subscribe_ok: "\<lbrakk>w_ok w; svc_Subscribe w = (ch, w')\<rbrakk> \<Longrightarrow> w_ok w'"
  using Subscribe_wf [of "w_hub w"] by (auto simp: svc_Subscribe_def w_ok_def split: prod.splits)

lemma unsubscribe_ok: "w_ok w \<Longrightarrow> \<exists>w'. svc_Unsubscribe ch w = Some w' \<and> w_ok w'"
  using Unsubscribe_wf [of "w_hub w" ch] by (auto simp: svc_Unsubscribe_def w_ok_def)

lemma receive_ok: "\<lbrakk>w_ok w; receive ch (w_hub w) = Some (r, h)\<rbrakk> \<Longrightarrow> w_ok (w\<lparr>w_hub := h\<rparr>)"
  using receive_wf [of "w_hub w" ch r h] by (auto simp: w_ok_def)

lemma broadcast_ok: "w_ok w \<Longrightarrow> \<exists>h. Broadcast p (w_hub w) e = Some h \<and> w_ok (w\<lparr>w_hub := h\<rparr>)"
  using Broadcast_ok [of "w_hub w" p e] by (auto simp: w_ok_def)

lemma ws_loop_ok: "w_ok w \<Longrightarrow> \<exists>sent' w'. ws_loop ch turns sent w = Some (sent', w') \<and> w_ok w'"
proof (induction ch turns sent w rule: ws_loop.induct)
  case (3 ch ok turns sent w)
  show ?case
  proof (cases "receive ch (w_hub w)")
    case (Some rh)
    obtain r h where [simp]: "rh = (r, h)" by force
    have w: "w_ok (w\<lparr>w_hub := h\<rparr>)" using receive_ok "3.prems" Some by auto
    show ?thesis
      using Some 3 w unsubscribe_ok [OF w, of ch] by (cases r; cases ok) auto
  qed (use 3 in simp)
next
  case (4 ch p e turns sent w)
  then show ?case using broadcast_ok [OF "4.prems", of p e] by auto
qed (use unsubscribe_ok in fastforce)+

text \<open>
  A handler keeps the state in order whatever it answers, and waits only for room in the queue.
\<close>

definition answers :: "(response \<times> ('s, 'c, 'b) server) option \<Rightarrow> ('s, 'c, 'b) server \<Rightarrow> bool" where
  "answers res st \<longleftrightarrow> (case res of None \<Rightarrow> jammed st | Some (resp, st') \<Rightarrow> sv_ok st')"

definition serves :: "('s, 'c, 'b) handler \<Rightarrow> bool" where
  "serves f \<longleftrightarrow> (\<forall>r st. sv_ok st \<longrightarrow> answers (f r st) st)"

lemma answers_Some [simp]: "answers (Some (resp, st')) st = sv_ok st'"
  by (simp add: answers_def)

lemma servesI: "(\<And>r st. sv_ok st \<Longrightarrow> answers (f r st) st) \<Longrightarrow> serves f"
  by (simp add: serves_def)

lemma servesD: "\<lbrakk>serves f; sv_ok st\<rbrakk> \<Longrightarrow> answers (f r st) st"
  by (simp add: serves_def)

lemma answers_map: "answers res st \<Longrightarrow> answers (map_option (\<lambda>(resp, st'). (g resp, st')) res) st"
  by (cases res) (auto simp: answers_def)

lemma serves_guard: "serves f \<Longrightarrow> serves (h_admin h f)"
  by (auto simp: h_admin_def RequireRole_def intro!: servesI dest: servesD split: option.splits)

lemma serves_middleware: "serves f \<Longrightarrow> serves (mw_Middleware lib now m f)"
  by (auto simp: mw_Middleware_def intro!: servesI dest: servesD split: sum.splits)

lemma serves_content_type: "serves f \<Longrightarrow> serves (jsonContentType f)"
  unfolding jsonContentType_def by (intro servesI) (drule (1) servesD, erule answers_map)

lemma sv_ok_world: "\<lbrakk>sv_ok st; w_ok w\<rbrakk> \<Longrightarrow> sv_ok (st\<lparr>sv_world := w\<rparr>)"
  by (simp add: sv_ok_def)

lemma sv_ok_store: "\<lbrakk>sv_ok st; P s\<rbrakk> \<Longrightarrow> sv_ok (set_store st s)"
  by (auto simp: sv_ok_def set_store_def)

lemma sv_okD [dest]: "sv_ok st \<Longrightarrow> w_ok (sv_world st)" "sv_ok st \<Longrightarrow> P (the_store st)"
  by (simp_all add: sv_ok_def w_ok_def)

definition handler_ok :: "('s, 'c, 'b) Handler \<Rightarrow> bool" where
  "handler_ok h \<longleftrightarrow> h_svc h = svc \<and> (\<forall>a. h_authSvc h = Some a \<longrightarrow> as_users a = uops)"

lemma reading_serves:
  "serves h_health" "serves (h_listDevices env h)" "serves (h_getDevice env h)" "serves (h_getTelemetry env h)"
  "serves (h_getAnalytics env h)" "serves (h_listAlerts env h)" "serves (h_listUsers env h)" "serves (h_getUser h)"
  by (auto simp: h_health_def h_listDevices_def h_getDevice_def h_getTelemetry_def h_getAnalytics_def
      h_listAlerts_def h_listUsers_def h_getUser_def Let_def intro!: servesI split: option.splits sum.splits)

lemma session_serves:
  assumes "handler_ok h"
  shows "serves (h_login lib env h)" "serves (h_refresh lib env h)" "serves (h_logout h)"
proof -
  have us: "as_users a = uops" if "h_authSvc h = Some a" for a using assms that by (simp add: handler_ok_def)
  have "P s'" if "auth_Login lib (ap_auth env) a n pw (the_store st) = (r, s')" "h_authSvc h = Some a" "sv_ok st"
    for a n pw st r s' using login_keeps [OF us [OF that(2)] that(1)] that(3) by blast
  then show "serves (h_login lib env h)"
    by (auto simp: h_login_def intro!: servesI sv_ok_store split: option.splits prod.splits sum.splits)
  have "P s'" if "auth_Refresh lib (ap_auth env) a t (the_store st) = (r, s')" "h_authSvc h = Some a" "sv_ok st"
    for a t st r s' using refresh_keeps [OF us [OF that(2)] that(1)] that(3) by blast
  then show "serves (h_refresh lib env h)"
    by (auto simp: h_refresh_def intro!: servesI sv_ok_store split: option.splits prod.splits sum.splits)
  have "P s'" if "auth_Logout a t (the_store st) = (r, s')" "h_authSvc h = Some a" "sv_ok st"
    for a t st r s' using logout_keeps [OF us [OF that(2)] that(1)] that(3) by blast
  then show "serves (h_logout h)"
    by (auto simp: h_logout_def intro!: servesI sv_ok_store split: option.splits prod.splits)
qed

lemma account_serves:
  assumes "handler_ok h"
  shows "serves (h_createUser lib env h)" "serves (h_updateUser lib env h)" "serves (h_deleteUser env h)"
proof -
  have us: "as_users a = uops" if "h_authSvc h = Some a" for a using assms that by (simp add: handler_ok_def)
  have "P s'" if "auth_CreateUser lib (ap_auth env) a n pw roles (the_store st) = (r, s')"
      "h_authSvc h = Some a" "sv_ok st"
    for a n pw roles st r s' using create_user_keeps [OF us [OF that(2)] that(1)] that(3) by blast
  then show "serves (h_createUser lib env h)"
    by (auto simp: h_createUser_def intro!: servesI sv_ok_store
        split: option.splits prod.splits sum.splits if_splits)
  have "P s'" if "auth_UpdateUser lib (ap_auth env) a i roles pw (the_store st) = (r, s')"
      "h_authSvc h = Some a" "sv_ok st"
    for a i pw roles st r s' using update_user_keeps [OF us [OF that(2)] that(1)] that(3) by blast
  then show "serves (h_updateUser lib env h)"
    by (auto simp: h_updateUser_def intro!: servesI sv_ok_store
        split: option.splits prod.splits sum.splits if_splits)
  have "P s'" if "auth_DeleteUser (ap_auth env) a i (the_store st) = (r, s')" "h_authSvc h = Some a" "sv_ok st"
    for a i st r s' using delete_user_keeps [OF us [OF that(2)] that(1)] that(3) by blast
  then show "serves (h_deleteUser env h)"
    by (auto simp: h_deleteUser_def intro!: servesI sv_ok_store split: option.splits prod.splits)
qed

lemma device_serves:
  assumes "handler_ok h"
  shows "serves (h_registerDevice env h)" "serves (h_updateDevice env h)" "serves (h_deleteDevice h)"
proof -
  have svc: "h_svc h = svc" using assms by (simp add: handler_ok_def)
  show "serves (h_registerDevice env h)"
  proof (rule servesI)
    show "answers (h_registerDevice env h r st) st" if ok: "sv_ok st" for r st
    proof (cases "dec_device (rq_Body r)")
      case (Some req)
      obtain res w where "svc_RegisterDevice svc (ap_env env) req (sv_world st) = Some (res, w)" "w_ok w"
        using register_ok [OF sv_okD(1) [OF ok]] by blast
      with Some ok show ?thesis by (simp add: h_registerDevice_def svc sv_ok_world split: sum.splits)
    qed (use ok in \<open>simp add: h_registerDevice_def\<close>)
  qed
  show "serves (h_updateDevice env h)"
  proof (rule servesI)
    show "answers (h_updateDevice env h r st) st" if ok: "sv_ok st" for r st
    proof (cases "dec_update_device (rq_Body r)")
      case (Some req)
      obtain res w where "svc_UpdateDevice svc (ap_env env) (rq_id r) req (sv_world st) = Some (res, w)" "w_ok w"
        using update_ok [OF sv_okD(1) [OF ok]] by blast
      with Some ok show ?thesis by (simp add: h_updateDevice_def svc sv_ok_world split: sum.splits)
    qed (use ok in \<open>simp add: h_updateDevice_def\<close>)
  qed
  show "serves (h_deleteDevice h)"
  proof (rule servesI)
    show "answers (h_deleteDevice h r st) st" if ok: "sv_ok st" for r st
    proof -
      obtain e w where "svc_DeleteDevice svc (rq_id r) (sv_world st) = (e, w)" by force
      with delete_ok [OF sv_okD(1) [OF ok] this] ok show ?thesis
        by (simp add: h_deleteDevice_def svc sv_ok_world split: option.splits)
    qed
  qed
qed

lemma ingest_serves: "serves (h_ingestTelemetry env h)"
proof (rule servesI)
  show "answers (h_ingestTelemetry env h r st) st" if ok: "sv_ok st" for r st
  proof (cases "\<exists>d b. svc_GetDevice (h_svc h) (ap_env env) (rq_id r) (sv_world st) = Inr d
      \<and> dec_telemetry (rq_Body r) = Some b \<and> len_map (tb_Metrics b) \<noteq> 0")
    case True
    then obtain d b where known: "svc_GetDevice (h_svc h) (ap_env env) (rq_id r) (sv_world st) = Inr d"
      and body: "dec_telemetry (rq_Body r) = Some b" "len_map (tb_Metrics b) \<noteq> 0" by blast
    have good: "good (ingested env r b)"
      using dec_telemetry_finite [OF body(1)] by (intro good_samples) (simp add: ingested_def)
    show ?thesis
    proof (cases "Submit (env_pick (ap_env env)) (sv_pool st) (ingested env r b)")
      case None
      then have "jammed st" by (simp only: submit_waits)
      then show ?thesis unfolding ingest_eq [OF known body] None by (simp add: answers_def)
    next
      case (Some res)
      obtain accepted p where [simp]: "res = (accepted, p)" by force
      have "pool_ok workers queueSize good (sv_pool st)" using ok by (simp add: sv_ok_def)
      from pool_ok_submit [OF this good Some [unfolded \<open>res = (accepted, p)\<close>]]
      have "pool_ok workers queueSize good p" .
      with ok Some show ?thesis unfolding ingest_eq [OF known body] by (simp add: sv_ok_def)
    qed
  next
    case False
    then show ?thesis
      using ok by (auto simp: h_ingestTelemetry_def split: sum.splits option.splits)
  qed
qed

lemma websocket_serves: "serves (h_websocket env)"
proof (rule servesI)
  show "answers (h_websocket env r st) st" if ok: "sv_ok st" for r st
  proof (cases "ap_ws env")
    case (Inr turns)
    obtain ch w where sub: "svc_Subscribe (sv_world st) = (ch, w)" by force
    then obtain sent w' where "ws_loop ch turns [] w = Some (sent, w')" "w_ok w'"
      using ws_loop_ok [OF subscribe_ok [OF sv_okD(1) [OF ok]]] by blast
    with Inr ok sub show ?thesis by (simp add: h_websocket_def sv_ok_world)
  qed (use ok in \<open>simp add: h_websocket_def\<close>)
qed

lemma route_serves: "handler_ok h \<Longrightarrow> serves (run_route lib env h route)"
  by (cases route)
    (simp_all add: run_route_def reading_serves session_serves account_serves device_serves
      ingest_serves websocket_serves serves_guard)

lemma serve_answers:
  assumes "handler_ok h" "sv_ok st"
  shows "answers (serve lib mux env h r st) st"
proof (cases "mux route_table (rq_Method r) (rq_Path r)")
  case (Matched route i)
  have "serves (jsonContentType (case h_auth h of None \<Rightarrow> run_route lib env h route
      | Some m \<Rightarrow> mw_Middleware lib (ap_now env) m (run_route lib env h route)))"
    by (cases "h_auth h") (simp_all add: serves_content_type serves_middleware route_serves [OF assms(1)])
  from servesD [OF this assms(2)] Matched show ?thesis by (simp add: serve_def)
qed (use assms(2) in \<open>simp add: serve_def\<close>)

end

section \<open>The in-memory store keeps finite, bounded data\<close>

definition finite_alert :: "Alert \<Rightarrow> bool" where
  "finite_alert a \<longleftrightarrow> encodable_float (al_Value a) \<and> encodable_float (al_Threshold a)"

definition readings_ok :: "MemoryStore \<Rightarrow> bool" where
  "readings_ok s \<longleftrightarrow>
     (\<forall>k. \<forall>t \<in> set (series_of (ms_telemetry s) k). finite_metrics (tel_Metrics t))
   \<and> (\<forall>k. \<forall>a \<in> set (series_of (ms_alerts s) k). finite_alert a)"

definition data_ok :: "int \<Rightarrow> MemoryStore \<Rightarrow> bool" where
  "data_ok n s \<longleftrightarrow> mem_wf s \<and> ms_maxHistory s = n \<and> readings_ok s"

lemma encodable_finite: "encodable_float x \<longleftrightarrow> x = NZero \<or> (\<exists>q. x = Fin q)"
  by (cases x) (auto simp: encodable_float_def)

lemma finite_metrics_encodable: "finite_metrics m \<longleftrightarrow> fmpred (\<lambda>_. encodable_float) m"
  by (simp add: finite_metrics_def fmpred_iff encodable_finite)

lemma series_of_update [simp]:
  "series_of (fmupd k xs m) j = (if j = k then xs else series_of m j)"
  "series_of (fmdrop k m) j = (if j = k then [] else series_of m j)"
  by (simp_all add: series_of_def)

lemma readings_frame:
  "\<lbrakk>ms_telemetry s' = ms_telemetry s; ms_alerts s' = ms_alerts s\<rbrakk> \<Longrightarrow> readings_ok s' = readings_ok s"
  by (simp add: readings_ok_def)

lemma data_ok_frame:
  "\<lbrakk>data_ok n s; mem_wf s'; ms_maxHistory s' = ms_maxHistory s; ms_telemetry s' = ms_telemetry s;
    ms_alerts s' = ms_alerts s\<rbrakk> \<Longrightarrow> data_ok n s'"
  by (simp add: data_ok_def readings_ok_def)

lemma data_ok_wf: "data_ok n s \<Longrightarrow> mem_wf s"
  by (simp add: data_ok_def)

lemma data_CreateDevice: "\<lbrakk>data_ok n s; mem_CreateDevice s d = (e, s')\<rbrakk> \<Longrightarrow> data_ok n s'"
  using wf_CreateDevice [OF data_ok_wf, of n s d e s']
  by (auto simp: data_ok_def readings_ok_def mem_CreateDevice_def split: option.splits)

lemma data_UpdateDevice: "\<lbrakk>data_ok n s; mem_UpdateDevice s i a ty l m = (e, s')\<rbrakk> \<Longrightarrow> data_ok n s'"
  using wf_UpdateDevice [OF data_ok_wf, of n s i a ty l m e s']
  by (auto simp: data_ok_def readings_ok_def mem_UpdateDevice_def split: option.splits)

lemma data_UpdateDeviceStatus: "\<lbrakk>data_ok n s; mem_UpdateDeviceStatus s i st seen = (e, s')\<rbrakk> \<Longrightarrow> data_ok n s'"
  using wf_UpdateDeviceStatus [OF data_ok_wf, of n s i st seen e s']
  by (auto simp: data_ok_def readings_ok_def mem_UpdateDeviceStatus_def Let_def split: option.splits if_splits)

lemma data_DeleteDevice: "\<lbrakk>data_ok n s; mem_DeleteDevice s i = (e, s')\<rbrakk> \<Longrightarrow> data_ok n s'"
  using wf_DeleteDevice [OF data_ok_wf, of n s i e s']
  by (auto simp: data_ok_def readings_ok_def mem_DeleteDevice_def split: option.splits if_splits)

lemma data_AddTelemetry:
  "\<lbrakk>data_ok n s; finite_metrics (tel_Metrics t); mem_AddTelemetry s t = (e, s')\<rbrakk> \<Longrightarrow> data_ok n s'"
  using wf_AddTelemetry [OF data_ok_wf, of n s t e s']
  by (auto simp: data_ok_def readings_ok_def mem_AddTelemetry_capped split: if_splits option.splits
      dest!: set_capped [THEN subsetD])

lemma data_AddAlert: "\<lbrakk>data_ok n s; finite_alert a; mem_AddAlert s a = (e, s')\<rbrakk> \<Longrightarrow> data_ok n s'"
  using wf_AddAlert [OF data_ok_wf, of n s a e s']
  by (auto simp: data_ok_def readings_ok_def mem_AddAlert_def split: if_splits)

lemma data_CreateUser: "\<lbrakk>data_ok n s; mem_CreateUser p s u = (e, s')\<rbrakk> \<Longrightarrow> data_ok n s'"
  using wf_CreateUser [OF data_ok_wf, of n s p u e s']
  by (auto simp: data_ok_def readings_ok_def mem_CreateUser_def split: option.splits)

lemma data_UpdateUser:
  assumes "data_ok n s" "mem_GetUserByID s i = Inr v" "usr_ID u = usr_ID v" "usr_Username u = usr_Username v"
    and "mem_UpdateUser s u = (e, s')"
  shows "data_ok n s'"
proof (rule data_ok_frame [OF assms(1)])
  have "fmlookup (ms_users s) i = Some v" using assms(2) by (simp add: mem_GetUserByID_def split: option.splits)
  with mem_usr.usr_keyed [OF data_ok_wf [OF assms(1)] this] assms(3,4)
  show "mem_wf s'" by (intro wf_UpdateUser [OF data_ok_wf [OF assms(1)] assms(5)]) simp
qed (use assms(5) in \<open>auto simp: mem_UpdateUser_def split: option.splits\<close>)

lemma data_DeleteUser: "\<lbrakk>data_ok n s; mem_DeleteUser p s i = (e, s')\<rbrakk> \<Longrightarrow> data_ok n s'"
  using wf_DeleteUser [OF data_ok_wf, of n s p i e s']
  by (auto simp: data_ok_def readings_ok_def mem_DeleteUser_def split: option.splits)

lemma data_tokens:
  "\<lbrakk>data_ok n s; mem_StoreRefreshToken s r = (e, s')\<rbrakk> \<Longrightarrow> data_ok n s'"
  "\<lbrakk>data_ok n s; mem_DeleteRefreshToken s h = (e, s')\<rbrakk> \<Longrightarrow> data_ok n s'"
  "\<lbrakk>data_ok n s; mem_DeleteUserRefreshTokens p s i = (e, s')\<rbrakk> \<Longrightarrow> data_ok n s'"
  using wf_StoreRefreshToken [OF data_ok_wf, of n s r e s'] wf_DeleteRefreshToken [OF data_ok_wf, of n s h e s']
    wf_DeleteUserRefreshTokens [OF data_ok_wf, of n s p i e s']
  by (auto simp: data_ok_def readings_ok_def mem_StoreRefreshToken_def mem_DeleteRefreshToken_def
      mem_DeleteUserRefreshTokens_def)

lemma data_new: "data_ok n (NewMemoryStore n)"
  using NewMemoryStore_wf [of n] by (simp add: data_ok_def readings_ok_def NewMemoryStore_def series_of_def)

interpretation mem_data: stored_data mem_store mem_user_store "data_ok n"
  "\<lambda>t. finite_metrics (tel_Metrics t)" finite_alert for n
proof unfold_locales
  show "data_ok n s'" if "data_ok n s" "GetUserByID mem_user_store s i = Inr v" "usr_ID u = usr_ID v"
      "usr_Username u = usr_Username v" "usr_CreatedAt u = usr_CreatedAt v"
      "UpdateUser mem_user_store s u = (e, s')" for s i v u e s'
    using that data_UpdateUser by (simp add: mem_user_store_def)
qed (simp add: mem_store_def mem_user_store_def; blast intro: data_CreateDevice data_UpdateDevice
      data_UpdateDeviceStatus data_DeleteDevice data_AddTelemetry data_AddAlert data_CreateUser
      data_DeleteUser data_tokens)+

end
