(* ===== verification/System.thy ===== *)
theory System
  imports Running
begin

text \<open>
  The running server as one state machine. Its steps are what the goroutines started by
  \<open>main\<close> do between two calls on shared objects: requests of the HTTP server, the life of WebSocket
  subscriptions, messages of the MQTT broker, workers taking, processing and finishing samples,
  the sweeps of the reconciler, events from the bus, and the cancel of the pool. A worker is
  interrupted between the stages of \<open>processTelemetry\<close> and between two alerts, a sweep between
  two devices. Every reachable state satisfies the invariants of all components, and none of
  its steps panics.
\<close>

section \<open>The steps\<close>

text \<open>
  Beside the shared state: for each worker the alerts it still has to store, with the environment
  of its call and the number of the next one, and the devices a sweep has still to look at.
\<close>

record ('s, 'c, 'b) node =
  nd_server :: "('s, 'c, 'b) server"
  nd_alerting :: "nat \<Rightarrow> (env \<times> nat \<times> Alert list) option"
  nd_sweep :: "(env \<times> time \<times> nat \<times> Device list) option"

abbreviation nd_world :: "('s, 'c, 'b) node \<Rightarrow> ('s, 'c, 'b) world" where
  "nd_world n \<equiv> sv_world (nd_server n)"

abbreviation nd_pool :: "('s, 'c, 'b) node \<Rightarrow> Telemetry Pool" where
  "nd_pool n \<equiv> sv_pool (nd_server n)"

definition set_world :: "('s, 'c, 'b) world \<Rightarrow> ('s, 'c, 'b) node \<Rightarrow> ('s, 'c, 'b) node" where
  "set_world w n = n\<lparr>nd_server := (nd_server n)\<lparr>sv_world := w\<rparr>\<rparr>"

definition set_pool :: "Telemetry Pool \<Rightarrow> ('s, 'c, 'b) node \<Rightarrow> ('s, 'c, 'b) node" where
  "set_pool p n = n\<lparr>nd_server := (nd_server n)\<lparr>sv_pool := p\<rparr>\<rparr>"

definition booted :: "('s, 'c, 'b) app \<Rightarrow> ('s, 'c, 'b) node" where
  "booted a = \<lparr>nd_server = app_state a, nd_alerting = (\<lambda>_. None), nd_sweep = None\<rparr>"

inductive node_step :: "lib \<Rightarrow> mux \<Rightarrow> ('s, 'c, 'b) Handler \<Rightarrow> Bridge option
    \<Rightarrow> ('s, 'c, 'b) node \<Rightarrow> ('s, 'c, 'b) node \<Rightarrow> bool" for lib mux h br where
  request: "serve lib mux env h r (nd_server n) = Some (resp, st)
    \<Longrightarrow> node_step lib mux h br n (n\<lparr>nd_server := st\<rparr>)"
| ws_open: "svc_Subscribe (nd_world n) = (ch, w) \<Longrightarrow> node_step lib mux h br n (set_world w n)"
| ws_next: "receive ch (w_hub (nd_world n)) = Some (ev, hub)
    \<Longrightarrow> node_step lib mux h br n (set_world ((nd_world n)\<lparr>w_hub := hub\<rparr>) n)"
| ws_close: "svc_Unsubscribe ch (nd_world n) = Some w \<Longrightarrow> node_step lib mux h br n (set_world w n)"
| message: "\<lbrakk>br = Some b; onMessage env b topic payload (nd_pool n) = Some p\<rbrakk>
    \<Longrightarrow> node_step lib mux h br n (set_pool p n)"
| take: "\<lbrakk>i < length (pool_threads (nd_pool n)); pool_threads (nd_pool n) ! i = Idle;
    worker_select pick i (nd_pool n) = Some (job, p)\<rbrakk> \<Longrightarrow> node_step lib mux h br n (set_pool p n)"
| drop: "\<lbrakk>i < length (pool_threads (nd_pool n)); pool_threads (nd_pool n) ! i = Busy t;
    nd_alerting n i = None; telemetry_stage (h_svc h) env t (nd_world n) = Some (False, w)\<rbrakk>
    \<Longrightarrow> node_step lib mux h br n (set_pool (worker_finish i (nd_pool n)) (set_world w n))"
| store: "\<lbrakk>i < length (pool_threads (nd_pool n)); pool_threads (nd_pool n) ! i = Busy t;
    nd_alerting n i = None; telemetry_stage (h_svc h) env t (nd_world n) = Some (True, w)\<rbrakk>
    \<Longrightarrow> node_step lib mux h br n (set_world w n\<lparr>nd_alerting := (nd_alerting n)(i \<mapsto> (env, 1,
          Evaluate (env_isPrint env) (env_id env) (\<lambda>i. env_now env (Suc i)) (w_engine w) t))\<rparr>)"
| alert: "\<lbrakk>nd_alerting n i = Some (env, j, a # as);
    alert_loop (h_svc h) env j [a] (nd_world n) = Some w\<rbrakk>
    \<Longrightarrow> node_step lib mux h br n (set_world w n\<lparr>nd_alerting := (nd_alerting n)(i \<mapsto> (env, Suc j, as))\<rparr>)"
| finish: "\<lbrakk>i < length (pool_threads (nd_pool n)); pool_threads (nd_pool n) ! i = Busy t;
    nd_alerting n i = Some (env, j, [])\<rbrakk>
    \<Longrightarrow> node_step lib mux h br n (set_pool (worker_finish i (nd_pool n)) n\<lparr>nd_alerting := (nd_alerting n)(i := None)\<rparr>)"
| sweep: "nd_sweep n = None
    \<Longrightarrow> node_step lib mux h br n (n\<lparr>nd_sweep := Some (env, env_now env 0, 2,
          ListDevices (svc_store (h_svc h)) (env_sched env 0) (env_sched env 1) (w_store (nd_world n)))\<rparr>)"
| visit: "\<lbrakk>nd_sweep n = Some (env, now, i, d # ds); reconcile_loop (h_svc h) env now i [d] (nd_world n) = Some w\<rbrakk>
    \<Longrightarrow> node_step lib mux h br n (set_world w n\<lparr>nd_sweep := Some (env, now, Suc i, ds)\<rparr>)"
| swept: "nd_sweep n = Some (env, now, i, []) \<Longrightarrow> node_step lib mux h br n (n\<lparr>nd_sweep := None\<rparr>)"
| bus: "Broadcast p (w_hub (nd_world n)) e = Some hub
    \<Longrightarrow> node_step lib mux h br n (set_world ((nd_world n)\<lparr>w_hub := hub\<rparr>) n)"
| stop: "node_step lib mux h br n (set_pool (stop_cancel (nd_pool n)) n)"

inductive node_run :: "lib \<Rightarrow> mux \<Rightarrow> ('s, 'c, 'b) app \<Rightarrow> ('s, 'c, 'b) node \<Rightarrow> bool" for lib mux a where
  boot: "node_run lib mux a (booted a)"
| step: "\<lbrakk>node_run lib mux a n; node_step lib mux (app_handler a) (app_bridge a) n n'\<rbrakk> \<Longrightarrow> node_run lib mux a n'"

lemma set_simps [simp]:
  "nd_server (set_world w n) = (nd_server n)\<lparr>sv_world := w\<rparr>" "nd_alerting (set_world w n) = nd_alerting n"
  "nd_sweep (set_world w n) = nd_sweep n"
  "nd_server (set_pool p n) = (nd_server n)\<lparr>sv_pool := p\<rparr>" "nd_alerting (set_pool p n) = nd_alerting n"
  "nd_sweep (set_pool p n) = nd_sweep n"
  by (simp_all add: set_world_def set_pool_def)

text \<open>
  The stages are the method: a worker that is not interrupted computes \<open>processTelemetry\<close>, a
  sweep that is not interrupted \<open>ReconcileStatuses\<close>.
\<close>

lemma alert_loop_append:
  "alert_loop svc env j (as @ bs) w = Option.bind (alert_loop svc env j as w) (alert_loop svc env (j + length as) bs)"
  by (induction as arbitrary: j w) (auto split: option.splits prod.splits)

lemma reconcile_loop_append:
  "reconcile_loop svc env now i (ds @ es) w =
     Option.bind (reconcile_loop svc env now i ds w) (reconcile_loop svc env now (i + length ds) es)"
  by (induction ds arbitrary: i w) (auto split: option.splits prod.splits)

text \<open>
  None of the steps that could panic does: a request waits at most for room in a full queue; and no
  stage of a worker or of a sweep, no broadcast and no end of a subscription sends on or closes a
  closed channel.
\<close>

definition never_panics :: "lib \<Rightarrow> mux \<Rightarrow> ('s, 'c, 'b) Handler \<Rightarrow> ('s, 'c, 'b) node \<Rightarrow> bool" where
  "never_panics lib mux h n \<longleftrightarrow>
     (\<forall>aenv r. serve lib mux aenv h r (nd_server n) = None \<longrightarrow> jammed (nd_server n))
   \<and> (\<forall>i t env. i < length (pool_threads (nd_pool n)) \<and> pool_threads (nd_pool n) ! i = Busy t \<longrightarrow>
        telemetry_stage (h_svc h) env t (nd_world n) \<noteq> None)
   \<and> (\<forall>i env j b bs. nd_alerting n i = Some (env, j, b # bs) \<longrightarrow>
        alert_loop (h_svc h) env j [b] (nd_world n) \<noteq> None)
   \<and> (\<forall>env t k ds. reconcile_loop (h_svc h) env t k ds (nd_world n) \<noteq> None)
   \<and> (\<forall>ch. svc_Unsubscribe ch (nd_world n) \<noteq> None)
   \<and> (\<forall>p e. Broadcast p (w_hub (nd_world n)) e \<noteq> None)"

section \<open>What every reachable state satisfies\<close>

context live_service
begin

definition node_ok :: "('s, 'c, 'b) node \<Rightarrow> bool" where
  "node_ok n \<longleftrightarrow> sv_ok (nd_server n)
     \<and> (\<forall>i env j as. nd_alerting n i = Some (env, j, as) \<longrightarrow> (\<forall>a \<in> set as. fair a))"

lemma node_ok_world: "\<lbrakk>node_ok n; w_ok w\<rbrakk> \<Longrightarrow> node_ok (set_world w n)"
  by (simp add: node_ok_def sv_ok_def)

lemma node_ok_pool: "\<lbrakk>node_ok n; pool_ok workers queueSize good p\<rbrakk> \<Longrightarrow> node_ok (set_pool p n)"
  by (simp add: node_ok_def sv_ok_def)

lemma node_ok_sweep [simp]: "node_ok (n\<lparr>nd_sweep := x\<rparr>) = node_ok n"
  by (simp add: node_ok_def)

lemma node_ok_alerting:
  "\<lbrakk>node_ok n; nd_alerting n = f; \<forall>a \<in> set as. fair a\<rbrakk>
   \<Longrightarrow> node_ok (n\<lparr>nd_alerting := f(i \<mapsto> (env, j, as))\<rparr>)"
  "\<lbrakk>node_ok n; nd_alerting n = f\<rbrakk> \<Longrightarrow> node_ok (n\<lparr>nd_alerting := f(i := None)\<rparr>)"
  by (auto simp: node_ok_def)

lemma node_okD:
  assumes "node_ok n"
  shows "sv_ok (nd_server n)" "w_ok (nd_world n)" "pool_ok workers queueSize good (nd_pool n)"
    "nd_alerting n i = Some (env, j, as) \<Longrightarrow> \<forall>a \<in> set as. fair a"
    "\<lbrakk>i < length (pool_threads (nd_pool n)); pool_threads (nd_pool n) ! i = Busy t\<rbrakk> \<Longrightarrow> good t"
  using assms by (auto simp: node_ok_def sv_ok_def pool_ok_def dest: nth_mem)

lemma message_ok:
  assumes "node_ok n" "onMessage env b topic payload (nd_pool n) = Some p"
  shows "pool_ok workers queueSize good p"
proof (cases "message_sample (env_now env 1) b topic payload")
  case (Some t)
  have "finite_metrics (tel_Metrics t)"
    using Some dec_telemetry_finite by (auto simp: message_sample_def Let_def split: if_splits option.splits)
  then have "good (if IsZero (tel_Timestamp t) then t\<lparr>tel_Timestamp := env_now env 0\<rparr> else t)"
    by (intro good_samples) simp
  from pool_ok_submit [OF node_okD(3) [OF assms(1)] this] assms(2) Some show ?thesis
    by (auto simp: onMessage_def svc_IngestTelemetry_def)
qed (use assms node_okD(3) [OF assms(1)] in \<open>simp add: onMessage_def\<close>)

lemma node_step_ok:
  assumes "node_step lib mux h br n n'" "handler_ok h" "node_ok n"
  shows "node_ok n'"
proof -
  have svc: "h_svc h = svc" using assms(2) by (simp add: handler_ok_def)
  show ?thesis
    using assms(1,3)
proof (induction rule: node_step.induct)
  case (request env r n resp st)
  with serve_answers [OF assms(2) node_okD(1) [OF request.prems], of lib mux env r] show ?case
    by (simp add: node_ok_def)
next
  case (ws_open n ch w)
  then show ?case using subscribe_ok node_okD(2) node_ok_world by blast
next
  case (ws_next ch n ev hub)
  then show ?case using receive_ok node_okD(2) node_ok_world by blast
next
  case (ws_close ch n w)
  then show ?case using unsubscribe_ok [OF node_okD(2) [OF ws_close.prems], of ch] node_ok_world by auto
next
  case (message b env topic payload n p)
  then show ?case using message_ok node_ok_pool by blast
next
  case (take i n pick job p)
  then show ?case using pool_ok_select [OF node_okD(3)] node_ok_pool by blast
next
  case (drop i n t env w)
  from telemetry_stage_ok [OF node_okD(2) [OF drop.prems] node_okD(5) [OF drop.prems drop.hyps(1,2)], of env]
  have "w_ok w" using drop.hyps(4) svc by auto
  with drop pool_ok_finish [OF node_okD(3) [OF drop.prems] drop.hyps(1,2)] show ?case
    by (intro node_ok_pool node_ok_world)
next
  case (store i n t env w)
  from telemetry_stage_ok [OF node_okD(2) [OF store.prems] node_okD(5) [OF store.prems store.hyps(1,2)], of env]
  have w: "w_ok w" using store.hyps(4) svc by auto
  let ?as = "Evaluate (env_isPrint env) (env_id env) (\<lambda>i. env_now env (Suc i)) (w_engine w) t"
  have "\<forall>a \<in> set ?as. fair a"
    using w node_okD(5) [OF store.prems store.hyps(1,2)] by (simp add: w_ok_def fair_engine_def)
  then show ?case by (rule node_ok_alerting(1) [OF node_ok_world [OF store.prems w] set_simps(2)])
next
  case (alert n i env j a as w)
  note fair = node_okD(4) [OF alert.prems alert.hyps(1)]
  then have "\<forall>a \<in> set [a]. fair a" by simp
  from alert_loop_ok [OF node_okD(2) [OF alert.prems] this, of env j] have "w_ok w"
    using alert.hyps(2) unfolding svc by (metis option.inject)
  from node_ok_alerting(1) [OF node_ok_world [OF alert.prems this] set_simps(2)] fair show ?case by simp
next
  case (finish i n t env j)
  from node_ok_pool [OF finish.prems pool_ok_finish [OF node_okD(3) [OF finish.prems] finish.hyps(1,2)]]
  show ?case by (rule node_ok_alerting(2) [OF _ set_simps(5)])
next
  case (visit n env now i d ds w)
  from reconcile_loop_ok [OF node_okD(2) [OF visit.prems], of env now i "[d]"] have "w_ok w"
    using visit.hyps(2) unfolding svc by (metis option.inject)
  with visit.prems show ?case by (simp add: node_ok_world)
next
  case (bus p n e hub)
  then show ?case using broadcast_ok [OF node_okD(2) [OF bus.prems], of p e] node_ok_world by auto
next
  case (stop n)
  then show ?case using pool_ok_stop node_okD(3) node_ok_pool by blast
qed simp_all
qed

lemma run_ok:
  assumes "handler_ok (app_handler a)" "node_ok (booted a)" "node_run lib mux a n"
  shows "node_ok n"
  using assms(3) by (induction rule: node_run.induct) (simp_all add: assms(2) node_step_ok [OF _ assms(1)])

lemma node_never_panics:
  assumes "handler_ok h" "node_ok n"
  shows "never_panics lib mux h n"
proof -
  have svc: "h_svc h = svc" using assms(1) by (simp add: handler_ok_def)
  note ok = node_okD [OF assms(2)]
  have "serve lib mux aenv h r (nd_server n) = None \<longrightarrow> jammed (nd_server n)" for aenv r
    using serve_answers [OF assms(1) ok(1), of lib mux aenv r] by (auto simp: answers_def)
  moreover have "telemetry_stage (h_svc h) env t (nd_world n) \<noteq> None"
    if "i < length (pool_threads (nd_pool n))" "pool_threads (nd_pool n) ! i = Busy t" for i env t
    using telemetry_stage_ok [OF ok(2) ok(5) [OF that], of env] by (auto simp: svc)
  moreover have "alert_loop (h_svc h) env j [b] (nd_world n) \<noteq> None" if "nd_alerting n i = Some (env, j, b # bs)"
    for i env j b bs
    using alert_loop_ok [OF ok(2), of "[b]" env j] ok(4) [OF that] unfolding svc by force
  moreover have "reconcile_loop (h_svc h) env t k ds (nd_world n) \<noteq> None" for env t k ds
    using reconcile_loop_ok [OF ok(2), of env t k ds] unfolding svc by force
  moreover have "svc_Unsubscribe ch (nd_world n) \<noteq> None" for ch using unsubscribe_ok [OF ok(2), of ch] by auto
  moreover have "Broadcast p (w_hub (nd_world n)) e \<noteq> None" for p e using broadcast_ok [OF ok(2), of p e] by auto
  ultimately show ?thesis unfolding never_panics_def by blast
qed

end

section \<open>A server started on the in-memory store\<close>

abbreviation mem_good :: "Telemetry \<Rightarrow> bool" where
  "mem_good t \<equiv> finite_metrics (tel_Metrics t)"

interpretation mem_live: live_service "local_service c n" mem_user_store "data_ok m" mem_good finite_alert
  workers queueSize for c n m workers queueSize
  unfolding live_service_def local_service_fields
  using mem_data.stored_data_axioms hub_pub.publisher_contract_axioms by blast

lemma default_engine_fair: "fair_engine mem_good finite_alert default_engine"
proof -
  have "encodable_float v" if "finite_metrics m" "fmlookup m k = Some v" for m k v
    using that by (auto simp: finite_metrics_def encodable_finite)
  then show ?thesis
    by (auto simp: fair_engine_def Evaluate_eq alert_of_def finite_alert_def Let_def default_engine_def
        NewEngine_def triggers_def encodable_finite split: option.splits if_splits)
qed

lemma redis_options:
  assumes "setup_redis R z idle cfg = Up (opts, c, b, feeding)"
  shows "svc_store (svc_New st n opts) = st
    \<and> publisher_contract (svc_publisher (svc_New st n opts)) (\<lambda>x. hub_wf (fst x))"
  using assms hub_pub.publisher_contract_axioms redis_pub.publisher_contract_axioms
  by (auto simp: setup_redis_def svc_New_def WithPublisher_def WithStatusCache_def split: if_splits sum.splits)

lemma seeded_data:
  assumes "stored_data st us P good fair" "setup_auth lib env cfg us s = Up (m, a, s')" "P s"
  shows "P s' \<and> (\<forall>x. a = Some x \<longrightarrow> as_users x = us)"
  using assms(2,3)
  by (auto simp: setup_auth_def Let_def split: option.splits if_splits prod.splits sum.splits
      dest: stored_data.ensure_user_keeps [OF assms(1), rotated])

text \<open>A server on any store whose changes keep a predicate that its data satisfy when it starts.\<close>

lemma started_live:
  assumes "start_on lib R z idle env now cfg st us s = Up a" "stored_data st us P good fair" "P s"
    and "fair_engine good fair default_engine"
  shows "svc_store (h_svc (app_handler a)) = st
    \<and> live_service (h_svc (app_handler a)) us P good fair
    \<and> live_service.handler_ok (h_svc (app_handler a)) us (app_handler a)
    \<and> live_service.node_ok P good fair (cfg_Workers cfg) (cfg_QueueSize cfg) (booted a)"
proof -
  obtain opts c b feeding m x s' where redis: "setup_redis R z idle cfg = Up (opts, c, b, feeding)"
    and auth: "setup_auth lib env cfg us s = Up (m, x, s')"
    and a: "app_handler a = NewHandler (svc_New st (cfg_OfflineAfter cfg) opts) m x"
      "app_state a = \<lparr>sv_world = \<lparr>w_store = s', w_cache = c, w_hub = NewHub 64, w_bus = b,
         w_engine = default_engine\<rparr>, sv_pool = Start (NewPool (cfg_Workers cfg) (cfg_QueueSize cfg))\<rparr>"
    using assms(1) by (auto simp: start_on_def Let_def split: boot.splits)
  note svc = redis_options [OF redis, where st = st and n = "cfg_OfflineAfter cfg"]
  have h: "h_svc (app_handler a) = svc_New st (cfg_OfflineAfter cfg) opts" "h_authSvc (app_handler a) = x"
    by (simp_all add: a(1) NewHandler_def)
  have live: "live_service (h_svc (app_handler a)) us P good fair"
    using svc assms(2) by (simp add: live_service_def h)
  show ?thesis
    using live svc seeded_data [OF assms(2) auth assms(3)] assms(4)
    by (simp add: h live_service.handler_ok_def [OF live [unfolded h(1)]] live_service.node_ok_def [OF live]
        live_service.sv_ok_def [OF live] live_service.w_ok_def [OF live] booted_def a(2) NewHub_wf pool_ok_new)
qed

lemma memory_boot:
  assumes "main_start lib M R z idle env now cfg = Up (OnMemory a)"
  shows "svc_store (h_svc (app_handler a)) = mem_store
    \<and> live_service (h_svc (app_handler a)) mem_user_store (data_ok (cfg_MaxHistory cfg)) mem_good finite_alert
    \<and> live_service.handler_ok (h_svc (app_handler a)) mem_user_store (app_handler a)
    \<and> live_service.node_ok (data_ok (cfg_MaxHistory cfg)) mem_good finite_alert (cfg_Workers cfg)
        (cfg_QueueSize cfg) (booted a)"
proof (rule started_live [OF _ mem_data.stored_data_axioms data_new default_engine_fair])
  show "start_on lib R z idle env now cfg mem_store mem_user_store (NewMemoryStore (cfg_MaxHistory cfg)) = Up a"
    using assms by (auto simp: main_start_def split: if_splits sum.splits boot.splits)
qed

lemma memory_run:
  assumes "main_start lib M R z idle env now cfg = Up (OnMemory a)" "node_run lib mux a n"
  shows "live_service.node_ok (data_ok (cfg_MaxHistory cfg)) mem_good finite_alert (cfg_Workers cfg)
    (cfg_QueueSize cfg) n"
  using memory_boot [OF assms(1)] live_service.run_ok [OF _ _ _ assms(2)] by blast

text \<open>
  C1: A server started on the in-memory store keeps every invariant and never panics. In each state
  it can reach, by any interleaving of requests, WebSocket subscriptions, MQTT messages, worker
  stages, reconciler visits, bus events and a stop, the store is well-formed with every history
  within its bound, the hub is well-formed, the pool is in a state of its own machine, and no
  step that could panic does.
\<close>

theorem running_server_safe:
  assumes "main_start lib M R z idle env now cfg = Up (OnMemory a)" "node_run lib mux a n"
  shows "mem_wf (w_store (nd_world n)) \<and> hub_wf (w_hub (nd_world n))
    \<and> (\<exists>tr. pool_run (NewPool (cfg_Workers cfg) (cfg_QueueSize cfg)) tr (nd_pool n))
    \<and> (0 < cfg_MaxHistory cfg \<longrightarrow>
        (\<forall>k. int (length (series_of (ms_telemetry (w_store (nd_world n))) k)) \<le> cfg_MaxHistory cfg))
    \<and> never_panics lib mux (app_handler a) n"
proof -
  from memory_boot [OF assms(1)] have
    live: "live_service (h_svc (app_handler a)) mem_user_store (data_ok (cfg_MaxHistory cfg)) mem_good finite_alert"
    and h: "live_service.handler_ok (h_svc (app_handler a)) mem_user_store (app_handler a)" by blast+
  note ok = memory_run [OF assms]
  have data: "data_ok (cfg_MaxHistory cfg) (w_store (nd_world n))" "hub_wf (w_hub (nd_world n))"
    "\<exists>tr. pool_run (NewPool (cfg_Workers cfg) (cfg_QueueSize cfg)) tr (nd_pool n)"
    using live_service.node_okD(2,3) [OF live ok] by (simp_all add: live_service.w_ok_def [OF live] pool_ok_def)
  have cap: "int (length (series_of (ms_telemetry (w_store (nd_world n))) k)) \<le> cfg_MaxHistory cfg"
    if "0 < cfg_MaxHistory cfg" for k
    using series_length_cap [OF data_ok_wf [OF data(1)], of k] data(1) that by (simp add: data_ok_def)
  show ?thesis
    using data_ok_wf [OF data(1)] data(2,3) cap live_service.node_never_panics [OF live h ok] by blast
qed

text \<open>Finite readings are served, from whatever store.\<close>

lemma telemetry_served:
  assumes "\<forall>t \<in> set (GetTelemetry (svc_store (h_svc h)) (the_store st) (rq_id r)
      (parseSince (env_now (ap_env aenv) 0) r) (parseLimit r)). tel_DeviceID t = rq_id r \<and> finite_metrics (tel_Metrics t)"
  shows "\<exists>resp ts. h_getTelemetry aenv h r st = Some (resp, st) \<and> rs_Status resp = 200
    \<and> rs_Body resp = Some (BTelemetry ts) \<and> (\<forall>t \<in> set ts. tel_DeviceID t = rq_id r \<and> finite_metrics (tel_Metrics t))"
proof -
  let ?ts = "GetTelemetry (svc_store (h_svc h)) (the_store st) (rq_id r) (parseSince (env_now (ap_env aenv) 0) r)
    (parseLimit r)"
  have "encodable (BTelemetry ?ts)" using assms by (simp add: list_all_iff finite_metrics_encodable)
  with assms show ?thesis by (simp add: h_getTelemetry_def svc_GetTelemetry_def writeJSON_def)
qed

lemma alerts_served:
  assumes "\<forall>b \<in> set (ListAlerts (svc_store (h_svc h)) (env_sched (ap_env aenv) 0) (env_sched (ap_env aenv) 1)
      (the_store st) (query_Get r ''device_id'')).
        finite_alert b \<and> (query_Get r ''device_id'' \<noteq> '''' \<longrightarrow> al_DeviceID b = query_Get r ''device_id'')"
  shows "\<exists>resp bs. h_listAlerts aenv h r st = Some (resp, st) \<and> rs_Status resp = 200
    \<and> rs_Body resp = Some (BAlerts bs)
    \<and> (\<forall>b \<in> set bs. query_Get r ''device_id'' \<noteq> '''' \<longrightarrow> al_DeviceID b = query_Get r ''device_id'')"
proof -
  let ?bs = "ListAlerts (svc_store (h_svc h)) (env_sched (ap_env aenv) 0) (env_sched (ap_env aenv) 1) (the_store st)
    (query_Get r ''device_id'')"
  have "encodable (BAlerts ?bs)" using assms by (simp add: list_all_iff finite_alert_def)
  with assms show ?thesis by (simp add: h_listAlerts_def svc_ListAlerts_def writeJSON_def)
qed

lemma mem_GetTelemetry_set: "t \<in> set (mem_GetTelemetry s i since limit) \<Longrightarrow> t \<in> set (series_of (ms_telemetry s) i)"
  by (auto simp: mem_GetTelemetry_def Let_def slice_tail_def dest: in_set_dropD split: if_splits)

lemma mem_ListAlerts_set:
  assumes "b \<in> set (mem_ListAlerts p q s i)"
  shows "\<exists>k. b \<in> set (series_of (ms_alerts s) k) \<and> (i \<noteq> '''' \<longrightarrow> k = i)"
proof (cases "i = ''''")
  case True
  with assms obtain xs where "xs \<in> snd ` set (range_map p (ms_alerts s))" "b \<in> set xs"
    by (auto simp: mem_ListAlerts_def)
  then obtain k where "fmlookup (ms_alerts s) k = Some xs" by force
  with \<open>b \<in> set xs\<close> True show ?thesis by (intro exI [of _ k]) (simp add: series_of_def)
qed (use assms in \<open>auto simp: mem_ListAlerts_def\<close>)

lemma alerts_keyed: "\<lbrakk>mem_wf s; b \<in> set (series_of (ms_alerts s) k)\<rbrakk> \<Longrightarrow> al_DeviceID b = k"
  by (cases "fmlookup (ms_alerts s) k")
    (auto simp: mem_wf_def fmpred_iff alerts_ok_def series_of_def list_all_iff)

text \<open>A server without MongoDB, Redis and authentication starts.\<close>

definition plain_config :: Config where
  "plain_config = sample_boot_config\<lparr>cfg_JWTSecret := ''''\<rparr>"

lemma plain_boot:
  "\<exists>a. main_start sample_lib list_mongo list_redis (\<lambda>_. 0) ((\<lambda>_. None), []) (sample_auth_env []) 0
    plain_config = Up (OnMemory a)"
  by (simp add: main_start_def start_on_def Let_def setup_redis_def setup_auth_def NewManager_def plain_config_def
      sample_boot_config_def)

lemma plain_max_history: "cfg_MaxHistory plain_config = 100"
  by (simp add: plain_config_def sample_boot_config_def)

theorem running_server_safe_witness:
  "\<exists>a n. main_start sample_lib list_mongo list_redis (\<lambda>_. 0) ((\<lambda>_. None), []) (sample_auth_env []) 0
      plain_config = Up (OnMemory a)
    \<and> node_run sample_lib sample_mux a n \<and> nd_sweep n \<noteq> None \<and> mem_wf (w_store (nd_world n))
    \<and> int (length (series_of (ms_telemetry (w_store (nd_world n))) ''d1'')) \<le> 100"
proof -
  obtain a where a: "main_start sample_lib list_mongo list_redis (\<lambda>_. 0) ((\<lambda>_. None), []) (sample_auth_env []) 0
    plain_config = Up (OnMemory a)" using plain_boot by blast
  have "nd_sweep (booted a) = None" by (simp add: booted_def)
  from node_run.step [OF node_run.boot node_step.sweep [OF this, where env = sample_env]]
  obtain n where n: "node_run sample_lib sample_mux a n" "nd_sweep n \<noteq> None" by fastforce
  from running_server_safe [OF a n(1)] a n show ?thesis
    unfolding plain_max_history by (intro exI [of _ a] exI [of _ n]) simp
qed



end
