(* ===== verification/End_To_End.thy ===== *)
theory End_To_End
  imports System
begin

text \<open>
  One report of a device through every component: the router, the middleware and the token, the
  decoder, the queue and a worker of the pool, the service, the store, and back through the
  interface to whoever reads it.
\<close>

lemma capped_snoc: "\<exists>ts. capped n (xs @ [x]) = ts @ [x]"
  by (auto simp: capped_def slice_tail_def)

lemma serve_passes:
  assumes "h_auth h = Some m" "mux route_table (rq_Method r) (rq_Path r) = Matched route i"
    and "mgr_Parse lib (ap_now env) m (extractToken r) = Inr c"
  shows "\<exists>cl. serve lib mux env h r st
    = jsonContentType (run_route lib env h route) (r\<lparr>rq_id := i, rq_Claims := cl\<rparr>) st"
  using assms by (cases "rq_Path r \<in> set defaultPublicPaths")
    (auto simp: serve_eq jsonContentType_def mw_Middleware_def)

lemma serve_reads:
  assumes "h_auth h = Some m" "mux route_table (rq_Method r) (rq_Path r) = Matched route i"
    and "mgr_Parse lib (ap_now env) m (extractToken r) = Inr c"
    and "\<And>cl. run_route lib env h route (r\<lparr>rq_id := i, rq_Claims := cl\<rparr>) st = Some (writeJSON status body, st)"
    and "encodable body" "status \<noteq> 101"
  shows "\<exists>resp. serve lib mux env h r st = Some (resp, st) \<and> rs_Status resp = status \<and> rs_Body resp = Some body"
  using serve_passes [where mux = mux and r = r, OF assms(1-3), of st] assms(4-6) by (auto simp: jsonContentType_def writeJSON_def)

text \<open>The queue hands the only job to the worker that asks for it.\<close>

lemma submit_then_take:
  assumes "queued p = []" "0 < ch_cap (pool_queue p)" "\<not> pool_cancelled p"
  shows "\<exists>p1 p2. Submit pick p t = Some (True, p1) \<and> worker_select pick' k p1 = Some (Some t, p2)
    \<and> pool_cancelled p1 = pool_cancelled p"
  using assms by (simp add: Submit_def can_send_def enq_def worker_select_def recv_def)

text \<open>A report is accepted and the next worker takes it.\<close>

lemma report_accepted:
  assumes "h_auth h = Some m" "mux route_table (rq_Method r) (rq_Path r) = Matched RIngestTelemetry i"
    and "mgr_Parse lib (ap_now aenv) m (extractToken r) = Inr c"
    and "queued (sv_pool st) = []" "0 < ch_cap (pool_queue (sv_pool st))" "\<not> pool_cancelled (sv_pool st)"
    and "svc_GetDevice (h_svc h) (ap_env aenv) i (sv_world st) = Inr d"
    and "dec_telemetry (rq_Body r) = Some b" "len_map (tb_Metrics b) \<noteq> 0"
    and "t = ingested aenv (r\<lparr>rq_id := i\<rparr>) b"
  shows "\<exists>resp p1 p. serve lib mux aenv h r st = Some (resp, st\<lparr>sv_pool := p1\<rparr>) \<and> rs_Status resp = 202
    \<and> worker_select pick k p1 = Some (Some t, p)"
proof -
  have same: "ingested aenv (r\<lparr>rq_id := i, rq_Claims := cl\<rparr>) b = t" for cl
    by (simp add: assms(10) ingested_def)
  obtain p1 p where pool: "Submit (env_pick (ap_env aenv)) (sv_pool st) t = Some (True, p1)"
    "worker_select pick k p1 = Some (Some t, p)"
    using submit_then_take [OF assms(4-6)] by blast
  have "run_route lib aenv h RIngestTelemetry (r\<lparr>rq_id := i, rq_Claims := cl\<rparr>) st
      = Some (writeJSON 202 (BFields [(''status'', ''accepted'')]), st\<lparr>sv_pool := p1\<rparr>)" for cl
    using ingest_eq [of h aenv "r\<lparr>rq_id := i, rq_Claims := cl\<rparr>" st d b] assms(7-9) pool(1)
    by (simp add: run_route_def same)
  with serve_passes [where mux = mux and r = r, OF assms(1-3), of st] pool(2) show ?thesis
    by (auto simp: jsonContentType_def writeJSON_def)
qed

text \<open>What the store holds once the sample is processed.\<close>

lemma report_stored:
  assumes "data_ok N (w_store v)" "hub_wf (w_hub v)" "fmlookup (ms_devices (w_store v)) (tel_DeviceID t) = Some d"
    and "finite_metrics (tel_Metrics t)" "\<not> IsZero (tel_Timestamp t)"
  shows "\<exists>w ts. svc_processTelemetry (local_service c n) env t v = Some w
    \<and> fmlookup (ms_devices (w_store w)) (tel_DeviceID t)
        = Some (d\<lparr>dev_Status := StatusOnline, dev_LastSeenAt := tel_Timestamp t\<rparr>)
    \<and> series_of (ms_telemetry (w_store w)) (tel_DeviceID t) = ts @ [t] \<and> encodable (BTelemetry (ts @ [t]))"
proof -
  let ?old = "series_of (ms_telemetry (w_store v)) (tel_DeviceID t) @ [t]"
  from local_process [OF data_ok_wf [OF assms(1)] assms(2,3) refl, of c n env] obtain w where
    w: "svc_processTelemetry (local_service c n) env t v = Some w"
      "fmlookup (ms_devices (w_store w)) (tel_DeviceID t)
        = Some (d\<lparr>dev_Status := StatusOnline, dev_LastSeenAt := tel_Timestamp t\<rparr>)"
      "series_of (ms_telemetry (w_store w)) (tel_DeviceID t) = capped (ms_maxHistory (w_store v)) ?old"
    using assms(5) by auto
  have "\<forall>u \<in> set (capped (ms_maxHistory (w_store v)) ?old). finite_metrics (tel_Metrics u)"
    using set_capped [of "ms_maxHistory (w_store v)" ?old] assms(1,4) by (auto simp: data_ok_def readings_ok_def)
  then have "encodable (BTelemetry (capped (ms_maxHistory (w_store v)) ?old))"
    by (simp add: list_all_iff finite_metrics_encodable)
  with w show ?thesis
    using capped_snoc [of "ms_maxHistory (w_store v)" "series_of (ms_telemetry (w_store v)) (tel_DeviceID t)" t] by force
qed

text \<open>Reading the telemetry of a device and the device itself.\<close>

lemma telemetry_read:
  assumes "h_auth h = Some m" "h_svc h = local_service c n"
    and "mux route_table (rq_Method r) (rq_Path r) = Matched RGetTelemetry i"
    and "mgr_Parse lib (ap_now env) m (extractToken r) = Inr cl" "query_Get r ''since'' = ''''" "query_Get r ''limit'' = ''''"
    and "series_of (ms_telemetry (the_store st)) i = ts" "encodable (BTelemetry ts)"
  shows "\<exists>resp. serve lib mux env h r st = Some (resp, st) \<and> rs_Status resp = 200 \<and> rs_Body resp = Some (BTelemetry ts)"
  by (rule serve_reads [where mux = mux and r = r, OF assms(1,3,4) _ assms(8)])
    (simp_all add: run_route_def h_getTelemetry_def svc_GetTelemetry_def assms(2,5-7) mem_store_def mem_GetTelemetry_def
      parseSince_def parseLimit_def IsZero_def)

lemma device_read:
  assumes "h_auth h = Some m" "h_svc h = local_service None n"
    and "mux route_table (rq_Method r) (rq_Path r) = Matched RGetDevice i"
    and "mgr_Parse lib (ap_now env) m (extractToken r) = Inr cl" "fmlookup (ms_devices (the_store st)) i = Some d"
  shows "\<exists>resp. serve lib mux env h r st = Some (resp, st) \<and> rs_Status resp = 200 \<and> rs_Body resp = Some (BDevice d)"
  by (rule serve_reads [where mux = mux and r = r, OF assms(1,3,4)])
    (simp_all add: run_route_def h_getDevice_def svc_GetDevice_def assms(2,5) mem_store_def mem_GetDevice_def)

section \<open>From the report to the reader\<close>


definition sample_headers :: "string \<Rightarrow> string \<Rightarrow> request" where
  "sample_headers meth path = (sample_request meth path '''')\<lparr>rq_Query := [(''token'', ''jwt'')]\<rparr>"

definition report_mux :: mux where
  "report_mux table meth path = (if path = ''/api/devices/d1/telemetry'' then
     (if meth = ''POST'' then Matched RIngestTelemetry ''d1'' else Matched RGetTelemetry ''d1'')
     else if path = ''/api/devices/d1'' then Matched RGetDevice ''d1'' else MuxAnswer 404)"

definition sample_report :: request where
  "sample_report = (sample_headers ''POST'' ''/api/devices/d1/telemetry'')\<lparr>
     rq_Body := Some (JObj [(''metrics'', JObj [(''temp'', JNum False 0)])])\<rparr>"

lemma sample_report_body:
  "dec_telemetry (rq_Body sample_report)
     = Some \<lparr>tb_Timestamp = None, tb_Metrics = fmupd ''temp'' (Fin 0) fmempty\<rparr>"
  using sample_ingest_body by (simp add: sample_ingest_def sample_report_def)

lemma sample_parse:
  "mgr_Parse sample_lib (ap_now sample_api_env) sample_mgr (extractToken (sample_headers meth path)) = Inr sample_claims"
  "mgr_Parse sample_lib (ap_now sample_api_env) sample_mgr (extractToken sample_report) = Inr sample_claims"
  by (simp_all add: mgr_Parse_def extractToken_def sample_headers_def sample_report_def sample_request_def
      query_Get_def sample_lib_def key_func_def sample_mgr_def sample_api_env_def sample_claims_def Before_def duration_units)


end
