(* ===== verification/Cloud_System.thy ===== *)
theory Cloud_System
  imports System
begin

text \<open>
  The running server on MongoDB, with or without Redis. First without any hypothesis on the
  driver: whatever a call answers, an error, a lost connection or a document that cannot be read, no
  step of the server panics. Then on a driver with the documented behaviour: the invariant of the
  store and the finiteness of its readings hold in every reachable state, whoever writes to it.
\<close>

section \<open>Any driver\<close>

interpretation mongo_any: stored_data "mongo_store M" "mongo_user_store M" "\<lambda>_. True" "\<lambda>_. True" "\<lambda>_. True" for M
  by unfold_locales simp_all

lemma cloud_start:
  assumes "main_start lib M R z idle env now cfg = Up (OnMongo a)"
  obtains s where "NewMongoStore M \<lparr>mc_URI = cfg_MongoURI cfg, mc_Database = cfg_MongoDB cfg,
      mc_MaxHistory = cfg_MaxHistory cfg, mc_Timeout = 0\<rparr> = Inr s"
    "start_on lib R z idle env now cfg (mongo_store M) (mongo_user_store M) s = Up a"
  using assms by (auto simp: main_start_def split: if_splits sum.splits boot.splits)

lemma cloud_boot_any:
  assumes "main_start lib M R z idle env now cfg = Up (OnMongo a)"
  shows "live_service (h_svc (app_handler a)) (mongo_user_store M) (\<lambda>_. True) (\<lambda>_. True) (\<lambda>_. True)
    \<and> live_service.handler_ok (h_svc (app_handler a)) (mongo_user_store M) (app_handler a)
    \<and> live_service.node_ok (\<lambda>_. True) (\<lambda>_. True) (\<lambda>_. True) (cfg_Workers cfg) (cfg_QueueSize cfg) (booted a)"
proof -
  obtain s where "start_on lib R z idle env now cfg (mongo_store M) (mongo_user_store M) s = Up a"
    by (rule cloud_start [OF assms])
  from started_live [OF this mongo_any.stored_data_axioms] show ?thesis by (simp add: fair_engine_def)
qed

text \<open>
  C3: A server on MongoDB never panics, whatever the database does. In each state it can reach the
  hub is well-formed, the pool is in a state of its own machine and no step that could panic does,
  although every call of the driver may fail, at any moment, or return anything.
\<close>

theorem cloud_never_panics:
  assumes "main_start lib M R z idle env now cfg = Up (OnMongo a)" "node_run lib mux a n"
  shows "hub_wf (w_hub (nd_world n))
    \<and> (\<exists>tr. pool_run (NewPool (cfg_Workers cfg) (cfg_QueueSize cfg)) tr (nd_pool n))
    \<and> never_panics lib mux (app_handler a) n"
proof -
  from cloud_boot_any [OF assms(1)] have
    live: "live_service (h_svc (app_handler a)) (mongo_user_store M) (\<lambda>_. True) (\<lambda>_. True) (\<lambda>_. True)"
    and h: "live_service.handler_ok (h_svc (app_handler a)) (mongo_user_store M) (app_handler a)"
    and ok: "live_service.node_ok (\<lambda>_. True) (\<lambda>_. True) (\<lambda>_. True) (cfg_Workers cfg) (cfg_QueueSize cfg) n"
    using live_service.run_ok [OF _ _ _ assms(2)] by blast+
  from live_service.node_okD(2,3) [OF live ok] live_service.node_never_panics [OF live h ok]
  show ?thesis by (simp add: live_service.w_ok_def [OF live] pool_ok_def)
qed

section \<open>What a driver with the documented behaviour leaves alone\<close>

lemma insert_cases:
  assumes "mongo_ok M docs uniq up" "up db" "fmlookup d ''_id'' = None" "mongo_InsertOne M c d db = (e, db')"
  shows "(e = None \<or> db' = db) \<and> (k \<noteq> c \<longrightarrow> docs db' k = docs db k)"
  using insert_new [OF assms(1-3), of c] insert_clash [OF assms(1-3), of c] assms(4)
  by (cases "clash (uniq db c) (docs db c) d") (auto simp: becomes_def)

lemma delete_one_cases:
  assumes "mongo_ok M docs uniq up" "up db" "mongo_DeleteOne M c f db = (r, db')"
  shows "up db' \<and> (k \<noteq> c \<longrightarrow> docs db' k = docs db k)"
  using delete_match [OF assms(1,2), of c f] delete_no_match [OF assms(1,2), of c f] assms(2,3)
  by (cases "\<exists>d \<in> set (docs db c). matches f d") (auto simp: becomes_def)

lemma delete_many_cases:
  assumes "mongo_ok M docs uniq up" "up db" "mongo_DeleteMany M c f db = (r, db')"
  shows "k \<noteq> c \<longrightarrow> docs db' k = docs db k"
  using delete_all [OF assms(1,2), of c f] assms(3) by (auto simp: becomes_def)

lemma update_cases:
  assumes "mongo_ok M docs uniq up" "up db" "fst ` set upds \<inter> insert ''_id'' (uniq db c) = {}"
    and "mongo_UpdateOne M c f upds db = (r, db')"
  shows "k \<noteq> c \<longrightarrow> docs db' k = docs db k"
  using update_match [OF assms(1-3), of f] update_no_match [OF assms(1-3), of f] assms(4)
  by (cases "\<exists>d \<in> set (docs db c). matches f d") (auto simp: becomes_def)

text \<open>The two views that hold readings, and the cap, of which no operation on users changes one.\<close>

definition readings :: "'db docs_view \<Rightarrow> 'db MongoStore
    \<Rightarrow> (string \<Rightarrow> Telemetry multiset) \<times> (string \<Rightarrow> Alert multiset) \<times> int" where
  "readings docs s = (mtel docs s, malr docs s, mgs_maxHistory s)"

lemma readings_step:
  assumes "\<And>k. k \<noteq> c \<Longrightarrow> docs db k = docs (mgs_db s) k" "c \<in> {''users'', ''refresh_tokens''}"
  shows "readings docs (s\<lparr>mgs_db := db\<rparr>) = readings docs s"
  using assms(2) assms(1) [of "''telemetry''"] assms(1) [of "''alerts''"]
  by (auto simp: readings_def mtel_def malr_def fun_eq_iff)

lemma readings_users:
  assumes "mongo_ok M docs uniq up" "mongo_inv docs uniq up s"
  shows "mgo_CreateUser M s u = (e, s') \<Longrightarrow> readings docs s' = readings docs s"
    and "mgo_DeleteUser M s i = (e, s') \<Longrightarrow> readings docs s' = readings docs s"
    and "mgo_StoreRefreshToken M s r = (e, s') \<Longrightarrow> readings docs s' = readings docs s"
    and "mgo_DeleteRefreshToken M s h = (e, s') \<Longrightarrow> readings docs s' = readings docs s"
    and "mgo_DeleteUserRefreshTokens M s i = (e, s') \<Longrightarrow> readings docs s' = readings docs s"
    and "mgo_UpdateUser M s u = (e, s') \<Longrightarrow> readings docs s' = readings docs s"
proof -
  note up = invD(1) [OF assms(2)]
  have ins: "readings docs (s\<lparr>mgs_db := db\<rparr>) = readings docs s"
    if "mongo_InsertOne M c d (mgs_db s) = (res, db)" "fmlookup d ''_id'' = None"
      "c \<in> {''users'', ''refresh_tokens''}" for c d res db
    using insert_cases [OF assms(1) up that(2,1)] by (intro readings_step [OF _ that(3)]) blast
  have del: "readings docs (s\<lparr>mgs_db := db\<rparr>) = readings docs s" "up db"
    if "mongo_DeleteOne M c f (mgs_db s) = (res, db)" "c \<in> {''users'', ''refresh_tokens''}" for c f res db
    using delete_one_cases [OF assms(1) up that(1)] readings_step [OF _ that(2), of docs db s] by blast+
  have many: "readings docs (s\<lparr>mgs_db := db\<rparr>) = readings docs (s\<lparr>mgs_db := db0\<rparr>)"
    if "mongo_DeleteMany M c f db0 = (res, db)" "c \<in> {''users'', ''refresh_tokens''}" "up db0" for c f res db db0
    using delete_many_cases [OF assms(1) that(3,1)] readings_step [OF _ that(2), of docs db "s\<lparr>mgs_db := db0\<rparr>"]
    by simp
  show "readings docs s' = readings docs s" if "mgo_CreateUser M s u = (e, s')"
    using that ins [of "''users''"] by (auto simp: mgo_CreateUser_def marshal_no_id split: prod.splits)
  show "readings docs s' = readings docs s" if "mgo_StoreRefreshToken M s r = (e, s')"
    using that ins [of "''refresh_tokens''"]
    by (auto simp: mgo_StoreRefreshToken_def marshal_no_id split: prod.splits)
  show "readings docs s' = readings docs s" if "mgo_DeleteRefreshToken M s h = (e, s')"
    using that del(1) [of "''refresh_tokens''"] by (auto simp: mgo_DeleteRefreshToken_def split: prod.splits)
  show "readings docs s' = readings docs s" if "mgo_DeleteUserRefreshTokens M s i = (e, s')"
    using that many [OF _ _ up] by (auto simp: mgo_DeleteUserRefreshTokens_def split: prod.splits)
  show "readings docs s' = readings docs s" if run: "mgo_UpdateUser M s u = (e, s')"
  proof -
    let ?upds = "[(''roles'', BStrs (usr_Roles u)), (''password_hash'', BStr (usr_PasswordHash u))]"
    have free: "fst ` set ?upds \<inter> insert ''_id'' (uniq (mgs_db s) ''users'') = {}"
      using invD(2) [OF assms(2)] by (simp add: indexes_wf_def)
    obtain res db where one: "mongo_UpdateOne M ''users'' [(''id'', CEq (BStr (usr_ID u)))] ?upds (mgs_db s) = (res, db)"
      by force
    have "readings docs (s\<lparr>mgs_db := db\<rparr>) = readings docs s"
      using update_cases [OF assms(1) up free one] by (intro readings_step [where c = "''users''"]) blast+
    with run one show ?thesis by (auto simp: mgo_UpdateUser_def update_one_def split: sum.splits)
  qed
  show "readings docs s' = readings docs s" if "mgo_DeleteUser M s i = (e, s')"
  proof -
    obtain res db where one: "mongo_DeleteOne M ''users'' [(''id'', CEq (BStr i))] (mgs_db s) = (res, db)" by force
    obtain res' db' where two: "mongo_DeleteMany M ''refresh_tokens'' [(''user_id'', CEq (BStr i))] db = (res', db')"
      by force
    show ?thesis using that one two del [OF one] many [OF two]
      by (auto simp: mgo_DeleteUser_def split: sum.splits if_splits)
  qed
qed

section \<open>What it keeps\<close>

text \<open>The invariant of the store, its cap, and readings that are all finite.\<close>

definition cloud_data :: "'db docs_view \<Rightarrow> 'db uniq_view \<Rightarrow> ('db \<Rightarrow> bool) \<Rightarrow> int \<Rightarrow> 'db MongoStore \<Rightarrow> bool" where
  "cloud_data docs uniq up n s \<longleftrightarrow> mongo_inv docs uniq up s \<and> mgs_maxHistory s = n
     \<and> (\<forall>k. \<forall>t \<in># mtel docs s k. finite_metrics (tel_Metrics t))
     \<and> (\<forall>k. \<forall>a \<in># malr docs s k. finite_alert a)"

lemma cloud_frame:
  "\<lbrakk>cloud_data docs uniq up n s; mongo_inv docs uniq up s'; readings docs s' = readings docs s\<rbrakk>
   \<Longrightarrow> cloud_data docs uniq up n s'"
  by (simp add: cloud_data_def readings_def)

lemma mongo_update_frame:
  assumes "mongo_ok M docs uniq up" "mongo_inv docs uniq up s" "mdev docs s i = Some d"
    and "mgo_UpdateDevice M s i n t l m = (e, s')"
  shows "mtel docs s' = mtel docs s \<and> malr docs s' = malr docs s \<and> mgs_maxHistory s' = mgs_maxHistory s"
  using mongo_update_device [OF assms(1,2,3), where f = "\<lambda>d. d\<lparr>dev_Name := n, dev_Type := t,
      dev_Location := l, dev_Metadata := m\<rparr>", OF _ _ _ assms(4) [unfolded mgo_UpdateDevice_def]]
    updated_device by auto

lemma cloud_devices:
  assumes "mongo_ok M docs uniq up" "cloud_data docs uniq up n s"
  shows "mgo_CreateDevice M s d = (e, s') \<Longrightarrow> cloud_data docs uniq up n s'"
    and "mgo_UpdateDevice M s i nm ty l m = (e, s') \<Longrightarrow> cloud_data docs uniq up n s'"
    and "mgo_UpdateDeviceStatus M s i st seen = (e, s') \<Longrightarrow> cloud_data docs uniq up n s'"
    and "mgo_DeleteDevice M s i = (e, s') \<Longrightarrow> cloud_data docs uniq up n s'"
proof -
  have inv: "mongo_inv docs uniq up s" using assms(2) by (simp add: cloud_data_def)
  note frame = cloud_frame [OF assms(2)]
  show "cloud_data docs uniq up n s'" if "mgo_CreateDevice M s d = (e, s')"
    using mongo_create_device [OF assms(1) inv _ that] mongo_create_taken [OF assms(1) inv, of d]
      mongo_create_frame [OF assms(1) inv that] that assms(2)
    by (cases "mdev docs s (dev_ID d)") (auto simp: readings_def intro: frame)
  show "cloud_data docs uniq up n s'" if "mgo_UpdateDevice M s i nm ty l m = (e, s')"
    using mongo_update [OF assms(1) inv _ that] mongo_update_frame [OF assms(1) inv _ that]
      mongo_update_missing [OF assms(1) inv, of i nm ty l m] that assms(2)
    by (cases "mdev docs s i") (auto simp: readings_def intro: frame)
  show "cloud_data docs uniq up n s'" if "mgo_UpdateDeviceStatus M s i st seen = (e, s')"
    using mongo_status [OF assms(1) inv _ that] mongo_status_missing [OF assms(1) inv, of i st seen] that assms(2)
    by (cases "mdev docs s i") (auto simp: readings_def intro: frame)
  show "cloud_data docs uniq up n s'" if "mgo_DeleteDevice M s i = (e, s')"
    using mongo_delete_device [OF assms(1) inv _ that] mongo_delete_missing [OF assms(1) inv, of i] that assms(2)
    by (cases "mdev docs s i") (auto simp: cloud_data_def)
qed

lemma cloud_samples:
  assumes "mongo_ok M docs uniq up" "cloud_data docs uniq up n s"
  shows "\<lbrakk>finite_metrics (tel_Metrics t); mgo_AddTelemetry M s t = (e, s')\<rbrakk> \<Longrightarrow> cloud_data docs uniq up n s'"
    and "\<lbrakk>finite_alert a; mgo_AddAlert M s a = (e, s')\<rbrakk> \<Longrightarrow> cloud_data docs uniq up n s'"
proof -
  have inv: "mongo_inv docs uniq up s" using assms(2) by (simp add: cloud_data_def)
  show "cloud_data docs uniq up n s'" if t: "finite_metrics (tel_Metrics t)" and run: "mgo_AddTelemetry M s t = (e, s')"
  proof (cases "mdev docs s (tel_DeviceID t)")
    case None
    with mongo_add_unknown [OF assms(1) inv] run assms(2) show ?thesis by simp
  next
    case (Some d)
    note step = mongo_tel_law [OF assms(1) inv Some run]
    have "finite_metrics (tel_Metrics u)" if "u \<in># mtel docs s' k" for u k
    proof (cases "k = tel_DeviceID t")
      case True
      with step that have "u \<in># add_mset (kept_telemetry (mongo_Date M) t) (mtel docs s k)"
        by (metis mset_subset_eqD)
      with t assms(2) show ?thesis by (auto simp: cloud_data_def kept_telemetry_def)
    qed (use step that assms(2) in \<open>simp add: cloud_data_def\<close>)
    with step assms(2) show ?thesis by (simp add: cloud_data_def)
  qed
  show "cloud_data docs uniq up n s'" if "finite_alert a" "mgo_AddAlert M s a = (e, s')"
    using mongo_add_alert [OF assms(1) inv that(2)] that(1) assms(2)
    by (auto simp: cloud_data_def finite_alert_def kept_alert_def split: if_splits)
qed

text \<open>An identifier or a hash that is taken: the insert fails and changes nothing.\<close>

lemma mongo_create_taken_user:
  assumes "mongo_ok M docs uniq up" "mongo_inv docs uniq up s" "musr docs s (usr_ID u) \<noteq> None"
  shows "mgo_CreateUser M s u = (Some ErrDuplicateUser, s)"
proof -
  note inv = invD [OF assms(2)]
  let ?doc = "marshal_user M (userToDoc u)" and ?us = "docs (mgs_db s) ''users''"
  have "usr_ID u \<in> usr_ID ` set (map user_of ?us)"
    using assms(3) by (simp only: musr_def keyed_None) blast
  then have "clash {''id''} ?us ?doc"
    using usrs.clash_key [OF inv(7), of ?doc "usr_ID u"] by (simp add: marshal_keys userToDoc_def)
  then have "clash (uniq (mgs_db s) ''users'') ?us ?doc"
    using inv(2) by (auto simp: indexes_wf_def clash_def)
  from insert_clash [OF assms(1), OF inv(1) marshal_no_id(4) this] show ?thesis
    by (auto simp: mgo_CreateUser_def)
qed

lemma mongo_put_taken:
  assumes "mongo_ok M docs uniq up" "mongo_inv docs uniq up s" "mtok docs s (rt_TokenHash r) \<noteq> None"
  shows "snd (mgo_StoreRefreshToken M s r) = s"
proof -
  note inv = invD [OF assms(2)]
  let ?doc = "marshal_refresh M \<lparr>rd_TokenHash = rt_TokenHash r, rd_UserID = rt_UserID r,
      rd_ExpiresAt = rt_ExpiresAt r, rd_CreatedAt = rt_CreatedAt r\<rparr>"
  let ?ts = "docs (mgs_db s) ''refresh_tokens''"
  have "rt_TokenHash r \<in> rt_TokenHash ` set (map token_of ?ts)"
    using assms(3) by (simp only: mtok_def keyed_None) blast
  then have "clash (uniq (mgs_db s) ''refresh_tokens'') ?ts ?doc"
    using toks.clash_key [OF inv(10), of ?doc "rt_TokenHash r"] inv(2)
    by (simp add: indexes_wf_def marshal_keys)
  from insert_clash [OF assms(1), OF inv(1) marshal_no_id(5) this] show ?thesis
    by (auto simp: mgo_StoreRefreshToken_def)
qed

lemma cloud_users:
  assumes "mongo_ok M docs uniq up" "cloud_data docs uniq up n s"
  shows "mgo_CreateUser M s u = (e, s') \<Longrightarrow> cloud_data docs uniq up n s'"
    and "\<lbrakk>mgo_GetUserByID M s i = Inr v; usr_ID u = usr_ID v; usr_Username u = usr_Username v;
        usr_CreatedAt u = usr_CreatedAt v; mgo_UpdateUser M s u = (e, s')\<rbrakk> \<Longrightarrow> cloud_data docs uniq up n s'"
    and "mgo_DeleteUser M s i = (e, s') \<Longrightarrow> cloud_data docs uniq up n s'"
    and "mgo_StoreRefreshToken M s r = (e, s') \<Longrightarrow> cloud_data docs uniq up n s'"
    and "mgo_DeleteRefreshToken M s h = (e, s') \<Longrightarrow> cloud_data docs uniq up n s'"
    and "mgo_DeleteUserRefreshTokens M s i = (e, s') \<Longrightarrow> cloud_data docs uniq up n s'"
proof -
  have inv: "mongo_inv docs uniq up s" using assms(2) by (simp add: cloud_data_def)
  note same = readings_users [OF assms(1) inv] and frame = cloud_frame [OF assms(2)]
  show "cloud_data docs uniq up n s'" if run: "mgo_CreateUser M s u = (e, s')"
  proof (rule frame [OF _ same(1) [OF run]])
    show "mongo_inv docs uniq up s'"
      using mongo_create_taken_user [OF assms(1) inv] mongo_create_duplicate [OF assms(1) inv]
        mongo_create_user [OF assms(1) inv _ _ run] run inv by (metis prod.inject)
  qed
  show "cloud_data docs uniq up n s'" if run: "mgo_DeleteUser M s i = (e, s')"
    using mongo_delete_user [OF assms(1) inv _ run] mongo_delete_no_user [OF assms(1) inv, of i] run assms(2)
    by (cases "musr docs s i") (auto intro: frame [OF _ same(2) [OF run]])
  show "cloud_data docs uniq up n s'" if run: "mgo_StoreRefreshToken M s r = (e, s')"
    using mongo_put_token [OF assms(1) inv _ run] mongo_put_taken [OF assms(1) inv, of r] run assms(2)
    by (cases "mtok docs s (rt_TokenHash r)") (auto intro: frame [OF _ same(3) [OF run]])
  show "cloud_data docs uniq up n s'" if run: "mgo_DeleteRefreshToken M s h = (e, s')"
    using mongo_drop_token [OF assms(1) inv run] by (intro frame [OF _ same(4) [OF run]]) simp
  show "cloud_data docs uniq up n s'" if run: "mgo_DeleteUserRefreshTokens M s i = (e, s')"
    using mongo_drop_user_tokens [OF assms(1) inv run] by (intro frame [OF _ same(5) [OF run]]) simp
  show "cloud_data docs uniq up n s'"
    if v: "mgo_GetUserByID M s i = Inr v" and u: "usr_ID u = usr_ID v" "usr_Username u = usr_Username v"
      "usr_CreatedAt u = usr_CreatedAt v" and run: "mgo_UpdateUser M s u = (e, s')"
  proof -
    have i: "musr docs s i = Some v" using v mongo_find_user(1) [OF assms(1) inv, of i] by (auto split: option.splits)
    then have "usr_ID v = i" using keyed_Some [of usr_ID] by (fastforce simp: musr_def)
    with i u have "musr docs s (usr_ID u) = Some v" by simp
    note step = mongo_update_user [OF assms(1) inv this, OF u(2) [symmetric] u(3) [symmetric] run]
    then show ?thesis by (intro frame [OF _ same(6) [OF run]]) simp
  qed
qed

lemma cloud_stored_data:
  assumes "mongo_ok M docs uniq up"
  shows "stored_data (mongo_store M) (mongo_user_store M) (cloud_data docs uniq up n) mem_good finite_alert"
  by unfold_locales
    (simp add: mongo_store_def mongo_user_store_def;
      blast intro: cloud_devices [OF assms] cloud_samples [OF assms] cloud_users [OF assms])+

section \<open>A server started on MongoDB\<close>

text \<open>
  The database a server may start on: reachable, with well-formed documents, among them no
  reading that JSON cannot express; an empty one for instance.
\<close>

definition startable :: "'db docs_view \<Rightarrow> 'db uniq_view \<Rightarrow> ('db \<Rightarrow> bool) \<Rightarrow> int \<Rightarrow> 'db \<Rightarrow> bool" where
  "startable docs uniq up n db \<longleftrightarrow> up db \<and> docs_wf n (docs db) \<and> (uniq db = (\<lambda>_. {}) \<or> indexes_wf (uniq db))
     \<and> (\<forall>d \<in> set (docs db ''telemetry''). finite_metrics (tel_Metrics (tel_of d)))
     \<and> (\<forall>d \<in> set (docs db ''alerts''). finite_alert (Mongo_Docs.alert_of d))"

lemma cloud_boot:
  assumes "mongo_ok M docs uniq up" "mongo_Ping M db = None" "startable docs uniq up (cfg_MaxHistory cfg) db"
    and "mongo_Connect M (cfg_MongoURI cfg) (if cfg_MongoDB cfg = '''' then ''iot'' else cfg_MongoDB cfg) = Inr db"
    and "main_start lib M R z idle env now cfg = Up (OnMongo a)"
  shows "svc_store (h_svc (app_handler a)) = mongo_store M
    \<and> live_service (h_svc (app_handler a)) (mongo_user_store M) (cloud_data docs uniq up (cfg_MaxHistory cfg))
        mem_good finite_alert
    \<and> live_service.handler_ok (h_svc (app_handler a)) (mongo_user_store M) (app_handler a)
    \<and> live_service.node_ok (cloud_data docs uniq up (cfg_MaxHistory cfg)) mem_good finite_alert
        (cfg_Workers cfg) (cfg_QueueSize cfg) (booted a)"
proof -
  let ?mc = "\<lparr>mc_URI = cfg_MongoURI cfg, mc_Database = cfg_MongoDB cfg, mc_MaxHistory = cfg_MaxHistory cfg,
    mc_Timeout = 0\<rparr>"
  obtain s where s: "NewMongoStore M ?mc = Inr s"
    "start_on lib R z idle env now cfg (mongo_store M) (mongo_user_store M) s = Up a"
    by (rule cloud_start [OF assms(5)])
  have db: "up db" "docs_wf (mc_MaxHistory ?mc) (docs db)" "uniq db = (\<lambda>_. {}) \<or> indexes_wf (uniq db)"
    "mongo_Connect M (mc_URI ?mc) (if mc_Database ?mc = '''' then ''iot'' else mc_Database ?mc) = Inr db"
    using assms(3,4) by (simp_all only: startable_def MongoConfig.simps)
  from mongo_starts [OF assms(1,2) db(1,4,2,3)] s(1)
  have "mongo_inv docs uniq up s" "docs (mgs_db s) = docs db" "mgs_maxHistory s = cfg_MaxHistory cfg" by auto
  then have "cloud_data docs uniq up (cfg_MaxHistory cfg) s"
    using assms(3) by (auto simp: cloud_data_def startable_def mtel_def malr_def points_def)
  from started_live [OF s(2) cloud_stored_data [OF assms(1)] this default_engine_fair] show ?thesis .
qed

lemma mongo_window_set:
  assumes "mongo_ok M docs uniq up" "mongo_inv docs uniq up s" "t \<in> set (mgo_GetTelemetry M s k since limit)"
  shows "t \<in># mtel docs s k \<and> tel_DeviceID t = k"
proof -
  obtain pts where pts: "mset pts = {#t \<in># mtel docs s k. IsZero since \<or> mongo_Date M since \<le> tel_Timestamp t#}"
    "mgo_GetTelemetry M s k since limit = (if 0 < limit then drop (length pts - nat limit) pts else pts)"
    using mongo_window [OF assms(1,2)] by blast
  have "t \<in> set pts" using assms(3) unfolding pts(2) by (auto dest: in_set_dropD split: if_splits)
  then have "t \<in># mtel docs s k" using pts(1) by (metis filter_mset_eq_conv mset_subset_eqD set_mset_mset)
  then show ?thesis by (simp add: mtel_def points_def)
qed

lemma mongo_alerts_set:
  assumes "mongo_ok M docs uniq up" "mongo_inv docs uniq up s" "b \<in> set (mgo_ListAlerts M s i)"
  shows "b \<in># malr docs s (al_DeviceID b)" and "i \<noteq> '''' \<Longrightarrow> al_DeviceID b = i"
proof -
  have list: "mset (mgo_ListAlerts M s i) = (if i = '''' then mset (map Mongo_Docs.alert_of (docs (mgs_db s) ''alerts''))
      else malr docs s i)" using mongo_list_alerts [OF assms(1,2)] by blast
  have b: "b \<in># mset (mgo_ListAlerts M s i)" using assms(3) by simp
  show "b \<in># malr docs s (al_DeviceID b)" using b unfolding list by (auto simp: malr_def split: if_splits)
  show "al_DeviceID b = i" if "i \<noteq> ''''" using b that unfolding list by (simp add: malr_def)
qed


section \<open>The server on the reference database\<close>

definition sample_db :: listdb where
  "sample_db = \<lparr>ld_docs = (\<lambda>_. []), ld_uniq = (\<lambda>_. {}), ld_next = 0\<rparr>"

lemma sample_db_ok:
  "mongo_Ping list_mongo sample_db = None" "startable ld_docs ld_uniq ld_ok n sample_db"
  "mongo_Connect list_mongo uri name = Inr sample_db"
  by (simp_all add: sample_db_def list_mongo_def startable_def ld_ok_def empty_docs_wf)

text \<open>A run in which a sweep has begun.\<close>

lemma sample_db_run:
  obtains a n where "main_start sample_lib list_mongo list_redis (\<lambda>_. 0) ((\<lambda>_. None), []) (sample_auth_env []) 0
      sample_cloud_config = Up (OnMongo a)"
    "node_run sample_lib sample_mux a n" "nd_sweep n \<noteq> None"
proof -
  obtain a where a: "main_start sample_lib list_mongo list_redis (\<lambda>_. 0) ((\<lambda>_. None), []) (sample_auth_env []) 0
    sample_cloud_config = Up (OnMongo a)" using sample_cloud_boots by blast
  have "nd_sweep (booted a) = None" by (simp add: booted_def)
  from node_run.step [OF node_run.boot node_step.sweep [OF this, where env = sample_env]] that [OF a]
  show thesis by fastforce
qed

theorem cloud_never_panics_witness:
  "\<exists>a n. main_start sample_lib list_mongo list_redis (\<lambda>_. 0) ((\<lambda>_. None), []) (sample_auth_env []) 0
      sample_cloud_config = Up (OnMongo a)
    \<and> node_run sample_lib sample_mux a n \<and> nd_sweep n \<noteq> None \<and> hub_wf (w_hub (nd_world n))
    \<and> never_panics sample_lib sample_mux (app_handler a) n"
proof -
  obtain a n where run: "main_start sample_lib list_mongo list_redis (\<lambda>_. 0) ((\<lambda>_. None), []) (sample_auth_env []) 0
      sample_cloud_config = Up (OnMongo a)"
    "node_run sample_lib sample_mux a n" "nd_sweep n \<noteq> None" by (rule sample_db_run)
  with cloud_never_panics [OF run(1,2)] show ?thesis by blast
qed


end
