(* ===== verification/Spec2Isabelle.thy ===== *)
theory Spec2Isabelle
  imports Analytics Tokens End_To_End Cloud_System
begin

text \<open>
  \<^bold>\<open>A verification library for the IoT device management platform.\<close>

  \<^bold>\<open>The program.\<close> One Go process (\<open>cmd/server/main.go\<close>) serves HTTP and WebSocket clients
  (\<open>internal/api\<close>), takes telemetry from an MQTT broker (\<open>internal/mqtt\<close>), and works on it in a bounded
  pool of goroutines (\<open>internal/worker\<close>). The orchestrator (\<open>internal/service\<close>) stores each sample,
  marks its device online, evaluates the alert rules (\<open>internal/alerts\<close>) and publishes events, to the
  local hub (\<open>internal/realtime\<close>) or to Redis, which is also the cache of device statuses
  (\<open>internal/cache\<close>). The store (\<open>internal/store\<close>) is in memory or MongoDB. A reconciler marks silent
  devices offline. Analytics (\<open>internal/analytics\<close>) aggregates a window of telemetry. Authentication
  (\<open>internal/auth\<close>) issues JWT access tokens and rotating refresh tokens. The shared objects are the
  store, the hub, the pool and Redis; everything else is a function of its arguments.

  \<^bold>\<open>How the code is modelled.\<close> A Go struct is a record, an interface a record of functions over the
  state behind it, an error the left side of a sum, a nil pointer or a missing key \<open>None\<close>, an enum of
  strings a string. A method of a shared object holds its lock from the first statement to the last, so
  it is a function from the state to a result and a new state; the places where a method releases the
  lock, blocks or makes several calls are cut there, and the pieces are steps of a relation. What the
  runtime chooses is an argument: the iteration order of a map (a \<open>sched\<close>), the case a \<open>select\<close> takes,
  clock readings, UUIDs, random bytes. A panic of a channel, or waiting, is \<open>None\<close>, and its absence
  is proved. Counters are 64-bit words, hashes are computed on 32-bit words, durations saturate at
  64 bits, readings are IEEE 754 numbers with their rounding.

  \<^bold>\<open>The theories.\<close>

  \<^item> \<open>Go_Base\<close>, \<open>Float64\<close>, \<open>Go_Channels\<close>, \<open>Go_Format\<close>, \<open>Go_Text\<close>, \<open>Go_Time\<close>, \<open>Go_Json\<close>, \<open>Go_Marshal\<close>: the
    language and the parts of the standard library the program uses, with the facts on maps, orders
    of iteration, slices, rounding and printing that the component theories share. A time printed as
    RFC 3339 parses back to the same instant, and an event encoded as JSON decodes to the same event.
  \<^item> \<open>Models\<close>: \<open>internal/models/models.go\<close>.
  \<^item> \<open>Memory_Store\<close>, \<open>Store_Contract\<close>, \<open>Memory_Store_Correct\<close>: \<open>store.go\<close>, \<open>users.go\<close>,
    \<open>memory_users.go\<close>. The contracts of the two store interfaces are the locales \<open>device_contract\<close>,
    \<open>store_contract\<close> and \<open>user_contract\<close>; the in-memory store keeps its well-formedness in every
    sequence of calls and is an interpretation of all three.
  \<^item> \<open>Mongo\<close>, \<open>Mongo_Driver\<close>, \<open>Mongo_Docs\<close>, \<open>Mongo_Correct\<close>, \<open>Mongo_Users\<close>: \<open>mongo.go\<close>,
    \<open>mongo_mapping.go\<close>, \<open>mongo_users.go\<close> over the driver as a parameter. On every driver with the documented
    behaviour they keep the same contracts, up to the precision of BSON dates.
  \<^item> \<open>Alerts\<close>, \<open>Analytics\<close>: \<open>alerts.go\<close>, \<open>analytics.go\<close>; the loops equal reference definitions.
  \<^item> \<open>Hub\<close>, \<open>Pool\<close>: \<open>hub.go\<close>, \<open>pool.go\<close> as state machines whose runs never send on a closed channel, lose
    no job, drain, and stop.
  \<^item> \<open>Service\<close>, \<open>Service_Correct\<close>: \<open>service.go\<close> over any store, publisher and cache. The locale
    \<open>service\<close> proves the effect of each method from the contracts alone.
  \<^item> \<open>Redis\<close>, \<open>Redis_Correct\<close>, \<open>Deployment\<close>: \<open>redis.go\<close> over the client as a parameter, and the service
    on MongoDB and Redis together.
  \<^item> \<open>Tokens\<close>, \<open>Auth\<close>, \<open>Auth_Correct\<close>, \<open>Middleware\<close>: \<open>auth.go\<close>, \<open>service.go\<close>, \<open>middleware.go\<close> of
    \<open>internal/auth\<close>; SHA-256, hexadecimal and base64 are written out.
  \<^item> \<open>Api\<close>, \<open>Api_Correct\<close>: every handler of \<open>handlers.go\<close>, the route table, the WebSocket loop.
  \<^item> \<open>Config\<close>, \<open>Mqtt\<close>, \<open>Server\<close>: \<open>config.go\<close>, \<open>mqtt.go\<close>, and the wiring and shutdown order of \<open>main.go\<close>.
  \<^item> \<open>Interleaving\<close>: methods of the service cut between two store calls, and what another method
    running there does to them.
  \<^item> \<open>Running\<close>, \<open>System\<close>, \<open>End_To_End\<close>: the started server as one state machine of interleaved
    goroutines; every reachable state of a server in memory satisfies the invariants of all components
    and no step panics; one report followed through every component and back. The locales
    \<open>stored_data\<close> and \<open>live_service\<close> carry any predicate that the changes of a store keep through every
    handler and every step.
  \<^item> \<open>Cloud_System\<close>: the same state machine on MongoDB. No step panics whatever the driver answers; on a
    driver with the documented behaviour the invariant of the database holds in every reachable state.

  \<^bold>\<open>Bounds.\<close> No definition uses fuel. Loops over data are structural or have a termination proof;
  loops that end when the world says so (a worker, a WebSocket, the Redis subscription, the
  reconciler) take the list of what happens to them, one element per turn, and the theorems hold for
  every such list. That workers finish and that \<open>Stop\<close> returns is proved with an explicit bound on their steps.

  \<^bold>\<open>Hypotheses on code outside the repository.\<close> \<open>mongo_ok\<close>, \<open>redis_ok\<close>, \<open>jwt_ok\<close> and \<open>bcrypt_ok\<close> state
  the documented behaviour of the MongoDB driver, go-redis, golang-jwt and bcrypt. \<open>list_mongo\<close>, a database
  of lists of documents, \<open>list_redis\<close> and \<open>sample_lib\<close> satisfy them, and the witnesses run on these. The
  router, the WebSocket upgrader and the MQTT client are arguments about which nothing is assumed.

  \<^bold>\<open>What modelling showed.\<close> Rotation of refresh tokens, the sweep of the reconciler and the deletion of
  a device are not atomic against other requests: the theorems of \<open>Auth_Correct\<close> and \<open>Interleaving\<close> on
  races exhibit what can happen. A topic prefix with a slash silences the bridge (\<open>Mqtt\<close>). An overflowing
  window of analytics is answered with an empty body (\<open>Api_Correct\<close>), which cannot happen to telemetry
  and alerts (\<open>System\<close>, \<open>Cloud_System\<close>). A full queue lets requests wait, where a comment promises a
  rejection (\<open>Api_Correct\<close>). At shutdown the Redis client is closed before the workers are waited for
  (\<open>shutdown_calls\<close> of \<open>Server\<close>).

  \<^bold>\<open>Not modelled.\<close> Logging, signals, the HTTP listener and its timeouts; the text of JSON bodies (they
  are JSON values; repeated keys and escaped timestamps are left out); the location of a time except
  as the offset it is printed with; the difference between a nil and an empty map; closing the
  MongoDB and Redis clients, connecting the MQTT client and the timeouts of single calls, which only
  call the libraries (the expiry of a timeout is one of the failures a call may return). In the state machine of
  \<open>System\<close> an HTTP request is one step, a broadcast as well; interleavings inside a request are those
  of the race between two refreshes in \<open>Auth_Correct\<close>, and broadcasts that overlap are those of \<open>Hub\<close>.
\<close>

end
